(* ===== verification/Prelude.thy ===== *)
theory Prelude
  imports Main "HOL-Library.Word" "HOL-Library.Char_ord" "HOL-Library.List_Lexorder"
    "HOL-Library.Sublist"
begin

text \<open>
  What the components share: the \<open>Result\<close> type of the source language, ordered maps
  (\<open>BTreeMap\<close>) as key-sorted association lists, the string operations of the standard library
  that the sources use, saturating counters, and the collections of rewrite rules.

  A \<open>String\<close> of the program is its UTF-8 byte sequence; the model uses \<^typ>\<open>string\<close>,
  whose characters are exactly the 256 byte values, so lengths, indices and the lexicographic
  order agree with the byte-wise ones of the source.
\<close>

section \<open>Collections of rewrite rules\<close>

named_theorems map_laws \<open>what a lookup sees after an update of an ordered map\<close>
named_theorems wf_intros \<open>operations that keep the well-formedness of an ordered map\<close>

section \<open>Results\<close>

datatype ('e, 'a) result = Ok 'a | Err 'e

fun is_ok :: "('e, 'a) result \<Rightarrow> bool" where
  "is_ok (Ok a) = True"
| "is_ok (Err e) = False"

fun and_then :: "('e, 'a) result \<Rightarrow> ('a \<Rightarrow> ('e, 'b) result) \<Rightarrow> ('e, 'b) result" where
  "and_then (Ok a) f = f a"
| "and_then (Err e) f = Err e"

fun map_err :: "('e \<Rightarrow> 'f) \<Rightarrow> ('e, 'a) result \<Rightarrow> ('f, 'a) result" where
  "map_err f (Ok a) = Ok a"
| "map_err f (Err e) = Err (f e)"

definition ok_or :: "'e \<Rightarrow> 'a option \<Rightarrow> ('e, 'a) result" where
  "ok_or e x = (case x of None \<Rightarrow> Err e | Some a \<Rightarrow> Ok a)"

lemma ok_or_simps [simp]: "ok_or e None = Err e" "ok_or e (Some a) = Ok a"
  by (simp_all add: ok_or_def)

lemma and_then_eq_Ok [simp]: "and_then r f = Ok b \<longleftrightarrow> (\<exists>a. r = Ok a \<and> f a = Ok b)"
  by (cases r) auto

lemma and_then_eq_Err: "and_then r f = Err e \<longleftrightarrow> r = Err e \<or> (\<exists>a. r = Ok a \<and> f a = Err e)"
  by (cases r) auto

section \<open>Ordered maps\<close>

text \<open>
  A \<open>BTreeMap\<close> iterates in ascending key order, which decides route precedence at start-up and
  the order of JSON members, so the model keeps the order: a list of bindings with strictly
  ascending keys.
\<close>

type_synonym ('k, 'v) btree = "('k \<times> 'v) list"

definition bt_wf :: "('k::linorder, 'v) btree \<Rightarrow> bool" where
  "bt_wf m \<longleftrightarrow> sorted_wrt (<) (map fst m)"

definition bt_get :: "'k \<Rightarrow> ('k, 'v) btree \<Rightarrow> 'v option" where
  "bt_get k m = map_of m k"

fun bt_insert :: "'k::linorder \<Rightarrow> 'v \<Rightarrow> ('k, 'v) btree \<Rightarrow> ('k, 'v) btree" where
  "bt_insert k v [] = [(k, v)]"
| "bt_insert k v ((k', v') # m) =
     (if k < k' then (k, v) # (k', v') # m
      else if k = k' then (k, v) # m
      else (k', v') # bt_insert k v m)"

definition bt_remove :: "'k \<Rightarrow> ('k, 'v) btree \<Rightarrow> ('k, 'v) btree" where
  "bt_remove k m = filter (\<lambda>b. fst b \<noteq> k) m"

definition bt_keys :: "('k, 'v) btree \<Rightarrow> 'k list" where
  "bt_keys m = map fst m"

definition bt_contains :: "'k \<Rightarrow> ('k, 'v) btree \<Rightarrow> bool" where
  "bt_contains k m \<longleftrightarrow> bt_get k m \<noteq> None"

definition bt_retain :: "('k \<Rightarrow> 'v \<Rightarrow> bool) \<Rightarrow> ('k, 'v) btree \<Rightarrow> ('k, 'v) btree" where
  "bt_retain P m = filter (\<lambda>b. P (fst b) (snd b)) m"

lemma bt_get_Nil [simp]: "bt_get k [] = None"
  by (simp add: bt_get_def)

lemma bt_get_Cons [simp]: "bt_get k (b # m) = (if fst b = k then Some (snd b) else bt_get k m)"
  by (cases b) (simp add: bt_get_def)

lemma bt_get_insert [map_laws]: "bt_get k' (bt_insert k v m) = (if k' = k then Some v else bt_get k' m)"
  by (induction m) (auto simp: bt_get_def)

lemma bt_get_remove [map_laws]: "bt_get k' (bt_remove k m) = (if k' = k then None else bt_get k' m)"
  by (induction m) (auto simp: bt_get_def bt_remove_def)

lemma set_fst_bt_insert: "fst ` set (bt_insert k v m) = insert k (fst ` set m)"
  by (induction k v m rule: bt_insert.induct) (simp_all add: insert_commute)

lemma bt_wf_Nil [simp, wf_intros]: "bt_wf []"
  by (simp add: bt_wf_def)

lemma bt_wf_insert [wf_intros]: "bt_wf m \<Longrightarrow> bt_wf (bt_insert k v m)"
proof (induction m)
  case (Cons b m)
  have "fst ` set (bt_insert k v m) = insert k (fst ` set m)" by (rule set_fst_bt_insert)
  with Cons show ?case by (cases b) (auto simp: bt_wf_def)
qed (simp add: bt_wf_def)

lemma bt_wf_filter [wf_intros]: "bt_wf m \<Longrightarrow> bt_wf (filter P m)"
  by (induction m) (auto simp: bt_wf_def)

lemma bt_wf_remove [wf_intros]: "bt_wf m \<Longrightarrow> bt_wf (bt_remove k m)"
  by (simp add: bt_remove_def bt_wf_filter)

lemma bt_wf_retain [wf_intros]: "bt_wf m \<Longrightarrow> bt_wf (bt_retain P m)"
  by (simp add: bt_retain_def bt_wf_filter)

lemma bt_wf_distinct: "bt_wf m \<Longrightarrow> distinct (bt_keys m)"
  by (induction m) (auto simp: bt_wf_def bt_keys_def)

lemma set_bt_keys: "set (bt_keys m) = {k. bt_get k m \<noteq> None}"
  by (induction m) (auto simp: bt_keys_def bt_get_def)

lemma bt_get_retain [map_laws]:
  assumes "bt_wf m"
  shows "bt_get k (bt_retain P m) = (case bt_get k m of None \<Rightarrow> None | Some v \<Rightarrow> if P k v then Some v else None)"
  using assms
proof (induction m)
  case (Cons b m)
  then have "bt_wf m" and "fst b \<notin> fst ` set m" by (auto simp: bt_wf_def)
  then have "map_of m (fst b) = None" by (simp add: map_of_eq_None_iff)
  with Cons.IH \<open>bt_wf m\<close> show ?case
    by (cases b) (auto simp: bt_get_def bt_retain_def split: option.splits)
qed (simp add: bt_retain_def)

lemma bt_rebuild: "bt_wf m \<Longrightarrow> map (\<lambda>k. (k, the (map_of m k))) (map fst m) = m"
  using bt_wf_distinct[of m] by (auto simp: bt_keys_def intro!: map_idI)

text \<open>Two ordered maps with the same lookups are the same list.\<close>

lemma bt_ext:
  assumes "bt_wf m" "bt_wf m'" "\<And>k. bt_get k m = bt_get k m'"
  shows "m = m'"
proof -
  have keys: "map fst m = map fst m'"
  proof (rule sorted_distinct_set_unique)
    show "sorted (map fst m)" "sorted (map fst m')"
      using assms(1,2) by (simp_all add: bt_wf_def strict_sorted_imp_sorted)
    show "distinct (map fst m)" "distinct (map fst m')"
      using bt_wf_distinct assms(1,2) by (auto simp: bt_keys_def)
    show "set (map fst m) = set (map fst m')"
      using assms(3) set_bt_keys[of m] set_bt_keys[of m'] by (simp add: bt_keys_def)
  qed
  have "map_of m = map_of m'" using assms(3) by (auto simp: bt_get_def)
  moreover have "m = map (\<lambda>k. (k, the (map_of m k))) (map fst m)"
    and "m' = map (\<lambda>k. (k, the (map_of m' k))) (map fst m')"
    using assms(1,2) by (simp_all only: bt_rebuild)
  ultimately show ?thesis using keys by metis
qed

lemma bt_length: "bt_wf m \<Longrightarrow> length m = card {k. bt_get k m \<noteq> None}"
  using distinct_card[OF bt_wf_distinct[of m]] unfolding set_bt_keys by (simp add: bt_keys_def)

lemma bt_length_insert:
  assumes "bt_wf m"
  shows "length (bt_insert k v m) = (if bt_contains k m then length m else Suc (length m))"
proof -
  have eq: "{j. bt_get j (bt_insert k v m) \<noteq> None} = insert k {j. bt_get j m \<noteq> None}"
    by (auto simp: map_laws)
  have "finite {j. bt_get j m \<noteq> None}" unfolding set_bt_keys[symmetric] by simp
  then show ?thesis
    using bt_length[OF assms] bt_length[OF bt_wf_insert[OF assms, of k v]]
    unfolding eq bt_contains_def by (simp add: card_insert_if)
qed

lemma bt_length_remove: "length (bt_remove k m) \<le> length m"
  by (simp add: bt_remove_def)

lemma bt_remove_absent: "bt_get k m = None \<Longrightarrow> bt_remove k m = m"
  by (auto simp: bt_remove_def bt_get_def map_of_eq_None_iff filter_id_conv)

lemma bt_get_eq_Nil: "(\<And>k. bt_get k m = None) \<Longrightarrow> m = []"
  using set_bt_keys[of m] by (simp add: bt_keys_def)

lemma bt_values:
  assumes "bt_wf m"
  shows "list_all (\<lambda>(k, v). P k v) m \<longleftrightarrow> (\<forall>k v. bt_get k m = Some v \<longrightarrow> P k v)"
proof -
  have "distinct (map fst m)" using bt_wf_distinct[OF assms] by (simp add: bt_keys_def)
  then show ?thesis by (auto simp: list_all_iff bt_get_def)
qed

end
