(* ===== verification/Rust_Strings.thy ===== *)
theory Rust_Strings
  imports Prelude
begin

text \<open>
  The operations of the standard library on strings that the sources call: trimming, splitting,
  prefix tests, UTF-8 validation and decoding, ASCII case folding and saturating counters.
  Characters are bytes, so every operation below works on the UTF-8 encoding, as the source's
  does.
\<close>

section \<open>Prefixes, suffixes and splitting\<close>

definition byte :: "char \<Rightarrow> nat" where
  "byte c = of_char c"

fun starts_with_char :: "char \<Rightarrow> string \<Rightarrow> bool" where
  "starts_with_char c [] = False"
| "starts_with_char c (x # xs) = (x = c)"

definition ends_with_char :: "char \<Rightarrow> string \<Rightarrow> bool" where
  "ends_with_char c s = starts_with_char c (rev s)"

fun strip_prefix :: "'a list \<Rightarrow> 'a list \<Rightarrow> 'a list option" where
  "strip_prefix [] s = Some s"
| "strip_prefix (p # ps) [] = None"
| "strip_prefix (p # ps) (x # xs) = (if p = x then strip_prefix ps xs else None)"

definition starts_with :: "'a list \<Rightarrow> 'a list \<Rightarrow> bool" where
  "starts_with p s \<longleftrightarrow> strip_prefix p s \<noteq> None"

definition ends_with :: "'a list \<Rightarrow> 'a list \<Rightarrow> bool" where
  "ends_with p s \<longleftrightarrow> strip_prefix (rev p) (rev s) \<noteq> None"

definition trim_start_matches :: "char \<Rightarrow> string \<Rightarrow> string" where
  "trim_start_matches c s = dropWhile (\<lambda>x. x = c) s"

definition trim_end_matches :: "char \<Rightarrow> string \<Rightarrow> string" where
  "trim_end_matches c s = rev (dropWhile (\<lambda>x. x = c) (rev s))"

definition trim_matches :: "char \<Rightarrow> string \<Rightarrow> string" where
  "trim_matches c s = trim_end_matches c (trim_start_matches c s)"

fun split_char :: "char \<Rightarrow> string \<Rightarrow> string list" where
  "split_char c [] = [[]]"
| "split_char c (x # xs) =
     (if x = c then [] # split_char c xs
      else (case split_char c xs of [] \<Rightarrow> [[x]] | w # ws \<Rightarrow> (x # w) # ws))"

fun split_once :: "char \<Rightarrow> string \<Rightarrow> (string \<times> string) option" where
  "split_once c [] = None"
| "split_once c (x # xs) =
     (if x = c then Some ([], xs)
      else map_option (\<lambda>(a, b). (x # a, b)) (split_once c xs))"

definition rsplit_once :: "char \<Rightarrow> string \<Rightarrow> (string \<times> string) option" where
  "rsplit_once c s = map_option (\<lambda>(a, b). (rev b, rev a)) (split_once c (rev s))"

fun join :: "string \<Rightarrow> string list \<Rightarrow> string" where
  "join sep [] = []"
| "join sep [w] = w"
| "join sep (w # ws) = w @ sep @ join sep ws"

lemma strip_prefix_Some: "strip_prefix p s = Some r \<longleftrightarrow> s = p @ r"
  by (induction p s rule: strip_prefix.induct) auto

lemma starts_with_iff: "starts_with p s \<longleftrightarrow> prefix p s"
  by (auto simp: starts_with_def prefix_def strip_prefix_Some)

lemma ends_with_iff: "ends_with p s \<longleftrightarrow> suffix p s"
  by (auto simp: ends_with_def suffix_to_prefix prefix_def strip_prefix_Some)

lemma starts_with_char_iff: "starts_with_char c s \<longleftrightarrow> (\<exists>t. s = c # t)"
  by (cases s) auto

lemma ends_with_char_iff: "ends_with_char c s \<longleftrightarrow> (\<exists>t. s = t @ [c])"
  by (cases s rule: rev_cases) (auto simp: ends_with_char_def)

lemma ends_with_char_snoc [simp]: "ends_with_char c (s @ [x]) \<longleftrightarrow> x = c"
  by (simp add: ends_with_char_def)

lemma split_char_nonempty [simp]: "split_char c s \<noteq> []"
  by (induction s) (auto split: list.splits)

lemma split_char_no_sep: "w \<in> set (split_char c s) \<Longrightarrow> c \<notin> set w"
  by (induction s arbitrary: w) (auto split: list.splits if_splits)

lemma split_once_Some: "split_once c s = Some (a, b) \<longleftrightarrow> s = a @ c # b \<and> c \<notin> set a"
proof (induction s arbitrary: a)
  case (Cons x xs)
  then show ?case by (cases a) auto
qed simp

lemma split_once_None: "split_once c s = None \<longleftrightarrow> c \<notin> set s"
  by (induction s) auto

lemma rsplit_once_Some: "rsplit_once c s = Some (a, b) \<longleftrightarrow> s = a @ c # b \<and> c \<notin> set b"
proof -
  have "rsplit_once c s = Some (a, b) \<longleftrightarrow> split_once c (rev s) = Some (rev b, rev a)"
    by (auto simp: rsplit_once_def)
  also have "\<dots> \<longleftrightarrow> rev s = rev b @ c # rev a \<and> c \<notin> set b"
    by (simp add: split_once_Some)
  also have "rev s = rev b @ c # rev a \<longleftrightarrow> s = a @ c # b"
    by (metis append.assoc append_Cons append_Nil rev.simps(2) rev_append rev_rev_ident)
  finally show ?thesis .
qed

lemma join_split_char: "join [c] (split_char c s) = s"
proof (induction s)
  case (Cons x xs)
  then show ?case
    by (cases "split_char c xs"; cases "tl (split_char c xs)") auto
qed simp

section \<open>UTF-8\<close>

definition is_cont :: "char \<Rightarrow> bool" where
  "is_cont c \<longleftrightarrow> 0x80 \<le> byte c \<and> byte c \<le> 0xBF"

definition cont_bits :: "char \<Rightarrow> nat" where
  "cont_bits c = byte c mod 0x40"

text \<open>
  The first scalar value of a byte sequence, with its width and the bytes after it; \<open>None\<close>
  where the sequence does not start with a well-formed UTF-8 character. Over-long forms,
  surrogates and values beyond \<open>10FFFF\<close> are rejected, as \<open>str::from_utf8\<close> rejects them.
\<close>

definition second_ok :: "nat \<Rightarrow> char \<Rightarrow> bool" where
  "second_ok b0 c =
     (if b0 = 0xE0 then 0xA0 \<le> byte c \<and> byte c \<le> 0xBF
      else if b0 = 0xED then 0x80 \<le> byte c \<and> byte c \<le> 0x9F
      else if b0 = 0xF0 then 0x90 \<le> byte c \<and> byte c \<le> 0xBF
      else if b0 = 0xF4 then 0x80 \<le> byte c \<and> byte c \<le> 0x8F
      else is_cont c)"

fun utf8_next :: "string \<Rightarrow> (nat \<times> nat \<times> string) option" where
  "utf8_next [] = None"
| "utf8_next (a # s) =
     (let b0 = byte a in
      if b0 < 0x80 then Some (b0, 1, s)
      else if 0xC2 \<le> b0 \<and> b0 \<le> 0xDF then
        (case s of
           b # r \<Rightarrow> if is_cont b then Some ((b0 mod 0x20) * 0x40 + cont_bits b, 2, r) else None
         | _ \<Rightarrow> None)
      else if 0xE0 \<le> b0 \<and> b0 \<le> 0xEF then
        (case s of
           b # c # r \<Rightarrow>
             if second_ok b0 b \<and> is_cont c
             then Some ((b0 mod 0x10) * 0x1000 + cont_bits b * 0x40 + cont_bits c, 3, r) else None
         | _ \<Rightarrow> None)
      else if 0xF0 \<le> b0 \<and> b0 \<le> 0xF4 then
        (case s of
           b # c # d # r \<Rightarrow>
             if second_ok b0 b \<and> is_cont c \<and> is_cont d
             then Some ((b0 mod 0x08) * 0x40000 + cont_bits b * 0x1000 + cont_bits c * 0x40
                        + cont_bits d, 4, r) else None
         | _ \<Rightarrow> None)
      else None)"

lemma utf8_next_split:
  assumes "utf8_next s = Some (c, w, r)"
  shows "s = take w s @ r \<and> length s = w + length r \<and> 0 < w"
  using assms
  by (cases s) (auto simp: Let_def split: if_splits list.splits)

lemma utf8_next_shorter: "utf8_next s = Some (c, w, r) \<Longrightarrow> length r < length s"
  using utf8_next_split by fastforce

function utf8_valid :: "string \<Rightarrow> bool" where
  "utf8_valid s =
     (s = [] \<or> (case utf8_next s of None \<Rightarrow> False | Some (c, w, r) \<Rightarrow> utf8_valid r))"
  by pat_completeness auto
termination
  by (relation "measure length") (auto dest: utf8_next_shorter)

function utf8_chars :: "string \<Rightarrow> (nat \<times> string) list" where
  "utf8_chars s =
     (case utf8_next s of None \<Rightarrow> [] | Some (c, w, r) \<Rightarrow> (c, take w s) # utf8_chars r)"
  by pat_completeness auto
termination
  by (relation "measure length") (auto dest: utf8_next_shorter)

declare utf8_valid.simps [simp del] utf8_chars.simps [simp del] utf8_next.simps(2) [simp del]

lemma utf8_next_ascii: "byte a < 0x80 \<Longrightarrow> utf8_next (a # s) = Some (byte a, 1, s)"
  by (simp add: utf8_next.simps)

lemma utf8_valid_Nil [simp]: "utf8_valid []"
  by (simp add: utf8_valid.simps)

lemma utf8_valid_ascii_Cons [simp]: "byte a < 0x80 \<Longrightarrow> utf8_valid (a # s) = utf8_valid s"
  by (subst utf8_valid.simps) (simp add: utf8_next_ascii)

lemma utf8_valid_ascii: "\<forall>a \<in> set s. byte a < 0x80 \<Longrightarrow> utf8_valid s"
  by (induction s) simp_all

lemma utf8_chars_Nil [simp]: "utf8_chars [] = []"
  by (simp add: utf8_chars.simps)

lemma utf8_chars_ascii_Cons [simp]:
  "byte a < 0x80 \<Longrightarrow> utf8_chars (a # s) = (byte a, [a]) # utf8_chars s"
  by (subst utf8_chars.simps) (simp add: utf8_next_ascii)

lemma utf8_chars_concat: "utf8_valid s \<Longrightarrow> concat (map snd (utf8_chars s)) = s"
proof (induction s rule: utf8_chars.induct)
  case (1 s)
  show ?case
  proof (cases "s = []")
    case False
    with "1.prems" obtain c w r where n: "utf8_next s = Some (c, w, r)" and v: "utf8_valid r"
      by (subst (asm) utf8_valid.simps) (auto split: option.splits)
    from "1.IH"[OF n _ _ v] have "concat (map snd (utf8_chars r)) = r" by simp
    moreover have "utf8_chars s = (c, take w s) # utf8_chars r"
      by (subst utf8_chars.simps) (simp add: n)
    ultimately show ?thesis using utf8_next_split[OF n] by simp
  qed simp
qed

lemma byte_less_256 [simp]: "byte c < 256"
  by (simp add: byte_def)

text \<open>The \<open>White_Space\<close> property of \<open>char::is_whitespace\<close>, and \<open>str::trim\<close>.\<close>

definition is_whitespace :: "nat \<Rightarrow> bool" where
  "is_whitespace c \<longleftrightarrow>
     (9 \<le> c \<and> c \<le> 13) \<or> c \<in> {0x20, 0x85, 0xA0, 0x1680, 0x2028, 0x2029, 0x202F, 0x205F, 0x3000}
     \<or> (0x2000 \<le> c \<and> c \<le> 0x200A)"

definition trim_chars :: "(nat \<times> string) list \<Rightarrow> (nat \<times> string) list" where
  "trim_chars cs =
     rev (dropWhile (\<lambda>x. is_whitespace (fst x)) (rev (dropWhile (\<lambda>x. is_whitespace (fst x)) cs)))"

definition str_trim :: "string \<Rightarrow> string" where
  "str_trim s = concat (map snd (trim_chars (utf8_chars s)))"

definition str_trim_end :: "string \<Rightarrow> string" where
  "str_trim_end s =
     concat (map snd (rev (dropWhile (\<lambda>x. is_whitespace (fst x)) (rev (utf8_chars s)))))"

section \<open>ASCII\<close>

definition is_ascii_digit :: "char \<Rightarrow> bool" where
  "is_ascii_digit c \<longleftrightarrow> 48 \<le> byte c \<and> byte c \<le> 57"

definition is_ascii_alphabetic :: "char \<Rightarrow> bool" where
  "is_ascii_alphabetic c \<longleftrightarrow> 65 \<le> byte c \<and> byte c \<le> 90 \<or> 97 \<le> byte c \<and> byte c \<le> 122"

definition is_ascii_alphanumeric :: "char \<Rightarrow> bool" where
  "is_ascii_alphanumeric c \<longleftrightarrow> is_ascii_alphabetic c \<or> is_ascii_digit c"

definition is_ascii_hexdigit :: "char \<Rightarrow> bool" where
  "is_ascii_hexdigit c \<longleftrightarrow>
     is_ascii_digit c \<or> 97 \<le> byte c \<and> byte c \<le> 102 \<or> 65 \<le> byte c \<and> byte c \<le> 70"

definition to_ascii_lowercase :: "string \<Rightarrow> string" where
  "to_ascii_lowercase s =
     map (\<lambda>c. if 65 \<le> byte c \<and> byte c \<le> 90 then char_of (byte c + 32) else c) s"

definition eq_ignore_ascii_case :: "string \<Rightarrow> string \<Rightarrow> bool" where
  "eq_ignore_ascii_case a b \<longleftrightarrow> to_ascii_lowercase a = to_ascii_lowercase b"

section \<open>Numbers in text\<close>

fun decimal :: "nat \<Rightarrow> string" where
  "decimal n = (if n < 10 then [char_of (48 + n)] else decimal (n div 10) @ [char_of (48 + n mod 10)])"

declare decimal.simps [simp del]

fun digits_value :: "nat \<Rightarrow> string \<Rightarrow> nat option" where
  "digits_value acc [] = Some acc"
| "digits_value acc (c # s) =
     (if is_ascii_digit c then digits_value (acc * 10 + (byte c - 48)) s else None)"

text \<open>
  \<open>str::parse\<close> for an unsigned integer of the given width: an optional plus sign, at least one
  digit, and a value that fits.
\<close>

definition parse_unsigned :: "nat \<Rightarrow> string \<Rightarrow> nat option" where
  "parse_unsigned bits s =
     (let digits = (case s of c # r \<Rightarrow> if c = CHR ''+'' \<and> r \<noteq> [] then r else s | [] \<Rightarrow> s)
      in if digits = [] then None
         else
           (case digits_value 0 digits of
              None \<Rightarrow> None
            | Some n \<Rightarrow> if n < 2 ^ bits then Some n else None))"

lemma digits_value_append:
  "digits_value acc (s @ t) = Option.bind (digits_value acc s) (\<lambda>a. digits_value a t)"
  by (induction acc s rule: digits_value.induct) auto

lemma byte_digit: "d < 10 \<Longrightarrow> byte (char_of (48 + d)) = 48 + d"
  by (simp add: byte_def)

lemma digits_value_decimal: "digits_value 0 (decimal n) = Some n"
proof (induction n rule: decimal.induct)
  case (1 n)
  show ?case
  proof (cases "n < 10")
    case True
    then show ?thesis by (simp add: decimal.simps[of n] is_ascii_digit_def byte_digit)
  next
    case False
    have "byte (char_of (48 + n mod 10)) = 48 + n mod 10" by (simp add: byte_digit)
    then show ?thesis using 1[OF False] False
      by (simp add: decimal.simps[of n] digits_value_append is_ascii_digit_def)
  qed
qed

lemma decimal_nonempty: "decimal n \<noteq> []"
  by (simp add: decimal.simps[of n])

lemma decimal_digits: "c \<in> set (decimal n) \<Longrightarrow> is_ascii_digit c"
proof (induction n rule: decimal.induct)
  case (1 n)
  have "is_ascii_digit (char_of (48 + n mod 10))" "n < 10 \<Longrightarrow> is_ascii_digit (char_of (48 + n))"
    by (simp_all add: is_ascii_digit_def byte_digit)
  then show ?case using 1 by (auto simp: decimal.simps[of n] split: if_splits)
qed

lemma parse_unsigned_decimal: "n < 2 ^ bits \<Longrightarrow> parse_unsigned bits (decimal n) = Some n"
proof -
  assume n: "n < 2 ^ bits"
  have "\<not> is_ascii_digit CHR ''+''" by (simp add: is_ascii_digit_def byte_def)
  then have "CHR ''+'' \<notin> set (decimal n)" using decimal_digits by blast
  then show ?thesis using n decimal_nonempty[of n] digits_value_decimal[of n]
    by (auto simp: parse_unsigned_def Let_def split: list.splits)
qed

section \<open>Counters\<close>

type_synonym u16 = "16 word"
type_synonym u64 = "64 word"
type_synonym usize = "64 word"

definition saturating_add1 :: "usize \<Rightarrow> usize" where
  "saturating_add1 n = (if n = - 1 then n else n + 1)"

definition saturating_sub1 :: "usize \<Rightarrow> usize" where
  "saturating_sub1 n = (if n = 0 then 0 else n - 1)"

lemma saturating_sub1_add1 [simp]: "n \<noteq> - 1 \<Longrightarrow> saturating_sub1 (saturating_add1 n) = n"
  by (auto simp: saturating_sub1_def saturating_add1_def eq_neg_iff_add_eq_0)

lemma not_minus_one: "unat n < 2 ^ 64 - 1 \<Longrightarrow> (n :: usize) \<noteq> - 1"
  by (auto simp: unsigned_minus_1_eq_mask mask_eq_exp_minus_1)

lemma unat_saturating_add1:
  assumes "unat n < 2 ^ 64 - 1"
  shows "unat (saturating_add1 n) = Suc (unat n)"
proof -
  have "1 + n \<noteq> 0"
    using not_minus_one[OF assms] by (simp add: eq_neg_iff_add_eq_0 add.commute)
  then show ?thesis
    using not_minus_one[OF assms] unatSuc[of n] by (simp add: saturating_add1_def add.commute)
qed

lemma unat_saturating_sub1: "unat (saturating_sub1 n) = unat n - 1"
proof (cases "n = 0")
  case False
  then have "1 \<le> n" by (simp add: word_le_nat_alt unat_gt_0 Suc_le_eq)
  then show ?thesis using False by (simp add: saturating_sub1_def unat_sub)
qed (simp add: saturating_sub1_def)

lemma word_succ_greater:
  assumes "(n :: u64) \<noteq> - 1"
  shows "n < n + 1"
proof -
  have "1 + n \<noteq> 0" using assms by (simp add: eq_neg_iff_add_eq_0 add.commute)
  then have "unat (n + 1) = Suc (unat n)" using unatSuc[of n] by (simp add: add.commute)
  then show ?thesis by (simp add: word_less_nat_alt)
qed

end
