(* ===== verification/Route.thy ===== *)
theory Route
  imports Rust_Strings
begin

text \<open>
  \<open>src/src/route.rs\<close>: normalized route keys and the data kept for a route. JSON values are the
  \<open>serde_json::Value\<close> tree; an object is an ordered map, because the program builds
  \<open>serde_json\<close> without insertion-order maps. A timestamp (\<open>DateTime<Utc>\<close>) is the number of
  nanoseconds since the epoch.
\<close>

section \<open>Values\<close>

datatype json =
    JNull
  | JBool bool
  | JNumber string
  | JString string
  | JArray "json list"
  | JObject "(string \<times> json) list"

type_synonym json_map = "(string, json) btree"
type_synonym timestamp = int

section \<open>Route keys\<close>

datatype route_key = RouteKey (as_str: string)

instantiation route_key :: linorder
begin

definition less_eq_route_key :: "route_key \<Rightarrow> route_key \<Rightarrow> bool" where
  "less_eq_route_key a b \<longleftrightarrow> as_str a \<le> as_str b"

definition less_route_key :: "route_key \<Rightarrow> route_key \<Rightarrow> bool" where
  "less_route_key a b \<longleftrightarrow> as_str a < as_str b"

instance
  by standard (auto simp: less_eq_route_key_def less_route_key_def route_key.expand)

end

definition normalize :: "string \<Rightarrow> route_key" where
  "normalize input =
     (let normalized = (if input = [] \<or> \<not> starts_with_char CHR ''/'' input
                        then CHR ''/'' # input else input);
          cleaned = (if 1 < length normalized \<and> ends_with_char CHR ''/'' normalized
                     then butlast normalized else normalized)
      in RouteKey cleaned)"

definition route_key_parse :: "string \<Rightarrow> route_key" where
  "route_key_parse input = normalize input"

definition key_wf :: "route_key \<Rightarrow> bool" where
  "key_wf k \<longleftrightarrow> starts_with_char CHR ''/'' (as_str k)"

lemma normalize_wf [simp, intro]: "key_wf (normalize s)"
proof -
  define n where "n = (if s = [] \<or> \<not> starts_with_char CHR ''/'' s then CHR ''/'' # s else s)"
  have "starts_with_char CHR ''/'' n" by (simp add: n_def)
  then obtain t where t: "n = CHR ''/'' # t" by (auto simp: starts_with_char_iff)
  then show ?thesis
    by (auto simp: normalize_def key_wf_def Let_def n_def[symmetric])
qed

lemma normalize_root [simp]: "normalize [] = RouteKey ''/''" "normalize ''/'' = RouteKey ''/''"
  by (simp_all add: normalize_def ends_with_char_def)

text \<open>
  A key that already is in normal form and does not end in a slash is a fixed point; one that
  still ends in a slash comes back when that slash is written twice.
\<close>

lemma normalize_fixed:
  assumes "key_wf k" "\<not> (1 < length (as_str k) \<and> ends_with_char CHR ''/'' (as_str k))"
  shows "normalize (as_str k) = k"
  using assms by (cases k) (auto simp: normalize_def key_wf_def Let_def)

lemma normalize_extra_slash:
  assumes "key_wf k"
  shows "normalize (as_str k @ ''/'') = k"
  using assms by (cases k) (auto simp: normalize_def key_wf_def Let_def starts_with_char_iff)

section \<open>Route data\<close>

record route_data =
  target :: string
  last_activity :: timestamp
  extra :: json_map

text \<open>
  Serialization: the two fixed members, then the flattened extension members, inserted one after
  the other into a JSON object, so that a later member replaces an earlier one of the same name.
  The rendering of a timestamp (RFC 3339 with milliseconds) belongs to the date library and is a
  parameter.
\<close>

definition serialize_route :: "(timestamp \<Rightarrow> string) \<Rightarrow> route_data \<Rightarrow> json_map" where
  "serialize_route chp_date d =
     fold (\<lambda>(k, v) m. bt_insert k v m) (extra d)
       (bt_insert ''last_activity'' (JString (chp_date (last_activity d)))
         (bt_insert ''target'' (JString (target d)) []))"

text \<open>Extension members that do not collide with the two fixed ones.\<close>

definition clean_extra :: "json_map \<Rightarrow> bool" where
  "clean_extra x \<longleftrightarrow> \<not> bt_contains ''target'' x \<and> \<not> bt_contains ''last_activity'' x"

definition extra_ok :: "json_map \<Rightarrow> bool" where
  "extra_ok x \<longleftrightarrow> bt_wf x \<and> clean_extra x"

lemma bt_get_fold_insert:
  assumes "bt_wf x"
  shows "bt_get k (fold (\<lambda>(k, v) m. bt_insert k v m) x m)
         = (case bt_get k x of Some v \<Rightarrow> Some v | None \<Rightarrow> bt_get k m)"
  using assms
proof (induction x arbitrary: m)
  case (Cons b x)
  then have wf: "bt_wf x" and nin: "fst b \<notin> fst ` set x" by (auto simp: bt_wf_def)
  then have "bt_get (fst b) x = None" by (simp add: bt_get_def map_of_eq_None_iff)
  with Cons.IH[OF wf] show ?case
    by (cases b) (auto simp: map_laws split: option.splits)
qed simp

lemma serialize_route_get:
  assumes "bt_wf (extra d)" "clean_extra (extra d)"
  shows "bt_get k (serialize_route chp_date d) =
    (if k = ''target'' then Some (JString (target d))
     else if k = ''last_activity'' then Some (JString (chp_date (last_activity d)))
     else bt_get k (extra d))"
proof -
  have "bt_get k (serialize_route chp_date d) =
    (case bt_get k (extra d) of Some v \<Rightarrow> Some v
     | None \<Rightarrow> if k = ''last_activity'' then Some (JString (chp_date (last_activity d)))
               else if k = ''target'' then Some (JString (target d)) else None)"
    using assms(1) by (simp only: serialize_route_def bt_get_fold_insert bt_get_insert bt_get_Nil)
  then show ?thesis
    using assms(2) by (cases "bt_get k (extra d)") (auto simp: clean_extra_def bt_contains_def)
qed

text \<open>
  Deserialization (derived in the source): the two fixed members with their types, everything else
  flattened into the extension members. Parsing a timestamp is a parameter.
\<close>

fun deserialize_route :: "(string \<Rightarrow> timestamp option) \<Rightarrow> json \<Rightarrow> route_data option" where
  "deserialize_route parse_date (JObject m) =
     (case (bt_get ''target'' m, bt_get ''last_activity'' m) of
        (Some (JString t), Some (JString a)) \<Rightarrow>
          (case parse_date a of
             None \<Rightarrow> None
           | Some at \<Rightarrow> Some \<lparr>target = t, last_activity = at,
                          extra = bt_remove ''last_activity'' (bt_remove ''target'' m)\<rparr>)
      | _ \<Rightarrow> None)"
| "deserialize_route parse_date v = None"

lemma bt_wf_fold_insert: "bt_wf m \<Longrightarrow> bt_wf (fold (\<lambda>(k, v) m. bt_insert k v m) x m)"
  by (induction x arbitrary: m) (auto simp: wf_intros)

lemma serialize_route_wf: "bt_wf (serialize_route chp_date d)"
  unfolding serialize_route_def by (intro bt_wf_fold_insert bt_wf_insert bt_wf_Nil)

text \<open>
  Rewriting the timestamp of a serialized route with another rendering, as the persistent
  backends do, and reading it back gives the route.
\<close>

lemma deserialize_serialize:
  assumes "extra_ok (extra d)" "parse_date (render (last_activity d)) = Some (last_activity d)"
  shows "deserialize_route parse_date
           (JObject (bt_insert ''last_activity'' (JString (render (last_activity d))) (serialize_route chp_date d)))
         = Some d"
proof -
  let ?m = "bt_insert ''last_activity'' (JString (render (last_activity d))) (serialize_route chp_date d)"
  have x: "bt_wf (extra d)" "clean_extra (extra d)" using assms(1) by (simp_all add: extra_ok_def)
  have get: "bt_get k ?m = (if k = ''last_activity'' then Some (JString (render (last_activity d)))
      else if k = ''target'' then Some (JString (target d)) else bt_get k (extra d))" for k
    by (simp only: bt_get_insert serialize_route_get[OF x]) simp
  have "bt_remove ''last_activity'' (bt_remove ''target'' ?m) = extra d"
  proof (rule bt_ext)
    show "bt_wf (bt_remove ''last_activity'' (bt_remove ''target'' ?m))"
      by (intro wf_intros serialize_route_wf)
    show "bt_wf (extra d)" by (rule x)
    show "bt_get k (bt_remove ''last_activity'' (bt_remove ''target'' ?m)) = bt_get k (extra d)" for k
      using x(2) unfolding bt_get_remove get by (auto simp: clean_extra_def bt_contains_def)
  qed
  moreover have "bt_get ''target'' ?m = Some (JString (target d))"
    "bt_get ''last_activity'' ?m = Some (JString (render (last_activity d)))"
    unfolding get by simp_all
  ultimately show ?thesis using assms(2) by simp
qed

end
