(* ===== verification/Store.thy ===== *)
theory Store
  imports Route
begin

text \<open>
  \<open>src/src/store/mod.rs\<close>: the error type of the persistence backends, the activity floor
  that a backend samples inside its commit, and the \<open>Store\<close> trait. A trait object is a
  record of operations on a backend state; an operation returns a result and the new state, or
  panics. Wall-clock readings that an operation makes are arguments.

  The locale \<open>route_store\<close> is the contract documented on the trait: an ordinary error leaves
  the backend unchanged, and success commits exactly the record that is returned.
\<close>

section \<open>Errors and outcomes\<close>

datatype store_error =
    Message string
  | Backend string
  | Indeterminate string
  | CorruptData string string

definition store_error_message :: "string \<Rightarrow> store_error" where
  "store_error_message m = Message m"

fun is_indeterminate_error :: "store_error \<Rightarrow> bool" where
  "is_indeterminate_error (Indeterminate op) = True"
| "is_indeterminate_error e = False"

datatype 'a call = Ret "(store_error, 'a) result" | Panic

section \<open>The debug-only frozen clock\<close>

definition differential_fixed_now ::
  "bool \<Rightarrow> (string \<Rightarrow> string option) \<Rightarrow> (string \<Rightarrow> timestamp option) \<Rightarrow> timestamp option" where
  "differential_fixed_now debug_assertions env_var parse_from_rfc3339 =
     (if debug_assertions then
        (case env_var ''PINGORA_CHP_DIFFERENTIAL_FIXED_NOW'' of
           Some value \<Rightarrow>
             (case parse_from_rfc3339 value of Some t \<Rightarrow> Some t | None \<Rightarrow> None)
         | None \<Rightarrow> None)
      else None)"

section \<open>The activity floor\<close>

text \<open>
  The closure inside an \<open>ActivityFloor\<close> may return a newer timestamp on every call, because
  it reads the live route snapshot. The model is the sequence of the values it returns.
\<close>

type_synonym activity_floor = "nat \<Rightarrow> timestamp option"

definition floor_fixed :: "timestamp option \<Rightarrow> activity_floor" where
  "floor_fixed at = (\<lambda>_. at)"

definition floor_dynamic :: "(nat \<Rightarrow> timestamp option) \<Rightarrow> activity_floor" where
  "floor_dynamic current = current"

definition floor_current :: "activity_floor \<Rightarrow> nat \<Rightarrow> timestamp option" where
  "floor_current fl n = fl n"

definition raise_to :: "timestamp option \<Rightarrow> timestamp \<Rightarrow> timestamp" where
  "raise_to floor at = (case floor of None \<Rightarrow> at | Some f \<Rightarrow> max at f)"

lemma raise_to_ge [simp]: "at \<le> raise_to fl at"
  by (cases fl) (auto simp: raise_to_def)

lemma raise_to_floor: "fl = Some f \<Longrightarrow> f \<le> raise_to fl at"
  by (simp add: raise_to_def)

section \<open>The trait\<close>

record 's store_ops =
  store_snapshot :: "'s \<Rightarrow> (route_key, route_data) btree call \<times> 's"
  store_add :: "timestamp \<Rightarrow> route_key \<Rightarrow> string \<Rightarrow> json_map \<Rightarrow> activity_floor \<Rightarrow> 's
                \<Rightarrow> route_data call \<times> 's"
  store_put :: "route_key \<Rightarrow> route_data \<Rightarrow> 's \<Rightarrow> unit call \<times> 's"
  store_put_preserving_activity ::
    "route_key \<Rightarrow> route_data \<Rightarrow> activity_floor \<Rightarrow> 's \<Rightarrow> route_data call \<times> 's"
  store_update_activity :: "route_key \<Rightarrow> timestamp \<Rightarrow> 's \<Rightarrow> unit call \<times> 's"
  store_delete :: "route_key \<Rightarrow> 's \<Rightarrow> route_data option call \<times> 's"

definition ordinary :: "store_error \<Rightarrow> bool" where
  "ordinary e \<longleftrightarrow> \<not> is_indeterminate_error e"

definition touch :: "timestamp \<Rightarrow> route_data \<Rightarrow> route_data" where
  "touch at r = r\<lparr>last_activity := at\<rparr>"

lemma touch_simps [simp]:
  "target (touch at r) = target r" "extra (touch at r) = extra r" "last_activity (touch at r) = at"
  by (simp_all add: touch_def)

locale route_store =
  fixes ops :: "'s store_ops"
    and routes_of :: "'s \<Rightarrow> route_key \<Rightarrow> route_data option"
    and ready :: "'s \<Rightarrow> bool"
  assumes snapshot_ok:
      "ready s \<Longrightarrow> store_snapshot ops s = (Ret (Ok m), s') \<Longrightarrow>
       bt_wf m \<and> (\<forall>k. bt_get k m = routes_of s k) \<and> routes_of s' = routes_of s \<and> ready s'"
    and add_ok:
      "ready s \<Longrightarrow> key_wf k \<Longrightarrow> extra_ok x \<Longrightarrow> store_add ops now k t x fl s = (Ret (Ok d), s') \<Longrightarrow>
       routes_of s' = (routes_of s)(k \<mapsto> d) \<and> target d = t \<and> extra d = x \<and> ready s'"
    and add_err:
      "ready s \<Longrightarrow> store_add ops now k t x fl s = (Ret (Err e), s') \<Longrightarrow> ordinary e \<Longrightarrow>
       routes_of s' = routes_of s \<and> ready s'"
    and put_ok:
      "ready s \<Longrightarrow> key_wf k \<Longrightarrow> extra_ok (extra r) \<Longrightarrow>
       store_put_preserving_activity ops k r fl s = (Ret (Ok d), s') \<Longrightarrow>
       routes_of s' = (routes_of s)(k \<mapsto> d) \<and> target d = target r \<and> extra d = extra r \<and> ready s'"
    and put_err:
      "ready s \<Longrightarrow> store_put_preserving_activity ops k r fl s = (Ret (Err e), s') \<Longrightarrow> ordinary e \<Longrightarrow>
       routes_of s' = routes_of s \<and> ready s'"
    and update_ok:
      "ready s \<Longrightarrow> key_wf k \<Longrightarrow> store_update_activity ops k at s = (Ret (Ok u), s') \<Longrightarrow>
       routes_of s' = (routes_of s)(k := map_option (touch at) (routes_of s k)) \<and> ready s'"
    and update_err:
      "ready s \<Longrightarrow> store_update_activity ops k at s = (Ret (Err e), s') \<Longrightarrow> ordinary e \<Longrightarrow>
       routes_of s' = routes_of s \<and> ready s'"
    and delete_ok:
      "ready s \<Longrightarrow> key_wf k \<Longrightarrow> store_delete ops k s = (Ret (Ok old), s') \<Longrightarrow>
       routes_of s' = (routes_of s)(k := None) \<and> old = routes_of s k \<and> ready s'"
    and delete_err:
      "ready s \<Longrightarrow> store_delete ops k s = (Ret (Err e), s') \<Longrightarrow> ordinary e \<Longrightarrow>
       routes_of s' = routes_of s \<and> ready s'"

text \<open>
  The replacement contract: the activity floor is sampled inside the commit, so the committed
  record is at least as recent as one of the sampled values.
\<close>

locale floor_store = route_store +
  assumes add_floor:
      "ready s \<Longrightarrow> key_wf k \<Longrightarrow> extra_ok x \<Longrightarrow> store_add ops now k t x fl s = (Ret (Ok d), s') \<Longrightarrow>
       \<exists>n. \<forall>f. fl n = Some f \<longrightarrow> f \<le> last_activity d"
    and put_floor:
      "ready s \<Longrightarrow> key_wf k \<Longrightarrow> extra_ok (extra r) \<Longrightarrow>
       store_put_preserving_activity ops k r fl s = (Ret (Ok d), s') \<Longrightarrow>
       \<exists>n. \<forall>f. fl n = Some f \<longrightarrow> f \<le> last_activity d"
begin

text \<open>A constant floor is therefore a lower bound of the committed activity.\<close>

lemma add_fixed_floor:
  assumes "ready s" "key_wf k" "extra_ok x"
    and "store_add ops now k t x (floor_fixed (Some f)) s = (Ret (Ok d), s')"
  shows "f \<le> last_activity d"
  using add_floor[OF assms] by (simp add: floor_fixed_def)

lemma put_fixed_floor:
  assumes "ready s" "key_wf k" "extra_ok (extra r)"
    and "store_put_preserving_activity ops k r (floor_fixed (Some f)) s = (Ret (Ok d), s')"
  shows "f \<le> last_activity d"
  using put_floor[OF assms] by (simp add: floor_fixed_def)

end

end
