(* ===== verification/Memory_Store.thy ===== *)
theory Memory_Store
  imports Store
begin

text \<open>
  \<open>src/src/store/memory.rs\<close>: the process-local backend. Its state is the map under the
  \<open>RwLock\<close>; every operation runs under that lock, so each is one step. The record
  \<open>memory_ops\<close> is the implementation of the trait and satisfies its contract.
\<close>

type_synonym memory_store = "(route_key, route_data) btree"

definition memory_new :: memory_store where
  "memory_new = []"

definition memory_snapshot :: "memory_store \<Rightarrow> (route_key, route_data) btree call \<times> memory_store" where
  "memory_snapshot routes = (Ret (Ok routes), routes)"

definition memory_add ::
  "timestamp option \<Rightarrow> timestamp \<Rightarrow> route_key \<Rightarrow> string \<Rightarrow> json_map \<Rightarrow> activity_floor
   \<Rightarrow> memory_store \<Rightarrow> route_data call \<times> memory_store" where
  "memory_add fixed_now utc_now key tgt x activity_floor routes =
     (let now = (case fixed_now of Some t \<Rightarrow> t | None \<Rightarrow> utc_now);
          data = \<lparr>target = tgt,
                  last_activity = (case floor_current activity_floor 0 of
                                     None \<Rightarrow> now | Some floor \<Rightarrow> max now floor),
                  extra = x\<rparr>
      in (Ret (Ok data), bt_insert key data routes))"

definition memory_put :: "route_key \<Rightarrow> route_data \<Rightarrow> memory_store \<Rightarrow> unit call \<times> memory_store" where
  "memory_put key data routes = (Ret (Ok ()), bt_insert key data routes)"

definition memory_put_preserving_activity ::
  "route_key \<Rightarrow> route_data \<Rightarrow> activity_floor \<Rightarrow> memory_store \<Rightarrow> route_data call \<times> memory_store" where
  "memory_put_preserving_activity key data activity_floor routes =
     (let data = (case floor_current activity_floor 0 of
                    Some floor \<Rightarrow> data\<lparr>last_activity := max (last_activity data) floor\<rparr>
                  | None \<Rightarrow> data)
      in (Ret (Ok data), bt_insert key data routes))"

definition memory_update_activity ::
  "route_key \<Rightarrow> timestamp \<Rightarrow> memory_store \<Rightarrow> unit call \<times> memory_store" where
  "memory_update_activity key at routes =
     (Ret (Ok ()),
      case bt_get key routes of
        Some route \<Rightarrow> bt_insert key (route\<lparr>last_activity := at\<rparr>) routes
      | None \<Rightarrow> routes)"

definition memory_delete ::
  "route_key \<Rightarrow> memory_store \<Rightarrow> route_data option call \<times> memory_store" where
  "memory_delete key routes = (Ret (Ok (bt_get key routes)), bt_remove key routes)"

definition memory_ops :: "timestamp option \<Rightarrow> memory_store store_ops" where
  "memory_ops fixed_now =
     \<lparr>store_snapshot = memory_snapshot,
      store_add = memory_add fixed_now,
      store_put = memory_put,
      store_put_preserving_activity = memory_put_preserving_activity,
      store_update_activity = memory_update_activity,
      store_delete = memory_delete\<rparr>"

lemmas memory_defs =
  memory_ops_def memory_snapshot_def memory_add_def memory_put_def
  memory_put_preserving_activity_def memory_update_activity_def memory_delete_def

text \<open>The backend satisfies the trait's contract, with the map itself as its contents.\<close>

interpretation mem: floor_store "memory_ops fixed_now" "\<lambda>s k. bt_get k s" bt_wf
  for fixed_now
proof (unfold_locales, goal_cases)
  case 1
  then show ?case by (auto simp: memory_defs)
next
  case 2
  then show ?case by (auto simp: memory_defs Let_def map_laws fun_eq_iff wf_intros)
next
  case 3
  then show ?case by (auto simp: memory_defs Let_def)
next
  case 4
  then show ?case
    by (auto simp: memory_defs Let_def map_laws fun_eq_iff wf_intros split: option.splits)
next
  case 5
  then show ?case by (auto simp: memory_defs Let_def)
next
  case 6
  then show ?case
    by (auto simp: memory_defs map_laws fun_eq_iff wf_intros touch_def split: option.splits)
next
  case 7
  then show ?case by (auto simp: memory_defs)
next
  case 8
  then show ?case by (auto simp: memory_defs map_laws fun_eq_iff wf_intros)
next
  case 9
  then show ?case by (auto simp: memory_defs)
next
  case 10
  then show ?case by (auto simp: memory_defs Let_def floor_current_def intro: exI[of _ 0])
next
  case 11
  then show ?case
    by (auto simp: memory_defs Let_def floor_current_def split: option.splits intro!: exI[of _ 0])
qed

text \<open>No operation of this backend fails or panics.\<close>

lemma memory_total:
  "\<exists>d s'. store_add (memory_ops fx) now k t x fl s = (Ret (Ok d), s')"
  "\<exists>d s'. store_put_preserving_activity (memory_ops fx) k r fl s = (Ret (Ok d), s')"
  "\<exists>s'. store_update_activity (memory_ops fx) k at s = (Ret (Ok ()), s')"
  "\<exists>d s'. store_delete (memory_ops fx) k s = (Ret (Ok d), s')"
  by (auto simp: memory_defs Let_def)

end
