(* ===== verification/Route_Table.thy ===== *)
theory Route_Table
  imports Route
begin

text \<open>
  The immutable part of \<open>src/src/route_table.rs\<close>: the ordered route map, the segment trie built
  from it, and the longest-prefix resolution of a request path.

  Several keys can have the same segments (\<open>/a\<close> and \<open>//a\<close>, for instance), and then the
  most recently written one wins; the order of the writes is part of the state.
\<close>

section \<open>Ordered routes\<close>

record ordered_routes =
  by_key :: "(route_key, route_data) btree"
  mutation_order :: "route_key list"

definition from_sorted :: "(route_key, route_data) btree \<Rightarrow> ordered_routes" where
  "from_sorted m = \<lparr>by_key = m, mutation_order = bt_keys m\<rparr>"

definition or_replace :: "route_key \<Rightarrow> route_data \<Rightarrow> ordered_routes \<Rightarrow> ordered_routes" where
  "or_replace key data r =
     r\<lparr>mutation_order := filter (\<lambda>existing. existing \<noteq> key) (mutation_order r) @ [key],
       by_key := bt_insert key data (by_key r)\<rparr>"

definition replace_preserving_activity ::
  "route_key \<Rightarrow> route_data \<Rightarrow> ordered_routes \<Rightarrow> ordered_routes" where
  "replace_preserving_activity key data r =
     (let data = (case bt_get key (by_key r) of
                    Some existing \<Rightarrow>
                      data\<lparr>last_activity := max (last_activity data) (last_activity existing)\<rparr>
                  | None \<Rightarrow> data)
      in or_replace key data r)"

definition or_update_activity :: "route_key \<Rightarrow> timestamp \<Rightarrow> ordered_routes \<Rightarrow> ordered_routes" where
  "or_update_activity key at r =
     (case bt_get key (by_key r) of
        Some route \<Rightarrow>
          r\<lparr>by_key := bt_insert key (route\<lparr>last_activity := max (last_activity route) at\<rparr>) (by_key r)\<rparr>
      | None \<Rightarrow> r)"

definition or_remove :: "route_key \<Rightarrow> ordered_routes \<Rightarrow> ordered_routes" where
  "or_remove key r =
     r\<lparr>by_key := bt_remove key (by_key r),
       mutation_order := filter (\<lambda>existing. existing \<noteq> key) (mutation_order r)\<rparr>"

section \<open>The segment trie\<close>

record route_match =
  match_key :: route_key
  match_data :: route_data

datatype node = Node (children: "(string \<times> node) list") (node_route: "route_match option")

definition node_default :: node where
  "node_default = Node [] None"

definition segments :: "string \<Rightarrow> string list" where
  "segments path =
     (let path = trim_matches CHR ''/'' path
      in filter (\<lambda>_. path \<noteq> []) (split_char CHR ''/'' path))"

fun node_set :: "string list \<Rightarrow> route_match \<Rightarrow> node \<Rightarrow> node" where
  "node_set [] m (Node cs r) = Node cs (Some m)"
| "node_set (s # ss) m (Node cs r) =
     Node (bt_insert s (node_set ss m (case bt_get s cs of Some c \<Rightarrow> c | None \<Rightarrow> node_default)) cs) r"

record route_snapshot =
  snap_root :: node
  snap_routes :: ordered_routes

definition index_step ::
  "(route_key, route_data) btree \<Rightarrow> route_key \<Rightarrow> node \<Rightarrow> node" where
  "index_step m key root =
     (case bt_get key m of
        None \<Rightarrow> root
      | Some data \<Rightarrow> node_set (segments (as_str key)) \<lparr>match_key = key, match_data = data\<rparr> root)"

definition from_ordered_routes :: "ordered_routes \<Rightarrow> route_snapshot" where
  "from_ordered_routes r =
     \<lparr>snap_root = fold (index_step (by_key r)) (mutation_order r) node_default, snap_routes = r\<rparr>"

definition from_routes :: "(route_key, route_data) btree \<Rightarrow> route_snapshot" where
  "from_routes m = from_ordered_routes (from_sorted m)"

fun resolve_loop :: "node \<Rightarrow> route_match option \<Rightarrow> string list \<Rightarrow> route_match option" where
  "resolve_loop n matched [] = matched"
| "resolve_loop n matched (s # ss) =
     (case bt_get s (children n) of
        None \<Rightarrow> matched
      | Some child \<Rightarrow>
          resolve_loop child (if node_route child \<noteq> None then node_route child else matched) ss)"

definition snapshot_resolve :: "route_snapshot \<Rightarrow> string \<Rightarrow> route_match option" where
  "snapshot_resolve s request_path =
     resolve_loop (snap_root s) (node_route (snap_root s)) (segments request_path)"

section \<open>Invariant of the ordered routes\<close>

definition ordered_wf :: "ordered_routes \<Rightarrow> bool" where
  "ordered_wf r \<longleftrightarrow> bt_wf (by_key r) \<and> distinct (mutation_order r)
     \<and> set (mutation_order r) = set (bt_keys (by_key r))"

definition route_of :: "ordered_routes \<Rightarrow> route_key \<Rightarrow> route_data option" where
  "route_of r k = bt_get k (by_key r)"

lemma ordered_wf_from_sorted: "bt_wf m \<Longrightarrow> ordered_wf (from_sorted m)"
  by (simp add: ordered_wf_def from_sorted_def bt_wf_distinct)

lemma ordered_wf_replace: "ordered_wf r \<Longrightarrow> ordered_wf (or_replace k d r)"
  by (auto simp: ordered_wf_def or_replace_def set_bt_keys map_laws wf_intros)

lemma ordered_wf_replace_preserving:
  "ordered_wf r \<Longrightarrow> ordered_wf (replace_preserving_activity k d r)"
  by (simp add: replace_preserving_activity_def Let_def ordered_wf_replace)

lemma ordered_wf_update: "ordered_wf r \<Longrightarrow> ordered_wf (or_update_activity k at r)"
  by (auto simp: ordered_wf_def or_update_activity_def set_bt_keys map_laws wf_intros
      split: option.splits)

lemma ordered_wf_remove: "ordered_wf r \<Longrightarrow> ordered_wf (or_remove k r)"
  by (auto simp: ordered_wf_def or_remove_def set_bt_keys map_laws wf_intros)

lemmas ordered_wf_ops =
  ordered_wf_from_sorted ordered_wf_replace ordered_wf_replace_preserving ordered_wf_update
  ordered_wf_remove

lemma route_of_from_sorted [simp]: "route_of (from_sorted m) k = bt_get k m"
  by (simp add: route_of_def from_sorted_def)

lemma route_of_replace_preserving:
  "route_of (replace_preserving_activity k d r) k' =
     (if k' = k
      then Some (d\<lparr>last_activity := (case route_of r k of None \<Rightarrow> last_activity d
                   | Some old \<Rightarrow> max (last_activity d) (last_activity old))\<rparr>)
      else route_of r k')"
  by (auto simp: route_of_def replace_preserving_activity_def or_replace_def Let_def map_laws
      split: option.splits)

lemma route_of_update:
  "route_of (or_update_activity k at r) k' =
     (if k' = k then map_option (\<lambda>d. d\<lparr>last_activity := max (last_activity d) at\<rparr>) (route_of r k)
      else route_of r k')"
  by (auto simp: route_of_def or_update_activity_def map_laws split: option.splits)

lemma route_of_remove: "route_of (or_remove k r) k' = (if k' = k then None else route_of r k')"
  by (simp add: route_of_def or_remove_def map_laws)

lemmas route_of_ops = route_of_replace_preserving route_of_update route_of_remove

lemma ordered_wf_mem: "ordered_wf r \<Longrightarrow> k \<in> set (mutation_order r) \<longleftrightarrow> route_of r k \<noteq> None"
  by (simp add: ordered_wf_def set_bt_keys route_of_def)

section \<open>Longest-prefix lookup\<close>

text \<open>
  The specification of a walk: among the prefixes of the query that carry a value, the longest
  one decides.
\<close>

fun longest_match :: "('a list \<Rightarrow> 'm option) \<Rightarrow> 'a list \<Rightarrow> 'm option" where
  "longest_match f [] = f []"
| "longest_match f (x # xs) =
     (case longest_match (\<lambda>p. f (x # p)) xs of Some m \<Rightarrow> Some m | None \<Rightarrow> f [])"

lemma longest_match_None: "longest_match f q = None \<longleftrightarrow> (\<forall>p. prefix p q \<longrightarrow> f p = None)"
proof (induction q arbitrary: f)
  case (Cons x xs)
  have "longest_match f (x # xs) = None \<longleftrightarrow>
      longest_match (\<lambda>p. f (x # p)) xs = None \<and> f [] = None"
    by (simp split: option.splits)
  also have "\<dots> \<longleftrightarrow> (\<forall>p. prefix p (x # xs) \<longrightarrow> f p = None)"
    unfolding Cons.IH by (auto simp: prefix_Cons)
  finally show ?case .
qed simp

lemma longest_match_SomeD:
  assumes "longest_match f q = Some m"
  obtains p where "prefix p q" "f p = Some m"
    "\<And>p'. prefix p' q \<Longrightarrow> f p' \<noteq> None \<Longrightarrow> length p' \<le> length p"
proof -
  have "\<exists>p. prefix p q \<and> f p = Some m \<and> (\<forall>p'. prefix p' q \<longrightarrow> f p' \<noteq> None \<longrightarrow> length p' \<le> length p)"
    using assms
  proof (induction q arbitrary: f)
    case Nil
    then show ?case by auto
  next
    case (Cons x xs)
    show ?case
    proof (cases "longest_match (\<lambda>p. f (x # p)) xs")
      case None
      then have "\<forall>p. prefix p xs \<longrightarrow> f (x # p) = None" by (simp add: longest_match_None)
      moreover have "f [] = Some m" using Cons.prems None by simp
      ultimately show ?thesis by (intro exI[of _ "[]"]) (auto simp: prefix_Cons)
    next
      case (Some m')
      then have "longest_match (\<lambda>p. f (x # p)) xs = Some m" using Cons.prems by simp
      from Cons.IH[OF this] obtain p where "prefix p xs" "f (x # p) = Some m"
        "\<forall>p'. prefix p' xs \<longrightarrow> f (x # p') \<noteq> None \<longrightarrow> length p' \<le> length p" by blast
      then show ?thesis by (intro exI[of _ "x # p"]) (auto simp: prefix_Cons)
    qed
  qed
  then show thesis using that by blast
qed

lemma longest_match_SomeI:
  assumes "prefix p q" "f p = Some m" "\<And>p'. prefix p' q \<Longrightarrow> f p' \<noteq> None \<Longrightarrow> length p' \<le> length p"
  shows "longest_match f q = Some m"
proof (cases "longest_match f q")
  case None
  then show ?thesis using assms(1,2) by (simp add: longest_match_None)
next
  case (Some m')
  then obtain p' where p': "prefix p' q" "f p' = Some m'"
    "\<And>p''. prefix p'' q \<Longrightarrow> f p'' \<noteq> None \<Longrightarrow> length p'' \<le> length p'"
    by (rule longest_match_SomeD) blast
  have "length p' \<le> length p" using assms(3) p'(1,2) by simp
  moreover have "length p \<le> length p'" using p'(3) assms(1,2) by simp
  ultimately have "prefix p p'" "prefix p' p"
    using assms(1) p'(1) by (auto intro: prefix_length_prefix)
  then have "p' = p" by (simp add: prefix_order.antisym)
  with Some p'(2) assms(2) show ?thesis by simp
qed

text \<open>
  An index of values under segment lists, with the walk that a request makes through it. The
  client builds the index from a sequence of writes.
\<close>

locale segment_index =
  fixes ix_empty :: 'n
    and ix_set :: "string list \<Rightarrow> 'm \<Rightarrow> 'n \<Rightarrow> 'n"
    and ix_exact :: "'n \<Rightarrow> string list \<Rightarrow> 'm option"
    and ix_walk :: "'n \<Rightarrow> string list \<Rightarrow> 'm option"
  assumes exact_empty: "ix_exact ix_empty q = None"
    and exact_set: "ix_exact (ix_set p m n) q = (if q = p then Some m else ix_exact n q)"
    and walk_longest: "ix_walk n q = longest_match (ix_exact n) q"
begin

lemma exact_fold:
  "ix_exact (fold (\<lambda>k n. ix_set (seg k) (val k) n) ks n) q =
     (case filter (\<lambda>k. seg k = q) ks of [] \<Rightarrow> ix_exact n q
      | l # ls \<Rightarrow> Some (val (last (l # ls))))"
  by (induction ks arbitrary: n) (auto simp: exact_set split: list.splits)

lemma exact_build:
  "ix_exact (fold (\<lambda>k n. ix_set (seg k) (val k) n) ks ix_empty) q = Some m \<longleftrightarrow>
     filter (\<lambda>k. seg k = q) ks \<noteq> [] \<and> m = val (last (filter (\<lambda>k. seg k = q) ks))"
  by (auto simp: exact_fold exact_empty split: list.splits)

lemma exact_build_None:
  "ix_exact (fold (\<lambda>k n. ix_set (seg k) (val k) n) ks ix_empty) q = None \<longleftrightarrow>
     (\<forall>k \<in> set ks. seg k \<noteq> q)"
proof -
  have "(\<forall>k \<in> set ks. seg k \<noteq> q) \<longleftrightarrow> filter (\<lambda>k. seg k = q) ks = []"
    by (simp add: filter_empty_conv)
  then show ?thesis
    by (cases "filter (\<lambda>k. seg k = q) ks") (simp_all add: exact_fold exact_empty)
qed

lemma walk_build_None:
  "ix_walk (fold (\<lambda>k n. ix_set (seg k) (val k) n) ks ix_empty) q = None \<longleftrightarrow>
     (\<forall>k \<in> set ks. \<not> prefix (seg k) q)"
  by (auto simp: walk_longest longest_match_None exact_build_None)

lemma walk_build_Some:
  "ix_walk (fold (\<lambda>k n. ix_set (seg k) (val k) n) ks ix_empty) q = Some m \<longleftrightarrow>
     (\<exists>k. k \<in> set ks \<and> m = val k \<and> prefix (seg k) q
        \<and> (\<forall>k' \<in> set ks. prefix (seg k') q \<longrightarrow> length (seg k') \<le> length (seg k))
        \<and> k = last (filter (\<lambda>k'. seg k' = seg k) ks))" (is "?L \<longleftrightarrow> ?R")
proof
  let ?n = "fold (\<lambda>k n. ix_set (seg k) (val k) n) ks ix_empty"
  have ex: "ix_exact ?n (seg k') \<noteq> None" if "k' \<in> set ks" for k'
    using that exact_build_None[of seg val ks "seg k'"] by blast
  assume ?L
  then obtain p where p: "prefix p q" "ix_exact ?n p = Some m"
    "\<And>p'. prefix p' q \<Longrightarrow> ix_exact ?n p' \<noteq> None \<Longrightarrow> length p' \<le> length p"
    unfolding walk_longest by (rule longest_match_SomeD) blast
  define k where "k = last (filter (\<lambda>k. seg k = p) ks)"
  from p(2) have ne: "filter (\<lambda>k. seg k = p) ks \<noteq> []" and m: "m = val k"
    by (simp_all add: exact_build k_def)
  then have "k \<in> set (filter (\<lambda>k. seg k = p) ks)" unfolding k_def by (rule_tac last_in_set)
  then have k: "k \<in> set ks" "seg k = p" by auto
  have "length (seg k') \<le> length (seg k)" if "k' \<in> set ks" "prefix (seg k') q" for k'
    using p(3)[OF that(2) ex[OF that(1)]] k(2) by simp
  moreover have "k = last (filter (\<lambda>k'. seg k' = seg k) ks)" using k(2) by (simp add: k_def)
  ultimately show ?R using k p(1) m by blast
next
  assume ?R
  then obtain k where k: "k \<in> set ks" "m = val k" "prefix (seg k) q"
    "\<forall>k' \<in> set ks. prefix (seg k') q \<longrightarrow> length (seg k') \<le> length (seg k)"
    "k = last (filter (\<lambda>k'. seg k' = seg k) ks)" by blast
  show ?L unfolding walk_longest
  proof (rule longest_match_SomeI[of "seg k"])
    show "ix_exact (fold (\<lambda>k n. ix_set (seg k) (val k) n) ks ix_empty) (seg k) = Some m"
      using k(1,2) k(5)[symmetric] by (auto simp: exact_build filter_empty_conv)
  next
    fix p'
    assume "prefix p' q" "ix_exact (fold (\<lambda>k n. ix_set (seg k) (val k) n) ks ix_empty) p' \<noteq> None"
    then show "length p' \<le> length (seg k)"
      using k(4) by (auto simp: exact_build filter_empty_conv)
  qed (use k(3) in simp)
qed

end

section \<open>The trie implements the index\<close>

fun node_exact :: "node \<Rightarrow> string list \<Rightarrow> route_match option" where
  "node_exact (Node cs r) [] = r"
| "node_exact (Node cs r) (s # ss) =
     (case bt_get s cs of None \<Rightarrow> None | Some c \<Rightarrow> node_exact c ss)"

definition node_walk :: "node \<Rightarrow> string list \<Rightarrow> route_match option" where
  "node_walk n q = resolve_loop n (node_route n) q"

lemma node_exact_default [simp]: "node_exact node_default q = None"
  by (cases q) (simp_all add: node_default_def)

lemma node_exact_set:
  "node_exact (node_set p m n) q = (if q = p then Some m else node_exact n q)"
proof (induction p m n arbitrary: q rule: node_set.induct)
  case (1 m cs r)
  then show ?case by (cases q) auto
next
  case (2 s ss m cs r)
  then show ?case by (cases q) (auto simp: map_laws split: option.splits)
qed

lemma longest_match_default:
  "longest_match (\<lambda>p. if p = [] then (if f [] \<noteq> None then f [] else d) else f p) q =
     (case longest_match f q of Some m \<Rightarrow> Some m | None \<Rightarrow> d)"
  by (cases q) (auto split: option.splits)

lemma node_exact_Nil: "node_exact n [] = node_route n"
  by (cases n) simp

lemma resolve_loop_longest:
  "resolve_loop n matched q = longest_match (\<lambda>p. if p = [] then matched else node_exact n p) q"
proof (induction n matched q rule: resolve_loop.induct)
  case (1 n matched)
  then show ?case by simp
next
  case (2 n matched s ss)
  obtain cs r where n: "n = Node cs r" by (cases n)
  show ?case
  proof (cases "bt_get s cs")
    case None
    have "longest_match (\<lambda>p. None) ss = (None :: route_match option)"
      by (simp add: longest_match_None)
    then show ?thesis by (simp add: n None)
  next
    case (Some child)
    have child: "bt_get s (children n) = Some child" using Some by (simp add: n)
    note IH = 2[OF child]
    have "resolve_loop n matched (s # ss) =
        resolve_loop child (if node_route child \<noteq> None then node_route child else matched) ss"
      by (simp add: n Some)
    also have "\<dots> = (case longest_match (node_exact child) ss of Some m \<Rightarrow> Some m | None \<Rightarrow> matched)"
      unfolding IH by (rule longest_match_default[of "node_exact child" matched ss, unfolded node_exact_Nil])
    also have "\<dots> = longest_match (\<lambda>p. if p = [] then matched else node_exact n p) (s # ss)"
      by (simp add: n Some)
    finally show ?thesis .
  qed
qed

interpretation trie: segment_index node_default node_set node_exact node_walk
proof (unfold_locales, goal_cases)
  case (3 n q)
  have "(\<lambda>p. if p = [] then node_route n else node_exact n p) = node_exact n"
    by (auto simp: node_exact_Nil)
  then show ?case by (simp add: node_walk_def resolve_loop_longest)
qed (simp_all add: node_exact_set)

section \<open>Resolution of a request path\<close>

fun precedes :: "'a list \<Rightarrow> 'a \<Rightarrow> 'a \<Rightarrow> bool" where
  "precedes [] a b = False"
| "precedes (x # xs) a b = (if x = a then b \<in> set xs else precedes xs a b)"

lemma precedes_in: "precedes xs a b \<Longrightarrow> a \<in> set xs \<and> b \<in> set xs"
  by (induction xs) (auto split: if_splits)

lemma precedes_append: "a \<in> set xs \<Longrightarrow> precedes (xs @ [b]) a b"
  by (induction xs) auto

lemma last_filter_iff:
  assumes "distinct xs" "k \<in> set xs" "P k"
  shows "k = last (filter P xs) \<longleftrightarrow> (\<forall>k' \<in> set xs. P k' \<and> k' \<noteq> k \<longrightarrow> precedes xs k' k)"
  using assms
proof (induction xs)
  case (Cons x xs)
  show ?case
  proof (cases "k = x")
    case True
    then have "\<not> precedes (x # xs) k' k" if "k' \<noteq> k" for k'
      using Cons.prems(1) that precedes_in[of xs k' k] by auto
    moreover have "k = last (filter P (x # xs)) \<longleftrightarrow> filter P xs = []"
      using True Cons.prems(1,3) last_in_set[of "filter P xs"] by auto
    ultimately show ?thesis
      using True Cons.prems(1) by (auto simp: filter_empty_conv)
  next
    case False
    then have k: "k \<in> set xs" using Cons.prems(2) by simp
    then have "filter P xs \<noteq> []" using Cons.prems(3) by (auto simp: filter_empty_conv)
    then have "last (filter P (x # xs)) = last (filter P xs)" by simp
    then show ?thesis using Cons.IH Cons.prems k False by auto
  qed
qed simp

definition key_segments :: "route_key \<Rightarrow> string list" where
  "key_segments k = segments (as_str k)"

definition match_of :: "ordered_routes \<Rightarrow> route_key \<Rightarrow> route_match" where
  "match_of r k = \<lparr>match_key = k, match_data = the (route_of r k)\<rparr>"

lemma index_build:
  assumes "ordered_wf r"
  shows "snap_root (from_ordered_routes r) =
    fold (\<lambda>k n. node_set (key_segments k) (match_of r k) n) (mutation_order r) node_default"
proof -
  have "index_step (by_key r) k = node_set (key_segments k) (match_of r k)"
    if "k \<in> set (mutation_order r)" for k
    using that ordered_wf_mem[OF assms, of k]
    by (auto simp: index_step_def match_of_def route_of_def key_segments_def split: option.splits)
  then show ?thesis unfolding from_ordered_routes_def by (auto intro!: fold_cong)
qed

lemma snapshot_resolve_walk:
  "snapshot_resolve s path = node_walk (snap_root s) (segments path)"
  by (simp add: snapshot_resolve_def node_walk_def)

lemma resolve_None:
  assumes "ordered_wf r"
  shows "snapshot_resolve (from_ordered_routes r) path = None \<longleftrightarrow>
    (\<forall>k. route_of r k \<noteq> None \<longrightarrow> \<not> prefix (key_segments k) (segments path))"
  using ordered_wf_mem[OF assms]
  by (auto simp: snapshot_resolve_walk index_build[OF assms] trie.walk_build_None)

lemma resolve_Some:
  assumes "ordered_wf r"
  shows "snapshot_resolve (from_ordered_routes r) path = Some m \<longleftrightarrow>
    (\<exists>k d. m = \<lparr>match_key = k, match_data = d\<rparr> \<and> route_of r k = Some d
       \<and> prefix (key_segments k) (segments path)
       \<and> (\<forall>k'. route_of r k' \<noteq> None \<and> prefix (key_segments k') (segments path) \<longrightarrow>
             length (key_segments k') \<le> length (key_segments k))
       \<and> (\<forall>k'. route_of r k' \<noteq> None \<and> key_segments k' = key_segments k \<and> k' \<noteq> k \<longrightarrow>
             precedes (mutation_order r) k' k))"
proof -
  have mem: "k \<in> set (mutation_order r) \<longleftrightarrow> (\<exists>d. route_of r k = Some d)" for k
    using ordered_wf_mem[OF assms, of k] by auto
  have dist: "distinct (mutation_order r)" using assms by (simp add: ordered_wf_def)
  have lastk: "k = last (filter (\<lambda>k'. key_segments k' = key_segments k) (mutation_order r)) \<longleftrightarrow>
      (\<forall>k' \<in> set (mutation_order r). key_segments k' = key_segments k \<and> k' \<noteq> k \<longrightarrow>
        precedes (mutation_order r) k' k)"
    if "k \<in> set (mutation_order r)" for k
    using last_filter_iff[OF dist that, of "\<lambda>k'. key_segments k' = key_segments k"] by simp
  show ?thesis
    unfolding snapshot_resolve_walk index_build[OF assms] trie.walk_build_Some
    by (rule ex_cong1) (auto simp: mem match_of_def lastk)
qed

text \<open>
  C4. A request resolves to the stored route whose segments are the longest prefix of the path's
  segments; among keys with the same segments the one written last decides; and it resolves to
  nothing exactly when no stored route is such a prefix.
\<close>

theorem resolve_longest_prefix:
  assumes "ordered_wf r"
  shows "case snapshot_resolve (from_ordered_routes r) path of
      None \<Rightarrow> (\<forall>k. route_of r k \<noteq> None \<longrightarrow> \<not> prefix (key_segments k) (segments path))
    | Some m \<Rightarrow> route_of r (match_key m) = Some (match_data m)
        \<and> prefix (key_segments (match_key m)) (segments path)
        \<and> (\<forall>k. route_of r k \<noteq> None \<and> prefix (key_segments k) (segments path) \<longrightarrow>
             length (key_segments k) \<le> length (key_segments (match_key m)))
        \<and> (\<forall>k. route_of r k \<noteq> None \<and> key_segments k = key_segments (match_key m)
              \<and> k \<noteq> match_key m \<longrightarrow> precedes (mutation_order r) k (match_key m))"
proof (cases "snapshot_resolve (from_ordered_routes r) path")
  case None
  then show ?thesis using resolve_None[OF assms, of path] by simp
next
  case (Some m)
  then show ?thesis using resolve_Some[OF assms, of path m] by auto
qed

definition sample_routes :: ordered_routes where
  "sample_routes =
     replace_preserving_activity (normalize ''/a/b'') \<lparr>target = ''t2'', last_activity = 5, extra = []\<rparr>
       (replace_preserving_activity (normalize ''a'') \<lparr>target = ''t1'', last_activity = 3, extra = []\<rparr>
         (from_sorted []))"

lemma sample_routes_wf: "ordered_wf sample_routes"
  by (simp add: sample_routes_def ordered_wf_ops)

lemma sample_routes_resolve:
  "snapshot_resolve (from_ordered_routes sample_routes) ''/a/bc/d'' =
     Some \<lparr>match_key = RouteKey ''/a'', match_data = \<lparr>target = ''t1'', last_activity = 3, extra = []\<rparr>\<rparr>"
  by code_simp

theorem resolve_longest_prefix_witness:
  "ordered_wf sample_routes
   \<and> snapshot_resolve (from_ordered_routes sample_routes) ''/a/bc/d'' =
       Some \<lparr>match_key = RouteKey ''/a'', match_data = \<lparr>target = ''t1'', last_activity = 3, extra = []\<rparr>\<rparr>
   \<and> prefix (key_segments (RouteKey ''/a'')) (segments ''/a/bc/d'')"
  using resolve_longest_prefix[OF sample_routes_wf, of "''/a/bc/d''"] sample_routes_wf
  by (simp add: sample_routes_resolve)

text \<open>After a route has been written, a request for exactly that route's path resolves to it,
  whatever was stored before (in particular when another key has the same segments), with the
  written target and extension members.
\<close>

theorem resolve_just_written:
  assumes "ordered_wf r"
  shows "\<exists>d'. snapshot_resolve (from_ordered_routes (replace_preserving_activity k d r)) (as_str k)
              = Some \<lparr>match_key = k, match_data = d'\<rparr>
            \<and> target d' = target d \<and> extra d' = extra d \<and> last_activity d \<le> last_activity d'"
proof -
  let ?r = "replace_preserving_activity k d r"
  obtain d' where d': "route_of ?r k = Some d'" "target d' = target d" "extra d' = extra d"
    "last_activity d \<le> last_activity d'"
    by (auto simp: route_of_replace_preserving split: option.splits)
  have wf: "ordered_wf ?r" using assms by (rule ordered_wf_replace_preserving)
  have order: "mutation_order ?r = filter (\<lambda>e. e \<noteq> k) (mutation_order r) @ [k]"
    by (simp add: replace_preserving_activity_def or_replace_def Let_def)
  have "precedes (mutation_order ?r) k' k" if "route_of ?r k' \<noteq> None" "k' \<noteq> k" for k'
  proof -
    have "k' \<in> set (filter (\<lambda>e. e \<noteq> k) (mutation_order r))"
      using that ordered_wf_mem[OF wf, of k'] order by auto
    then show ?thesis unfolding order by (rule precedes_append)
  qed
  then have "snapshot_resolve (from_ordered_routes ?r) (as_str k) = Some \<lparr>match_key = k, match_data = d'\<rparr>"
    using d'(1) by (auto simp: resolve_Some[OF wf] key_segments_def dest: prefix_length_le)
  with d' show ?thesis by blast
qed

theorem resolve_just_written_witness:
  "\<exists>d'. snapshot_resolve (from_ordered_routes (replace_preserving_activity (RouteKey ''//a'')
            \<lparr>target = ''t3'', last_activity = 1, extra = []\<rparr> sample_routes)) ''//a''
          = Some \<lparr>match_key = RouteKey ''//a'', match_data = d'\<rparr> \<and> target d' = ''t3''"
  using resolve_just_written[OF sample_routes_wf, of "RouteKey ''//a''"
      "\<lparr>target = ''t3'', last_activity = 1, extra = []\<rparr>"] by auto

end
