(* ===== verification/Mutation_Tracker.thy ===== *)
theory Mutation_Tracker
  imports Store
begin

text \<open>
  The admission tracker of \<open>src/src/route_table.rs\<close>: the seal that closes mutation admission,
  the count of admitted mutations, the bounded ring of diagnostics of detached mutations, and the
  drain that seals the registry and waits for the admitted work.

  Every method takes the state mutex once, so each is one step on \<open>tracker_state\<close>. The drain
  releases the mutex while it waits; what other tasks do meanwhile is a list of tracker actions
  before each wake-up.
\<close>

section \<open>Data\<close>

datatype mutation_operation = OpAdd | OpPut | OpUpdateActivity | OpDelete

fun operation_name :: "mutation_operation \<Rightarrow> string" where
  "operation_name OpAdd = ''add''"
| "operation_name OpPut = ''put''"
| "operation_name OpUpdateActivity = ''activity update''"
| "operation_name OpDelete = ''delete''"

definition panic_message :: "mutation_operation \<Rightarrow> string" where
  "panic_message op = ''route '' @ operation_name op @ '' mutation task panicked''"

record detached_failure =
  failure_operation :: mutation_operation
  failure_error :: store_error

record detached_panic =
  panic_operation :: mutation_operation
  panic_text :: string

datatype diagnostic = DFailure detached_failure | DPanic detached_panic

datatype mutation_seal = SealOpen | SealShutdown | SealBackendPanic | SealIndeterminate

record tracker_state =
  seal :: mutation_seal
  active :: usize
  diagnostics :: "diagnostic list"
  dropped_failures :: usize
  dropped_panics :: usize

record drain_outcome =
  timed_out :: bool
  active_mutations :: usize
  detached_failures :: "detached_failure list"
  detached_panics :: "detached_panic list"
  dropped_detached_failures :: usize
  dropped_detached_panics :: usize

record mutation_status =
  status_sealed :: bool
  status_seal :: mutation_seal
  status_active :: usize

definition MUTATION_ADMISSION_SEALED_ERROR :: string where
  "MUTATION_ADMISSION_SEALED_ERROR =
     ''route registry is shutting down; mutation admission is sealed''"

definition MUTATION_PANIC_SEALED_ERROR :: string where
  "MUTATION_PANIC_SEALED_ERROR = ''route registry is terminally sealed after a backend panic''"

definition MUTATION_INDETERMINATE_SEALED_ERROR :: string where
  "MUTATION_INDETERMINATE_SEALED_ERROR =
     ''route registry is terminally sealed after an indeterminate backend mutation''"

definition DETACHED_MUTATION_DIAGNOSTIC_CAPACITY :: nat where
  "DETACHED_MUTATION_DIAGNOSTIC_CAPACITY = 256"

definition tracker_default :: tracker_state where
  "tracker_default = \<lparr>seal = SealOpen, active = 0, diagnostics = [],
                      dropped_failures = 0, dropped_panics = 0\<rparr>"

section \<open>Operations\<close>

definition push_diagnostic :: "diagnostic \<Rightarrow> tracker_state \<Rightarrow> tracker_state" where
  "push_diagnostic d s =
     (let s = (if length (diagnostics s) = DETACHED_MUTATION_DIAGNOSTIC_CAPACITY then
                 (case diagnostics s of
                    [] \<Rightarrow> s
                  | DFailure f # rest \<Rightarrow>
                      s\<lparr>diagnostics := rest,
                        dropped_failures := saturating_add1 (dropped_failures s)\<rparr>
                  | DPanic p # rest \<Rightarrow>
                      s\<lparr>diagnostics := rest,
                        dropped_panics := saturating_add1 (dropped_panics s)\<rparr>)
               else s)
      in s\<lparr>diagnostics := diagnostics s @ [d]\<rparr>)"

fun failures_of :: "diagnostic list \<Rightarrow> detached_failure list" where
  "failures_of [] = []"
| "failures_of (DFailure f # ds) = f # failures_of ds"
| "failures_of (DPanic p # ds) = failures_of ds"

fun panics_of :: "diagnostic list \<Rightarrow> detached_panic list" where
  "panics_of [] = []"
| "panics_of (DFailure f # ds) = panics_of ds"
| "panics_of (DPanic p # ds) = p # panics_of ds"

definition take_outcome :: "bool \<Rightarrow> tracker_state \<Rightarrow> drain_outcome \<times> tracker_state" where
  "take_outcome to s =
     (\<lparr>timed_out = to, active_mutations = active s,
       detached_failures = failures_of (diagnostics s),
       detached_panics = panics_of (diagnostics s),
       dropped_detached_failures = dropped_failures s,
       dropped_detached_panics = dropped_panics s\<rparr>,
      s\<lparr>diagnostics := [], dropped_failures := 0, dropped_panics := 0\<rparr>)"

definition tracker_begin :: "tracker_state \<Rightarrow> (store_error, unit) result \<times> tracker_state" where
  "tracker_begin s =
     (case seal s of
        SealOpen \<Rightarrow> (Ok (), s\<lparr>active := saturating_add1 (active s)\<rparr>)
      | SealShutdown \<Rightarrow> (Err (store_error_message MUTATION_ADMISSION_SEALED_ERROR), s)
      | SealBackendPanic \<Rightarrow> (Err (store_error_message MUTATION_PANIC_SEALED_ERROR), s)
      | SealIndeterminate \<Rightarrow> (Err (store_error_message MUTATION_INDETERMINATE_SEALED_ERROR), s))"

definition tracker_finish ::
  "detached_failure option \<Rightarrow> detached_panic option \<Rightarrow> tracker_state \<Rightarrow> tracker_state" where
  "tracker_finish failure panic s =
     (let s = s\<lparr>active := saturating_sub1 (active s)\<rparr>;
          s = (case failure of Some f \<Rightarrow> push_diagnostic (DFailure f) s | None \<Rightarrow> s)
      in (case panic of Some p \<Rightarrow> push_diagnostic (DPanic p) s | None \<Rightarrow> s))"

definition active_mutation_drop :: "mutation_operation \<Rightarrow> tracker_state \<Rightarrow> tracker_state" where
  "active_mutation_drop op s =
     tracker_finish None
       (Some \<lparr>panic_operation = op,
              panic_text = ''route '' @ operation_name op
                             @ '' mutation task terminated unexpectedly''\<rparr>) s"

definition tracker_status :: "tracker_state \<Rightarrow> mutation_status" where
  "tracker_status s =
     \<lparr>status_sealed = (seal s \<noteq> SealOpen), status_seal = seal s, status_active = active s\<rparr>"

definition panic_seal :: "tracker_state \<Rightarrow> tracker_state" where
  "panic_seal s = s\<lparr>seal := SealBackendPanic\<rparr>"

definition indeterminate_seal :: "tracker_state \<Rightarrow> tracker_state" where
  "indeterminate_seal s = s\<lparr>seal := SealIndeterminate\<rparr>"

definition reject_if_terminally_failed :: "tracker_state \<Rightarrow> (store_error, unit) result" where
  "reject_if_terminally_failed s =
     (case seal s of
        SealBackendPanic \<Rightarrow> Err (store_error_message MUTATION_PANIC_SEALED_ERROR)
      | SealIndeterminate \<Rightarrow> Err (store_error_message MUTATION_INDETERMINATE_SEALED_ERROR)
      | _ \<Rightarrow> Ok ())"

definition is_indeterminate :: "tracker_state \<Rightarrow> bool" where
  "is_indeterminate s \<longleftrightarrow> seal s = SealIndeterminate"

section \<open>The drain\<close>

text \<open>
  \<open>seal_and_drain\<close> in its critical sections: the entry, the check after the waiter has been
  enabled, and the deadline branch. \<open>None\<close> means that it goes on waiting.
\<close>

definition drain_enter :: "tracker_state \<Rightarrow> drain_outcome option \<times> tracker_state" where
  "drain_enter s =
     (let s = (if seal s = SealOpen then s\<lparr>seal := SealShutdown\<rparr> else s)
      in if active s = 0 then (case take_outcome False s of (out, s') \<Rightarrow> (Some out, s'))
         else (None, s))"

definition drain_check :: "tracker_state \<Rightarrow> drain_outcome option \<times> tracker_state" where
  "drain_check s =
     (if active s = 0 then (case take_outcome False s of (out, s') \<Rightarrow> (Some out, s'))
      else (None, s))"

definition drain_deadline :: "tracker_state \<Rightarrow> drain_outcome \<times> tracker_state" where
  "drain_deadline s = (let to = (active s \<noteq> 0) in take_outcome to s)"

text \<open>
  The waiter and the wake-up. \<open>Notify\<close> is a generation count: a waiter remembers the
  generation at which it was enabled, and \<open>notify_waiters\<close> advances it. A finishing mutation
  first updates the state and then, outside the mutex, notifies; \<open>unnotified\<close> counts the
  finished mutations that have not notified yet.
\<close>

datatype waiter = WIdle | WLoop | WEnabled nat | WWaiting nat | WDone drain_outcome

record drain_sys =
  trk :: tracker_state
  generation :: nat
  unnotified :: nat
  waiter :: waiter

definition after_check :: "waiter \<Rightarrow> drain_outcome option \<times> tracker_state \<Rightarrow> drain_sys \<Rightarrow> drain_sys" where
  "after_check w r c =
     c\<lparr>trk := snd r, waiter := (case fst r of Some out \<Rightarrow> WDone out | None \<Rightarrow> w)\<rparr>"

inductive drain_step :: "drain_sys \<Rightarrow> drain_sys \<Rightarrow> bool" where
  step_begin: "drain_step c (c\<lparr>trk := snd (tracker_begin (trk c))\<rparr>)"
| step_finish: "active (trk c) \<noteq> 0 \<Longrightarrow>
    drain_step c (c\<lparr>trk := tracker_finish failure panic (trk c), unnotified := Suc (unnotified c)\<rparr>)"
| step_panic_seal: "drain_step c (c\<lparr>trk := panic_seal (trk c)\<rparr>)"
| step_indeterminate_seal: "drain_step c (c\<lparr>trk := indeterminate_seal (trk c)\<rparr>)"
| step_notify: "unnotified c = Suc n \<Longrightarrow>
    drain_step c (c\<lparr>unnotified := n, generation := Suc (generation c)\<rparr>)"
| step_enter: "waiter c = WIdle \<Longrightarrow> drain_step c (after_check WLoop (drain_enter (trk c)) c)"
| step_enable: "waiter c = WLoop \<Longrightarrow> drain_step c (c\<lparr>waiter := WEnabled (generation c)\<rparr>)"
| step_check: "waiter c = WEnabled g \<Longrightarrow>
    drain_step c (after_check (WWaiting g) (drain_check (trk c)) c)"
| step_wake: "waiter c = WWaiting g \<Longrightarrow> generation c \<noteq> g \<Longrightarrow> drain_step c (c\<lparr>waiter := WLoop\<rparr>)"
| step_deadline: "waiter c = WWaiting g \<Longrightarrow>
    drain_step c (c\<lparr>trk := snd (drain_deadline (trk c)), waiter := WDone (fst (drain_deadline (trk c)))\<rparr>)"

inductive_cases drain_stepE: "drain_step c c'"

definition drain_init :: drain_sys where
  "drain_init = \<lparr>trk = tracker_default, generation = 0, unnotified = 0, waiter = WIdle\<rparr>"

section \<open>Lemmas\<close>

lemma push_diagnostic_frame [simp]:
  "seal (push_diagnostic d s) = seal s" "active (push_diagnostic d s) = active s"
  by (auto simp: push_diagnostic_def Let_def split: list.splits diagnostic.splits)

lemma tracker_finish_frame [simp]:
  "seal (tracker_finish f p s) = seal s"
  "active (tracker_finish f p s) = saturating_sub1 (active s)"
  by (auto simp: tracker_finish_def Let_def split: option.splits)

lemma take_outcome_frame [simp]:
  "seal (snd (take_outcome to s)) = seal s" "active (snd (take_outcome to s)) = active s"
  "timed_out (fst (take_outcome to s)) = to"
  "active_mutations (fst (take_outcome to s)) = active s"
  by (simp_all add: take_outcome_def)

lemma tracker_begin_sealed:
  "seal s \<noteq> SealOpen \<Longrightarrow> snd (tracker_begin s) = s \<and> \<not> is_ok (fst (tracker_begin s))"
  by (cases "seal s") (simp_all add: tracker_begin_def)

lemma tracker_begin_frame [simp]: "seal (snd (tracker_begin s)) = seal s"
  by (cases "seal s") (simp_all add: tracker_begin_def)

lemma seal_change_frame [simp]:
  "seal (panic_seal s) = SealBackendPanic" "seal (indeterminate_seal s) = SealIndeterminate"
  "active (panic_seal s) = active s" "active (indeterminate_seal s) = active s"
  by (simp_all add: panic_seal_def indeterminate_seal_def)

subsection \<open>The diagnostic ring\<close>

definition ring_of :: "diagnostic list \<Rightarrow> diagnostic list" where
  "ring_of h = drop (length h - DETACHED_MUTATION_DIAGNOSTIC_CAPACITY) h"

definition overflowed :: "diagnostic list \<Rightarrow> diagnostic list" where
  "overflowed h = take (length h - DETACHED_MUTATION_DIAGNOSTIC_CAPACITY) h"

definition ring_ok :: "diagnostic list \<Rightarrow> tracker_state \<Rightarrow> bool" where
  "ring_ok h s \<longleftrightarrow> diagnostics s = ring_of h
     \<and> unat (dropped_failures s) = length (failures_of (overflowed h))
     \<and> unat (dropped_panics s) = length (panics_of (overflowed h))"

lemma failures_of_append [simp]: "failures_of (a @ b) = failures_of a @ failures_of b"
  by (induction a rule: failures_of.induct) auto

lemma panics_of_append [simp]: "panics_of (a @ b) = panics_of a @ panics_of b"
  by (induction a rule: panics_of.induct) auto

lemma diagnostics_split: "length (failures_of h) + length (panics_of h) = length h"
  by (induction h rule: failures_of.induct) auto

lemma ring_of_snoc:
  "ring_of (h @ [d]) = (if length h < DETACHED_MUTATION_DIAGNOSTIC_CAPACITY then h @ [d]
                        else tl (ring_of h) @ [d])"
proof (cases "length h < DETACHED_MUTATION_DIAGNOSTIC_CAPACITY")
  case False
  then obtain i where "length h = DETACHED_MUTATION_DIAGNOSTIC_CAPACITY + i"
    using le_Suc_ex[of DETACHED_MUTATION_DIAGNOSTIC_CAPACITY "length h"] by auto
  then show ?thesis
    by (simp add: ring_of_def DETACHED_MUTATION_DIAGNOSTIC_CAPACITY_def drop_Suc tl_drop)
qed (simp add: ring_of_def)

lemma overflowed_snoc:
  "overflowed (h @ [d]) = (if length h < DETACHED_MUTATION_DIAGNOSTIC_CAPACITY then overflowed h
                           else overflowed h @ [hd (ring_of h)])"
proof (cases "length h < DETACHED_MUTATION_DIAGNOSTIC_CAPACITY")
  case False
  let ?i = "length h - DETACHED_MUTATION_DIAGNOSTIC_CAPACITY"
  have "?i < length h" using False by (simp add: DETACHED_MUTATION_DIAGNOSTIC_CAPACITY_def)
  then have "take (Suc ?i) h = take ?i h @ [hd (drop ?i h)]"
    by (simp add: take_Suc_conv_app_nth hd_drop_conv_nth)
  then show ?thesis using False \<open>?i < length h\<close>
    by (simp add: overflowed_def ring_of_def Suc_diff_le)
qed (simp add: overflowed_def)

lemma ring_push:
  assumes ok: "ring_ok h s" and small: "length h < 2 ^ 64 - 1"
  shows "ring_ok (h @ [d]) (push_diagnostic d s)"
proof (cases "length h < DETACHED_MUTATION_DIAGNOSTIC_CAPACITY")
  case True
  then have "diagnostics s = h" "length (diagnostics s) \<noteq> DETACHED_MUTATION_DIAGNOSTIC_CAPACITY"
    using ok by (simp_all add: ring_ok_def ring_of_def)
  then show ?thesis using ok True
    by (simp add: ring_ok_def push_diagnostic_def ring_of_snoc overflowed_snoc)
next
  case False
  then have len: "length (diagnostics s) = DETACHED_MUTATION_DIAGNOSTIC_CAPACITY"
    using ok by (simp add: ring_ok_def ring_of_def)
  then obtain e rest where ds: "diagnostics s = e # rest"
    by (cases "diagnostics s") (simp_all add: DETACHED_MUTATION_DIAGNOSTIC_CAPACITY_def)
  then have ring: "ring_of h = e # rest" using ok by (simp add: ring_ok_def)
  have "length (failures_of (overflowed h)) + length (panics_of (overflowed h)) < 2 ^ 64 - 1"
    using small by (simp only: diagnostics_split) (simp add: overflowed_def)
  then have "unat (dropped_failures s) < 2 ^ 64 - 1" "unat (dropped_panics s) < 2 ^ 64 - 1"
    using ok unfolding ring_ok_def by linarith+
  note inc = this[THEN unat_saturating_add1]
  show ?thesis using ok False len inc
    by (cases e) (simp_all add: ring_ok_def push_diagnostic_def ds ring ring_of_snoc overflowed_snoc)
qed

lemma ring_ok_empty: "ring_ok [] (snd (take_outcome to s))"
  by (simp add: ring_ok_def take_outcome_def ring_of_def overflowed_def)

lemma ring_ok_default: "ring_ok [] tracker_default"
  by (simp add: ring_ok_def tracker_default_def ring_of_def overflowed_def)

definition finish_all ::
  "(detached_failure option \<times> detached_panic option) list \<Rightarrow> tracker_state \<Rightarrow> tracker_state" where
  "finish_all fs s = fold (\<lambda>(f, p). tracker_finish f p) fs s"

definition reported ::
  "(detached_failure option \<times> detached_panic option) list \<Rightarrow> diagnostic list" where
  "reported fs = concat (map (\<lambda>(f, p). (case f of Some f \<Rightarrow> [DFailure f] | None \<Rightarrow> [])
                                       @ (case p of Some p \<Rightarrow> [DPanic p] | None \<Rightarrow> [])) fs)"

lemma ring_ok_cong:
  "ring_ok h s \<Longrightarrow> diagnostics s' = diagnostics s \<Longrightarrow> dropped_failures s' = dropped_failures s \<Longrightarrow>
   dropped_panics s' = dropped_panics s \<Longrightarrow> ring_ok h s'"
  by (simp add: ring_ok_def)

lemma ring_finish:
  assumes "ring_ok h s" "length (h @ reported [(f, p)]) < 2 ^ 64"
  shows "ring_ok (h @ reported [(f, p)]) (tracker_finish f p s)"
proof -
  let ?s = "s\<lparr>active := saturating_sub1 (active s)\<rparr>"
  have base: "ring_ok h ?s" using assms(1) by (rule ring_ok_cong) simp_all
  show ?thesis
  proof (cases f)
    case None
    then show ?thesis using base assms(2)
      by (cases p) (auto simp: tracker_finish_def reported_def intro!: ring_push)
  next
    case (Some f')
    then have "ring_ok (h @ [DFailure f']) (push_diagnostic (DFailure f') ?s)"
      using assms(2) by (intro ring_push base) (auto simp: reported_def split: option.splits)
    then show ?thesis using Some assms(2) ring_push[of "h @ [DFailure f']"]
      by (cases p) (auto simp: tracker_finish_def reported_def)
  qed
qed

lemma ring_finish_all:
  assumes "ring_ok h s" "length (h @ reported fs) < 2 ^ 64"
  shows "ring_ok (h @ reported fs) (finish_all fs s)"
  using assms
proof (induction fs arbitrary: h s)
  case Nil
  then show ?case by (simp add: reported_def finish_all_def)
next
  case (Cons fp fs)
  obtain f p where fp: "fp = (f, p)" by (cases fp)
  have split: "reported (fp # fs) = reported [fp] @ reported fs" by (simp add: reported_def)
  have "ring_ok (h @ reported [fp]) (tracker_finish f p s)"
    unfolding fp using Cons.prems split by (intro ring_finish) (auto simp: fp)
  from Cons.IH[OF this] Cons.prems(2) split
  have "ring_ok (h @ reported (fp # fs)) (finish_all fs (tracker_finish f p s))" by simp
  then show ?case by (simp add: finish_all_def fp)
qed

lemma ring_overflow_split: "overflowed h @ ring_of h = h"
  by (simp add: overflowed_def ring_of_def)

lemma ring_of_length: "length (ring_of h) \<le> DETACHED_MUTATION_DIAGNOSTIC_CAPACITY"
  by (simp add: ring_of_def)

text \<open>Diagnostics are conserved: whatever finished since the previous drain, the next drain
  reports the most recent 256 diagnostics in order and counts every discarded one, so that
  reported plus discarded failures (and panics) are exactly those that occurred.
\<close>

theorem diagnostics_conserved:
  assumes "length (reported fs) < 2 ^ 64"
    and "s = snd (take_outcome to0 s0)"
    and "out = fst (take_outcome to (finish_all fs s))"
  shows "detached_failures out = failures_of (ring_of (reported fs))
    \<and> detached_panics out = panics_of (ring_of (reported fs))
    \<and> length (detached_failures out) + length (detached_panics out) \<le> 256
    \<and> unat (dropped_detached_failures out) + length (detached_failures out)
        = length (failures_of (reported fs))
    \<and> unat (dropped_detached_panics out) + length (detached_panics out)
        = length (panics_of (reported fs))"
proof -
  let ?h = "reported fs"
  have ok: "ring_ok ?h (finish_all fs s)"
    using ring_finish_all[OF ring_ok_empty[of to0 s0], of fs] assms(1,2) by simp
  then have out: "detached_failures out = failures_of (ring_of ?h)"
      "detached_panics out = panics_of (ring_of ?h)"
      "unat (dropped_detached_failures out) = length (failures_of (overflowed ?h))"
      "unat (dropped_detached_panics out) = length (panics_of (overflowed ?h))"
    by (simp_all add: assms(3) take_outcome_def ring_ok_def)
  have "length (failures_of (ring_of ?h)) + length (panics_of (ring_of ?h)) \<le> 256"
    using ring_of_length[of ?h]
    by (simp add: diagnostics_split DETACHED_MUTATION_DIAGNOSTIC_CAPACITY_def)
  moreover have "failures_of ?h = failures_of (overflowed ?h) @ failures_of (ring_of ?h)"
    "panics_of ?h = panics_of (overflowed ?h) @ panics_of (ring_of ?h)"
    using ring_overflow_split[of ?h] by (metis failures_of_append, metis panics_of_append)
  ultimately show ?thesis by (simp add: out)
qed

lemma reported_replicate:
  "reported (replicate n (Some f, None)) = replicate n (DFailure f)"
  "failures_of (replicate n (DFailure f)) = replicate n f"
  by (induction n) (simp_all add: reported_def)

theorem diagnostics_conserved_witness:
  "unat (dropped_detached_failures (fst (take_outcome False
       (finish_all (replicate 300 (Some \<lparr>failure_operation = OpAdd, failure_error = Backend ''add''\<rparr>, None))
         (snd (take_outcome False tracker_default)))))) = 44"
proof -
  let ?f = "\<lparr>failure_operation = OpAdd, failure_error = Backend ''add''\<rparr>"
  let ?fs = "replicate 300 (Some ?f, None :: detached_panic option)"
  let ?out = "fst (take_outcome False (finish_all ?fs (snd (take_outcome False tracker_default))))"
  have "length (reported ?fs) < 2 ^ 64" by (simp add: reported_replicate)
  note c = diagnostics_conserved[OF this refl refl, of False False tracker_default]
  have "detached_failures ?out = failures_of (ring_of (reported ?fs))"
    using c by (rule conjunct1)
  then have "length (detached_failures ?out) = 256"
    by (simp add: reported_replicate ring_of_def DETACHED_MUTATION_DIAGNOSTIC_CAPACITY_def)
  moreover have "unat (dropped_detached_failures ?out) + length (detached_failures ?out)
      = length (failures_of (reported ?fs))"
    using c by blast
  moreover have "length (failures_of (reported ?fs)) = 300" by (simp add: reported_replicate)
  ultimately show ?thesis by linarith
qed

subsection \<open>The drain\<close>

definition drain_inv :: "drain_sys \<Rightarrow> bool" where
  "drain_inv c \<longleftrightarrow>
     (waiter c \<noteq> WIdle \<longrightarrow> seal (trk c) \<noteq> SealOpen)
     \<and> (case waiter c of
          WEnabled g \<Rightarrow> g \<le> generation c
        | WWaiting g \<Rightarrow> g \<le> generation c
            \<and> (g = generation c \<and> active (trk c) = 0 \<longrightarrow> 0 < unnotified c)
        | WDone out \<Rightarrow> (timed_out out \<longleftrightarrow> active_mutations out \<noteq> 0)
        | _ \<Rightarrow> True)"

lemma drain_enter_frame:
  "seal (snd (drain_enter s)) \<noteq> SealOpen"
  "fst (drain_enter s) = Some out \<Longrightarrow> \<not> timed_out out \<and> active_mutations out = 0"
  by (auto simp: drain_enter_def Let_def take_outcome_def split: if_splits)

lemma drain_check_frame:
  "seal (snd (drain_check s)) = seal s"
  "active (snd (drain_check s)) = active s"
  "fst (drain_check s) = Some out \<Longrightarrow> \<not> timed_out out \<and> active_mutations out = 0"
  "fst (drain_check s) = None \<Longrightarrow> active s \<noteq> 0"
  by (auto simp: drain_check_def take_outcome_def split: if_splits)

lemma drain_deadline_frame:
  "seal (snd (drain_deadline s)) = seal s"
  "timed_out (fst (drain_deadline s)) \<longleftrightarrow> active_mutations (fst (drain_deadline s)) \<noteq> 0"
  by (simp_all add: drain_deadline_def)

lemma drain_inv_step: "drain_step c c' \<Longrightarrow> drain_inv c \<Longrightarrow> drain_inv c'"
proof (induction rule: drain_step.induct)
  case (step_begin c)
  then show ?case
    using tracker_begin_sealed[of "trk c"] by (auto simp: drain_inv_def split: waiter.splits)
next
  case (step_enter c)
  then show ?case
    by (auto simp: drain_inv_def after_check_def drain_enter_frame split: option.splits waiter.splits
        dest: drain_enter_frame(2))
next
  case (step_check c g)
  then show ?case
    by (auto simp: drain_inv_def after_check_def drain_check_frame(1,2) split: option.splits
        dest: drain_check_frame(3,4))
next
  case (step_deadline c g)
  then show ?case by (simp add: drain_inv_def drain_deadline_frame)
qed (auto simp: drain_inv_def split: waiter.splits)

lemma drain_inv_init: "drain_inv drain_init"
  by (simp add: drain_inv_def drain_init_def)

lemma drain_inv_reachable: "drain_step\<^sup>*\<^sup>* drain_init c \<Longrightarrow> drain_inv c"
  by (induction rule: rtranclp_induct) (auto intro: drain_inv_init drain_inv_step)

text \<open>A drain that has returned has closed admission for good, and it reports a timeout exactly
  when it also reports mutations that were still active.
\<close>

theorem drain_returns_sealed:
  assumes "drain_step\<^sup>*\<^sup>* drain_init c" "waiter c = WDone out"
  shows "seal (trk c) \<noteq> SealOpen \<and> \<not> is_ok (fst (tracker_begin (trk c)))
    \<and> (timed_out out \<longleftrightarrow> active_mutations out \<noteq> 0)"
  using drain_inv_reachable[OF assms(1)] assms(2) tracker_begin_sealed[of "trk c"]
  by (auto simp: drain_inv_def)

theorem drain_returns_sealed_witness:
  "seal (snd (drain_enter tracker_default)) \<noteq> SealOpen"
proof -
  let ?c = "after_check WLoop (drain_enter (trk drain_init)) drain_init"
  have "drain_step\<^sup>*\<^sup>* drain_init ?c" by (intro r_into_rtranclp step_enter) (simp add: drain_init_def)
  moreover have "waiter ?c = WDone (fst (take_outcome False (tracker_default\<lparr>seal := SealShutdown\<rparr>)))"
    by (simp add: after_check_def drain_init_def drain_enter_def tracker_default_def take_outcome_def)
  ultimately have "seal (trk ?c) \<noteq> SealOpen" using drain_returns_sealed by blast
  then show ?thesis by (simp add: after_check_def drain_init_def)
qed


definition drain_waiting :: drain_sys where
  "drain_waiting = \<lparr>trk = \<lparr>seal = SealShutdown, active = 0, diagnostics = [],
      dropped_failures = 0, dropped_panics = 0\<rparr>, generation = 1, unnotified = 0, waiter = WWaiting 0\<rparr>"

lemma drain_waiting_reachable: "drain_step\<^sup>*\<^sup>* drain_init drain_waiting"
proof -
  let ?c1 = "drain_init\<lparr>trk := snd (tracker_begin (trk drain_init))\<rparr>"
  let ?c2 = "after_check WLoop (drain_enter (trk ?c1)) ?c1"
  let ?c3 = "?c2\<lparr>waiter := WEnabled (generation ?c2)\<rparr>"
  let ?c4 = "after_check (WWaiting (generation ?c2)) (drain_check (trk ?c3)) ?c3"
  let ?c5 = "?c4\<lparr>trk := tracker_finish None None (trk ?c4), unnotified := Suc (unnotified ?c4)\<rparr>"
  let ?c6 = "?c5\<lparr>unnotified := 0, generation := Suc (generation ?c5)\<rparr>"
  note defs = drain_init_def tracker_default_def tracker_begin_def after_check_def drain_enter_def
    drain_check_def tracker_finish_def saturating_add1_def saturating_sub1_def
  note one = rtranclp.rtrancl_into_rtrancl
  have "drain_step\<^sup>*\<^sup>* drain_init ?c1" by (rule r_into_rtranclp, rule step_begin)
  then have "drain_step\<^sup>*\<^sup>* drain_init ?c2" by (rule one, intro step_enter) (simp add: defs)
  then have "drain_step\<^sup>*\<^sup>* drain_init ?c3" by (rule one, intro step_enable) (simp add: defs)
  then have "drain_step\<^sup>*\<^sup>* drain_init ?c4" by (rule one, intro step_check) simp
  then have "drain_step\<^sup>*\<^sup>* drain_init ?c5" by (rule one, intro step_finish) (simp add: defs)
  then have "drain_step\<^sup>*\<^sup>* drain_init ?c6" by (rule one, intro step_notify) (simp add: defs)
  moreover have "?c6 = drain_waiting" by (simp add: defs drain_waiting_def)
  ultimately show ?thesis by simp
qed


end
