(* ===== verification/Route_Registry.thy ===== *)
theory Route_Registry
  imports Memory_Store Route_Table Mutation_Tracker
begin

text \<open>
  \<open>RouteRegistry\<close> of \<open>src/src/route_table.rs\<close>: reads from the published snapshot, the
  compare-and-swap publication, and each mutation in its two halves, the backend call and the
  publication that follows it. \<open>run_mutation\<close> composes them without interleaving; the
  interleaved behaviour is in the theory of the registry tasks.
\<close>

section \<open>State and reads\<close>

record 's registry =
  reg_store :: 's
  reg_snapshot :: route_snapshot
  reg_tracker :: tracker_state

definition registry_load :: "'s store_ops \<Rightarrow> 's \<Rightarrow> 's registry call \<times> 's" where
  "registry_load ops s =
     (case store_snapshot ops s of
        (Ret (Ok m), s') \<Rightarrow>
          (Ret (Ok \<lparr>reg_store = s', reg_snapshot = from_routes m, reg_tracker = tracker_default\<rparr>), s')
      | (Ret (Err e), s') \<Rightarrow> (Ret (Err e), s')
      | (Panic, s') \<Rightarrow> (Panic, s'))"

definition registry_get :: "'s registry \<Rightarrow> route_key \<Rightarrow> route_data option" where
  "registry_get reg key =
     (if is_indeterminate (reg_tracker reg) then None
      else bt_get key (by_key (snap_routes (reg_snapshot reg))))"

definition registry_all :: "'s registry \<Rightarrow> (route_key, route_data) btree" where
  "registry_all reg =
     (if is_indeterminate (reg_tracker reg) then [] else by_key (snap_routes (reg_snapshot reg)))"

definition registry_resolve :: "'s registry \<Rightarrow> string \<Rightarrow> route_match option" where
  "registry_resolve reg request_path =
     (if is_indeterminate (reg_tracker reg) then None
      else snapshot_resolve (reg_snapshot reg) request_path)"

datatype consistency_status = Consistent | Inconsistent

definition consistency_status :: "'s registry \<Rightarrow> consistency_status" where
  "consistency_status reg =
     (if is_indeterminate (reg_tracker reg) then Inconsistent else Consistent)"

definition mutation_status_of :: "'s registry \<Rightarrow> mutation_status" where
  "mutation_status_of reg = tracker_status (reg_tracker reg)"

section \<open>Publication by compare-and-swap\<close>

text \<open>
  The \<open>ArcSwap\<close> holds a pointer; the compare-and-swap compares pointers, so the cell carries
  an identity that every successful publication renews. Between the load and the swap of one
  round, other threads may publish: each element of the list is what they apply, one publication
  after the other, in that round. A round in which nobody else publishes succeeds, and so does a
  round after the last listed one.
\<close>

record cell =
  cell_id :: nat
  cell_value :: route_snapshot

definition cell_store :: "route_snapshot \<Rightarrow> cell \<Rightarrow> cell" where
  "cell_store next c = \<lparr>cell_id = Suc (cell_id c), cell_value = next\<rparr>"

definition cell_apply :: "(ordered_routes \<Rightarrow> ordered_routes) \<Rightarrow> cell \<Rightarrow> cell" where
  "cell_apply f c = cell_store (from_ordered_routes (f (snap_routes (cell_value c)))) c"

fun merge_and_publish ::
  "(ordered_routes \<Rightarrow> ordered_routes) \<Rightarrow> (ordered_routes \<Rightarrow> ordered_routes) list list \<Rightarrow> cell \<Rightarrow> cell" where
  "merge_and_publish apply [] current =
     cell_store (from_ordered_routes (apply (snap_routes (cell_value current)))) current"
| "merge_and_publish apply (others # rest) current =
     (let routes = apply (snap_routes (cell_value current));
          next = from_ordered_routes routes;
          previous = fold cell_apply others current
      in if cell_id current = cell_id previous then cell_store next previous
         else merge_and_publish apply rest previous)"

fun observe_loop ::
  "route_key \<Rightarrow> timestamp \<Rightarrow> (ordered_routes \<Rightarrow> ordered_routes) list list \<Rightarrow> cell \<Rightarrow> bool \<times> cell" where
  "observe_loop key at rounds current =
     (case bt_get key (by_key (snap_routes (cell_value current))) of
        None \<Rightarrow> (False, current)
      | Some existing \<Rightarrow>
          if at \<le> last_activity existing then (False, current)
          else
            (let next = from_ordered_routes (or_update_activity key at (snap_routes (cell_value current)))
             in case rounds of
                  [] \<Rightarrow> (True, cell_store next current)
                | others # rest \<Rightarrow>
                    (let previous = fold cell_apply others current
                     in if cell_id current = cell_id previous then (True, cell_store next previous)
                        else observe_loop key at rest previous)))"

definition observe_activity ::
  "route_key \<Rightarrow> timestamp \<Rightarrow> (ordered_routes \<Rightarrow> ordered_routes) list list
   \<Rightarrow> tracker_state \<Rightarrow> cell \<Rightarrow> bool \<times> cell" where
  "observe_activity key at rounds t current =
     (if is_indeterminate t then (False, current) else observe_loop key at rounds current)"

section \<open>Mutations\<close>

text \<open>
  What a mutation publishes after its backend call has succeeded: the closure that the source
  passes to \<open>merge_and_publish\<close>, or nothing for a persisted observation.
\<close>

datatype publication =
    PubReplace route_key route_data
  | PubUpdate route_key timestamp
  | PubRemove route_key
  | PubNone

fun apply_publication :: "publication \<Rightarrow> ordered_routes \<Rightarrow> ordered_routes" where
  "apply_publication (PubReplace key data) r = replace_preserving_activity key data r"
| "apply_publication (PubUpdate key at) r = or_update_activity key at r"
| "apply_publication (PubRemove key) r = or_remove key r"
| "apply_publication PubNone r = r"

definition activity_floor_of :: "(nat \<Rightarrow> 's registry option) \<Rightarrow> route_key \<Rightarrow> activity_floor" where
  "activity_floor_of upgraded key =
     floor_dynamic (\<lambda>n. case upgraded n of
                         None \<Rightarrow> None
                       | Some reg \<Rightarrow> map_option last_activity (registry_get reg key))"

type_synonym pending = "route_data option \<times> publication"

definition put_owned ::
  "'s store_ops \<Rightarrow> (nat \<Rightarrow> 's registry option) \<Rightarrow> route_key \<Rightarrow> route_data \<Rightarrow> 's \<Rightarrow> pending call \<times> 's" where
  "put_owned ops upgraded key data s =
     (case store_put_preserving_activity ops key data (activity_floor_of upgraded key) s of
        (Ret (Ok data), s') \<Rightarrow> (Ret (Ok (None, PubReplace key data)), s')
      | (Ret (Err e), s') \<Rightarrow> (Ret (Err e), s')
      | (Panic, s') \<Rightarrow> (Panic, s'))"

definition add_owned ::
  "'s store_ops \<Rightarrow> timestamp \<Rightarrow> (nat \<Rightarrow> 's registry option) \<Rightarrow> route_key \<Rightarrow> string \<Rightarrow> json_map \<Rightarrow> 's
   \<Rightarrow> pending call \<times> 's" where
  "add_owned ops now upgraded key tgt x s =
     (case store_add ops now key tgt x (activity_floor_of upgraded key) s of
        (Ret (Ok data), s') \<Rightarrow> (Ret (Ok (None, PubReplace key data)), s')
      | (Ret (Err e), s') \<Rightarrow> (Ret (Err e), s')
      | (Panic, s') \<Rightarrow> (Panic, s'))"

definition update_activity_owned ::
  "'s store_ops \<Rightarrow> route_key \<Rightarrow> timestamp \<Rightarrow> 's \<Rightarrow> pending call \<times> 's" where
  "update_activity_owned ops key at s =
     (case store_update_activity ops key at s of
        (Ret (Ok _), s') \<Rightarrow> (Ret (Ok (None, PubUpdate key at)), s')
      | (Ret (Err e), s') \<Rightarrow> (Ret (Err e), s')
      | (Panic, s') \<Rightarrow> (Panic, s'))"

definition delete_owned :: "'s store_ops \<Rightarrow> route_key \<Rightarrow> 's \<Rightarrow> pending call \<times> 's" where
  "delete_owned ops key s =
     (case store_delete ops key s of
        (Ret (Ok deleted), s') \<Rightarrow> (Ret (Ok (deleted, PubRemove key)), s')
      | (Ret (Err e), s') \<Rightarrow> (Ret (Err e), s')
      | (Panic, s') \<Rightarrow> (Panic, s'))"

definition persist_observed_activity ::
  "'s store_ops \<Rightarrow> 's registry \<Rightarrow> route_key \<Rightarrow> timestamp \<Rightarrow> 's \<Rightarrow> pending call \<times> 's" where
  "persist_observed_activity ops seen key at s =
     (case registry_get seen key of
        None \<Rightarrow> (Ret (Ok (None, PubNone)), s)
      | Some current \<Rightarrow>
          (case store_update_activity ops key (max (last_activity current) at) s of
             (Ret (Ok _), s') \<Rightarrow> (Ret (Ok (None, PubNone)), s')
           | (Ret (Err e), s') \<Rightarrow> (Ret (Err e), s')
           | (Panic, s') \<Rightarrow> (Panic, s')))"

text \<open>The five entry points of the registry that run a mutation.\<close>

datatype mutation =
    MAdd route_key string json_map
  | MPut route_key route_data
  | MUpdateActivity route_key timestamp
  | MDelete route_key
  | MPersistObserved route_key timestamp

fun operation_of :: "mutation \<Rightarrow> mutation_operation" where
  "operation_of (MAdd key tgt x) = OpAdd"
| "operation_of (MPut key data) = OpPut"
| "operation_of (MUpdateActivity key at) = OpUpdateActivity"
| "operation_of (MDelete key) = OpDelete"
| "operation_of (MPersistObserved key at) = OpUpdateActivity"

fun backend_half ::
  "'s store_ops \<Rightarrow> timestamp \<Rightarrow> (nat \<Rightarrow> 's registry option) \<Rightarrow> 's registry \<Rightarrow> mutation \<Rightarrow> 's
   \<Rightarrow> pending call \<times> 's" where
  "backend_half ops now upgraded seen (MAdd key tgt x) s = add_owned ops now upgraded key tgt x s"
| "backend_half ops now upgraded seen (MPut key data) s = put_owned ops upgraded key data s"
| "backend_half ops now upgraded seen (MUpdateActivity key at) s = update_activity_owned ops key at s"
| "backend_half ops now upgraded seen (MDelete key) s = delete_owned ops key s"
| "backend_half ops now upgraded seen (MPersistObserved key at) s =
     persist_observed_activity ops seen key at s"

definition publish :: "publication \<Rightarrow> 's registry \<Rightarrow> 's registry" where
  "publish p reg =
     (case p of
        PubNone \<Rightarrow> reg
      | _ \<Rightarrow> reg\<lparr>reg_snapshot :=
                 from_ordered_routes (apply_publication p (snap_routes (reg_snapshot reg)))\<rparr>)"

text \<open>
  \<open>run_mutation\<close> as the task runs it when nothing else happens meanwhile: admission, the
  fence against a terminally failed registry, the supervised mutation with its publication, the
  seals for an indeterminate result and for a panic, and the diagnostic of a detached caller.
\<close>

datatype mutation_end = Completed "(store_error, route_data option) result" | Panicked

definition runtime_unavailable_message :: "mutation_operation \<Rightarrow> string" where
  "runtime_unavailable_message op =
     ''route '' @ operation_name op @ '' mutation could not start: Tokio runtime unavailable''"

fun result_of :: "mutation_operation \<Rightarrow> mutation_end \<Rightarrow> (store_error, route_data option) result" where
  "result_of op (Completed result) = result"
| "result_of op Panicked = Err (store_error_message (panic_message op))"

fun seal_for :: "mutation_end \<Rightarrow> tracker_state \<Rightarrow> tracker_state" where
  "seal_for (Completed (Err (Indeterminate operation))) t = indeterminate_seal t"
| "seal_for (Completed result) t = t"
| "seal_for Panicked t = panic_seal t"

fun finish_end :: "mutation_operation \<Rightarrow> bool \<Rightarrow> mutation_end \<Rightarrow> tracker_state \<Rightarrow> tracker_state" where
  "finish_end op detached (Completed result) t =
     tracker_finish
       (case result of
          Ok r \<Rightarrow> None
        | Err e \<Rightarrow> if detached then Some \<lparr>failure_operation = op, failure_error = e\<rparr> else None)
       None t"
| "finish_end op detached Panicked t =
     tracker_finish None
       (if detached then Some \<lparr>panic_operation = op, panic_text = panic_message op\<rparr> else None) t"

definition supervised ::
  "'s store_ops \<Rightarrow> timestamp \<Rightarrow> mutation \<Rightarrow> 's registry \<Rightarrow> mutation_end \<times> 's registry" where
  "supervised ops now m reg =
     (case reject_if_terminally_failed (reg_tracker reg) of
        Err e \<Rightarrow> (Completed (Err e), reg)
      | Ok _ \<Rightarrow>
          (case backend_half ops now (\<lambda>_. Some reg) reg m (reg_store reg) of
             (Ret (Ok (r, p)), s') \<Rightarrow> (Completed (Ok r), publish p (reg\<lparr>reg_store := s'\<rparr>))
           | (Ret (Err e), s') \<Rightarrow> (Completed (Err e), reg\<lparr>reg_store := s'\<rparr>)
           | (Panic, s') \<Rightarrow> (Panicked, reg\<lparr>reg_store := s'\<rparr>)))"

definition run_mutation ::
  "'s store_ops \<Rightarrow> bool \<Rightarrow> bool \<Rightarrow> timestamp \<Rightarrow> mutation \<Rightarrow> 's registry
   \<Rightarrow> (store_error, route_data option) result \<times> 's registry" where
  "run_mutation ops runtime detached now m reg =
     (case tracker_begin (reg_tracker reg) of
        (Err e, t) \<Rightarrow> (Err e, reg\<lparr>reg_tracker := t\<rparr>)
      | (Ok _, t) \<Rightarrow>
          if \<not> runtime then
            (Err (store_error_message (runtime_unavailable_message (operation_of m))),
             reg\<lparr>reg_tracker := tracker_finish None None t\<rparr>)
          else
            (case supervised ops now m (reg\<lparr>reg_tracker := t\<rparr>) of
               (outcome, reg') \<Rightarrow>
                 (result_of (operation_of m) outcome,
                  reg'\<lparr>reg_tracker :=
                     finish_end (operation_of m) detached outcome
                       (seal_for outcome (reg_tracker reg'))\<rparr>)))"

section \<open>Publication is atomic\<close>

lemma cell_id_fold: "cell_id (fold cell_apply fs c) = cell_id c + length fs"
  by (induction fs arbitrary: c) (simp_all add: cell_apply_def cell_store_def)

lemma merge_and_publish_eq:
  "merge_and_publish f rounds c =
     cell_apply f (fold cell_apply (concat (takeWhile (\<lambda>others. others \<noteq> []) rounds)) c)"
  by (induction f rounds c rule: merge_and_publish.induct)
    (auto simp: Let_def cell_id_fold cell_apply_def[symmetric])

lemma observe_loop_eq:
  "\<exists>n. case observe_loop k at rounds c of (b, c') \<Rightarrow>
     (let c0 = fold cell_apply (concat (take n rounds)) c;
          old = bt_get k (by_key (snap_routes (cell_value c0)))
      in (b \<longleftrightarrow> (\<exists>d. old = Some d \<and> last_activity d < at))
         \<and> c' = (if b then cell_apply (or_update_activity k at) c0 else c0))"
proof (induction k at rounds c rule: observe_loop.induct)
  case (1 key at rounds current)
  let ?old = "bt_get key (by_key (snap_routes (cell_value current)))"
  show ?case
  proof (cases "\<exists>d. ?old = Some d \<and> last_activity d < at")
    case False
    then show ?thesis by (intro exI[of _ 0]) (auto simp: Let_def split: option.splits)
  next
    case True
    then obtain d where d: "?old = Some d" "last_activity d < at" by blast
    show ?thesis
    proof (cases "rounds = [] \<or> hd rounds = []")
      case True
      then show ?thesis
        using d by (intro exI[of _ 0]) (auto simp: Let_def cell_apply_def neq_Nil_conv split: list.splits)
    next
      case False
      then obtain others rest where r: "rounds = others # rest" "others \<noteq> []"
        by (cases rounds) auto
      then have id: "cell_id current \<noteq> cell_id (fold cell_apply others current)"
        by (simp add: cell_id_fold)
      have "\<not> at \<le> last_activity d" using d(2) by simp
      from 1[OF d(1) this refl r(1) refl id] obtain n where
        IH: "case observe_loop key at rest (fold cell_apply others current) of (b, c') \<Rightarrow>
          (let c0 = fold cell_apply (concat (take n rest)) (fold cell_apply others current);
               old = bt_get key (by_key (snap_routes (cell_value c0)))
           in (b \<longleftrightarrow> (\<exists>d. old = Some d \<and> last_activity d < at))
              \<and> c' = (if b then cell_apply (or_update_activity key at) c0 else c0))" by (rule exE)
      have "observe_loop key at rounds current = observe_loop key at rest (fold cell_apply others current)"
        using d r(1) id by (simp add: Let_def)
      with IH r(1) show ?thesis by (intro exI[of _ "Suc n"]) (simp add: Let_def)
    qed
  qed
qed

text \<open>
  C7. The compare-and-swap publication loses no update: the outcome is that of applying the
  mutation once, on top of everything other threads published before the successful swap, and the
  loop retries exactly through the rounds in which somebody else published.
\<close>

theorem merge_and_publish_atomic:
  "snap_routes (cell_value (merge_and_publish f rounds c)) =
     f (fold (\<lambda>g. g) (concat (takeWhile (\<lambda>others. others \<noteq> []) rounds)) (snap_routes (cell_value c)))
   \<and> cell_value (merge_and_publish f rounds c) =
       from_ordered_routes (snap_routes (cell_value (merge_and_publish f rounds c)))"
proof -
  have "snap_routes (cell_value (fold cell_apply fs c)) = fold (\<lambda>g. g) fs (snap_routes (cell_value c))" for fs
    by (induction fs arbitrary: c) (simp_all add: cell_apply_def cell_store_def from_ordered_routes_def)
  then show ?thesis
    by (simp add: merge_and_publish_eq cell_apply_def cell_store_def from_ordered_routes_def)
qed

text \<open>An activity observation is atomic: it takes effect on some state between its start and its
  end, it reports \<open>True\<close> exactly when the route then exists with an older timestamp, and it
  never moves a timestamp backwards.
\<close>

theorem observe_activity_atomic:
  assumes "\<not> is_indeterminate t" "observe_activity k at rounds t c = (b, c')"
  shows "\<exists>n. let c0 = fold cell_apply (concat (take n rounds)) c;
               old = route_of (snap_routes (cell_value c0)) k
             in (b \<longleftrightarrow> (\<exists>d. old = Some d \<and> last_activity d < at))
                \<and> (if b then route_of (snap_routes (cell_value c')) k
                              = map_option (\<lambda>d. d\<lparr>last_activity := at\<rparr>) old
                   else c' = c0)"
proof -
  from observe_loop_eq[where k = k and at = at and rounds = rounds and c = c] assms obtain n where
    "let c0 = fold cell_apply (concat (take n rounds)) c;
         old = bt_get k (by_key (snap_routes (cell_value c0)))
     in (b \<longleftrightarrow> (\<exists>d. old = Some d \<and> last_activity d < at))
        \<and> c' = (if b then cell_apply (or_update_activity k at) c0 else c0)"
    by (auto simp: observe_activity_def)
  then show ?thesis
    by (intro exI[of _ n])
      (auto simp: Let_def route_of_def[symmetric] cell_apply_def cell_store_def
        from_ordered_routes_def route_of_update max_absorb2 split: if_splits)
qed

definition sample_cell :: cell where
  "sample_cell = \<lparr>cell_id = 0, cell_value = from_ordered_routes sample_routes\<rparr>"

theorem observe_activity_atomic_witness:
  "\<exists>c'. observe_activity (RouteKey ''/a'') 9 [] tracker_default sample_cell = (True, c')
      \<and> route_of (snap_routes (cell_value c')) (RouteKey ''/a'')
          = Some \<lparr>target = ''t1'', last_activity = 9, extra = []\<rparr>"
proof -
  obtain b c' where o: "observe_activity (RouteKey ''/a'') 9 [] tracker_default sample_cell = (b, c')"
    by (rule prod.exhaust)
  have ni: "\<not> is_indeterminate tracker_default" by (simp add: is_indeterminate_def tracker_default_def)
  have old: "route_of (snap_routes (cell_value sample_cell)) (RouteKey ''/a'')
      = Some \<lparr>target = ''t1'', last_activity = 3, extra = []\<rparr>" by code_simp
  from observe_activity_atomic[OF ni o] have b
    and "route_of (snap_routes (cell_value c')) (RouteKey ''/a'')
          = Some \<lparr>target = ''t1'', last_activity = 9, extra = []\<rparr>"
    by (simp_all add: old Let_def)
  with o show ?thesis by simp
qed

end
