(* ===== verification/Registry_Tasks.thy ===== *)
theory Registry_Tasks
  imports Route_Registry
begin

text \<open>
  The registry under concurrency (\<open>run_mutation\<close> in \<open>src/src/route_table.rs\<close>): mutation
  tasks that queue for the mutation lock, run the backend call, publish, classify the result and
  answer their caller, interleaved with activity observations, drains, callers that stop waiting
  and tasks that the runtime aborts. A publication and an observation are single steps here; that
  the compare-and-swap loops justify this is shown with the registry.
\<close>

section \<open>Tasks and configurations\<close>

datatype phase =
    Queued
  | Running "route_snapshot list"
  | Committed pending
  | Resolved mutation_end
  | Responding mutation_end
  | Finished

record task =
  t_mutation :: mutation
  t_phase :: phase
  t_waiting :: bool

record 's reg_sys =
  sys_reg :: "'s registry"
  tasks :: "nat \<Rightarrow> task option"
  next_task :: nat
  lock_holder :: "nat option"
  aborted :: bool

text \<open>
  Keys are normalized by construction (\<open>RouteKey\<close> has no other constructor), extension maps are
  ordered maps, and the callers strip the two reserved members from them.
\<close>

fun mutation_ok :: "mutation \<Rightarrow> bool" where
  "mutation_ok (MAdd key tgt x) = (key_wf key \<and> extra_ok x)"
| "mutation_ok (MPut key data) = (key_wf key \<and> extra_ok (extra data))"
| "mutation_ok (MUpdateActivity key at) = key_wf key"
| "mutation_ok (MDelete key) = key_wf key"
| "mutation_ok (MPersistObserved key at) = key_wf key"

definition set_phase :: "nat \<Rightarrow> phase \<Rightarrow> 's reg_sys \<Rightarrow> 's reg_sys" where
  "set_phase i ph c =
     c\<lparr>tasks := (tasks c)(i := map_option (\<lambda>t. t\<lparr>t_phase := ph\<rparr>) (tasks c i))\<rparr>"

definition set_tracker :: "tracker_state \<Rightarrow> 's reg_sys \<Rightarrow> 's reg_sys" where
  "set_tracker t c = c\<lparr>sys_reg := (sys_reg c)\<lparr>reg_tracker := t\<rparr>\<rparr>"

definition set_store :: "'s \<Rightarrow> 's reg_sys \<Rightarrow> 's reg_sys" where
  "set_store s c = c\<lparr>sys_reg := (sys_reg c)\<lparr>reg_store := s\<rparr>\<rparr>"

abbreviation tracker_of :: "'s reg_sys \<Rightarrow> tracker_state" where
  "tracker_of c \<equiv> reg_tracker (sys_reg c)"

abbreviation store_of :: "'s reg_sys \<Rightarrow> 's" where
  "store_of c \<equiv> reg_store (sys_reg c)"

abbreviation routes_in :: "'s reg_sys \<Rightarrow> ordered_routes" where
  "routes_in c \<equiv> snap_routes (reg_snapshot (sys_reg c))"

text \<open>
  What a running mutation can see of the registry: the snapshot at the time it took the lock and
  every snapshot published by an observation since then.
\<close>

fun see :: "route_snapshot \<Rightarrow> phase \<Rightarrow> phase" where
  "see s (Running seen) = Running (s # seen)"
| "see s ph = ph"

definition view_ok :: "'s registry \<Rightarrow> route_snapshot list \<Rightarrow> 's registry \<Rightarrow> bool" where
  "view_ok reg seen v \<longleftrightarrow> (\<exists>s \<in> set seen. v = reg\<lparr>reg_snapshot := s\<rparr>)"

section \<open>Steps\<close>

inductive reg_step :: "'s store_ops \<Rightarrow> 's reg_sys \<Rightarrow> 's reg_sys \<Rightarrow> bool"
  for ops :: "'s store_ops" where
  admit: "\<lbrakk>tracker_begin (tracker_of c) = (Ok (), t); mutation_ok m\<rbrakk> \<Longrightarrow>
    reg_step ops c (set_tracker t (c\<lparr>
      tasks := (tasks c)(next_task c \<mapsto> \<lparr>t_mutation = m, t_phase = Queued, t_waiting = True\<rparr>),
      next_task := Suc (next_task c)\<rparr>))"
| no_runtime: "tracker_begin (tracker_of c) = (Ok (), t) \<Longrightarrow>
    reg_step ops c (set_tracker (tracker_finish None None t) c)"
| acquire: "\<lbrakk>lock_holder c = None; tasks c i = Some t; t_phase t = Queued;
      reject_if_terminally_failed (tracker_of c) = Ok ()\<rbrakk> \<Longrightarrow>
    reg_step ops c (set_phase i (Running [reg_snapshot (sys_reg c)]) (c\<lparr>lock_holder := Some i\<rparr>))"
| acquire_rejected: "\<lbrakk>lock_holder c = None; tasks c i = Some t; t_phase t = Queued;
      reject_if_terminally_failed (tracker_of c) = Err e\<rbrakk> \<Longrightarrow>
    reg_step ops c (set_phase i (Resolved (Completed (Err e))) (c\<lparr>lock_holder := Some i\<rparr>))"
| backend_ok: "\<lbrakk>tasks c i = Some t; t_phase t = Running seen;
      \<forall>n. \<exists>v. upgraded n = Some v \<and> view_ok (sys_reg c) seen v; view_ok (sys_reg c) seen view;
      backend_half ops now upgraded view (t_mutation t) (store_of c) = (Ret (Ok p), s')\<rbrakk> \<Longrightarrow>
    reg_step ops c (set_phase i (Committed p) (set_store s' c))"
| backend_err: "\<lbrakk>tasks c i = Some t; t_phase t = Running seen;
      \<forall>n. \<exists>v. upgraded n = Some v \<and> view_ok (sys_reg c) seen v; view_ok (sys_reg c) seen view;
      backend_half ops now upgraded view (t_mutation t) (store_of c) = (Ret (Err e), s')\<rbrakk> \<Longrightarrow>
    reg_step ops c (set_phase i (Resolved (Completed (Err e))) (set_store s' c))"
| backend_panic: "\<lbrakk>tasks c i = Some t; t_phase t = Running seen;
      \<forall>n. \<exists>v. upgraded n = Some v \<and> view_ok (sys_reg c) seen v; view_ok (sys_reg c) seen view;
      backend_half ops now upgraded view (t_mutation t) (store_of c) = (Panic, s')\<rbrakk> \<Longrightarrow>
    reg_step ops c (set_phase i (Resolved Panicked) (set_store s' c))"
| publish: "\<lbrakk>tasks c i = Some t; t_phase t = Committed (r, p)\<rbrakk> \<Longrightarrow>
    reg_step ops c (set_phase i (Resolved (Completed (Ok r))) (c\<lparr>sys_reg := publish p (sys_reg c)\<rparr>))"
| classify: "\<lbrakk>tasks c i = Some t; t_phase t = Resolved out\<rbrakk> \<Longrightarrow>
    reg_step ops c (set_phase i (Responding out) (set_tracker (seal_for out (tracker_of c)) c))"
| acknowledged: "\<lbrakk>tasks c i = Some t; t_phase t = Responding out; t_waiting t\<rbrakk> \<Longrightarrow>
    reg_step ops c (set_phase i Finished
      (set_tracker (finish_end (operation_of (t_mutation t)) False out (tracker_of c)) c))"
| detached: "\<lbrakk>tasks c i = Some t; t_phase t = Responding out; \<not> t_waiting t\<rbrakk> \<Longrightarrow>
    reg_step ops c (set_phase i Finished
      (set_tracker (finish_end (operation_of (t_mutation t)) True out (tracker_of c)) c))"
| unlock: "\<lbrakk>tasks c i = Some t; t_phase t = Finished\<rbrakk> \<Longrightarrow>
    reg_step ops c (c\<lparr>tasks := (tasks c)(i := None), lock_holder := None\<rparr>)"
| caller_drop: "tasks c i = Some t \<Longrightarrow>
    reg_step ops c (c\<lparr>tasks := (tasks c)(i \<mapsto> t\<lparr>t_waiting := False\<rparr>)\<rparr>)"
| abort: "\<lbrakk>tasks c i = Some t; t_phase t \<noteq> Finished\<rbrakk> \<Longrightarrow>
    reg_step ops c (set_tracker (active_mutation_drop (operation_of (t_mutation t)) (tracker_of c))
      (c\<lparr>tasks := (tasks c)(i := None),
         lock_holder := (if lock_holder c = Some i then None else lock_holder c), aborted := True\<rparr>))"
| observe: "\<lbrakk>route_of (routes_in c) k = Some d; last_activity d < at;
      s = from_ordered_routes (or_update_activity k at (routes_in c))\<rbrakk> \<Longrightarrow>
    reg_step ops c (c\<lparr>sys_reg := (sys_reg c)\<lparr>reg_snapshot := s\<rparr>,
      tasks := (\<lambda>i. map_option (\<lambda>t. t\<lparr>t_phase := see s (t_phase t)\<rparr>) (tasks c i))\<rparr>)"
| drain_entered: "reg_step ops c (set_tracker (snd (drain_enter (tracker_of c))) c)"
| drain_checked: "reg_step ops c (set_tracker (snd (drain_check (tracker_of c))) c)"
| drain_expired: "reg_step ops c (set_tracker (snd (drain_deadline (tracker_of c))) c)"

inductive_cases reg_stepE: "reg_step ops c c'"

definition sys_init :: "'s registry \<Rightarrow> 's reg_sys" where
  "sys_init reg = \<lparr>sys_reg = reg, tasks = Map.empty, next_task = 0, lock_holder = None, aborted = False\<rparr>"

section \<open>Frame rules\<close>

lemma set_phase_frame [simp]:
  "sys_reg (set_phase i ph c) = sys_reg c" "next_task (set_phase i ph c) = next_task c"
  "lock_holder (set_phase i ph c) = lock_holder c" "aborted (set_phase i ph c) = aborted c"
  "tasks (set_phase i ph c) = (tasks c)(i := map_option (\<lambda>t. t\<lparr>t_phase := ph\<rparr>) (tasks c i))"
  by (simp_all add: set_phase_def)

lemma set_tracker_frame [simp]:
  "reg_tracker (sys_reg (set_tracker t c)) = t" "reg_store (sys_reg (set_tracker t c)) = reg_store (sys_reg c)"
  "reg_snapshot (sys_reg (set_tracker t c)) = reg_snapshot (sys_reg c)"
  "next_task (set_tracker t c) = next_task c" "lock_holder (set_tracker t c) = lock_holder c"
  "aborted (set_tracker t c) = aborted c" "tasks (set_tracker t c) = tasks c"
  by (simp_all add: set_tracker_def)

lemma set_store_frame [simp]:
  "reg_tracker (sys_reg (set_store s c)) = reg_tracker (sys_reg c)" "reg_store (sys_reg (set_store s c)) = s"
  "reg_snapshot (sys_reg (set_store s c)) = reg_snapshot (sys_reg c)"
  "next_task (set_store s c) = next_task c" "lock_holder (set_store s c) = lock_holder c"
  "aborted (set_store s c) = aborted c" "tasks (set_store s c) = tasks c"
  by (simp_all add: set_store_def)

lemma see_frame [simp]:
  "see s ph = Queued \<longleftrightarrow> ph = Queued" "see s ph = Finished \<longleftrightarrow> ph = Finished"
  "see s ph = Committed p \<longleftrightarrow> ph = Committed p" "see s ph = Resolved out \<longleftrightarrow> ph = Resolved out"
  "see s ph = Responding out \<longleftrightarrow> ph = Responding out"
  by (cases ph; simp)+

lemma publish_frame [simp]:
  "reg_tracker (Route_Registry.publish p reg) = reg_tracker reg"
  "reg_store (Route_Registry.publish p reg) = reg_store reg"
  by (simp_all add: publish_def split: publication.splits)

lemma drain_seal_frame:
  "seal (snd (drain_enter s)) = (if seal s = SealOpen then SealShutdown else seal s)"
  "active (snd (drain_enter s)) = active s"
  "active (snd (drain_check s)) = active s" "active (snd (drain_deadline s)) = active s"
  by (simp_all add: drain_enter_def drain_check_def drain_deadline_def Let_def take_outcome_def)

lemma finish_end_frame [simp]:
  "seal (finish_end op det out t) = seal t" "active (finish_end op det out t) = saturating_sub1 (active t)"
  by (cases out; simp)+

lemma active_mutation_drop_frame [simp]:
  "seal (active_mutation_drop op t) = seal t" "active (active_mutation_drop op t) = saturating_sub1 (active t)"
  by (simp_all add: active_mutation_drop_def)

lemma tracker_begin_Ok: "tracker_begin s = (Ok u, t) \<longleftrightarrow>
    seal s = SealOpen \<and> t = s\<lparr>active := saturating_add1 (active s)\<rparr>"
  by (cases "seal s") (auto simp: tracker_begin_def)

lemma seal_for_frame [simp]: "active (seal_for out t) = active t"
  by (cases "(out, t)" rule: seal_for.cases) simp_all

section \<open>Mutual exclusion\<close>

definition lock_at :: "'s reg_sys \<Rightarrow> nat \<Rightarrow> bool" where
  "lock_at c j \<longleftrightarrow>
     (case tasks c j of
        None \<Rightarrow> lock_holder c \<noteq> Some j
      | Some t \<Rightarrow> (t_phase t \<noteq> Queued \<longleftrightarrow> lock_holder c = Some j)
                  \<and> j < next_task c \<and> mutation_ok (t_mutation t))"

definition inv_lock :: "'s reg_sys \<Rightarrow> bool" where
  "inv_lock c \<longleftrightarrow> (\<forall>j. lock_at c j)"

lemma inv_lockD:
  assumes "inv_lock c" "tasks c j = Some t"
  shows "t_phase t \<noteq> Queued \<longleftrightarrow> lock_holder c = Some j" "j < next_task c" "mutation_ok (t_mutation t)"
  using assms by (auto simp: inv_lock_def lock_at_def dest: spec[of _ j])

lemma lock_at_step:
  assumes "reg_step ops c c'" "\<And>j. lock_at c j"
  shows "lock_at c' j"
  using assms(1)
proof cases
  case (admit t m)
  then show ?thesis using assms(2)[of j] assms(2)[of "next_task c"]
    by (auto simp: lock_at_def split: option.splits if_splits)
next
  case (acquire i t)
  then show ?thesis using assms(2)[of j] assms(2)[of i]
    by (auto simp: lock_at_def split: option.splits if_splits)
next
  case (acquire_rejected i t e)
  then show ?thesis using assms(2)[of j] assms(2)[of i]
    by (auto simp: lock_at_def split: option.splits if_splits)
next
  case (unlock i t)
  then show ?thesis using assms(2)[of j] assms(2)[of i]
    by (auto simp: lock_at_def split: option.splits if_splits)
next
  case (abort i t)
  then show ?thesis using assms(2)[of j] assms(2)[of i]
    by (auto simp: lock_at_def split: option.splits if_splits)
next
  case (observe k d at s)
  then show ?thesis using assms(2)[of j] by (simp add: lock_at_def split: option.splits)
qed (insert assms(2)[of j], auto simp: lock_at_def split: option.splits if_splits)

lemma inv_lock_step: "reg_step ops c c' \<Longrightarrow> inv_lock c \<Longrightarrow> inv_lock c'"
  using lock_at_step[of ops c c'] by (simp add: inv_lock_def)

lemma inv_lock_init: "inv_lock (sys_init reg)"
  by (simp add: inv_lock_def lock_at_def sys_init_def)

lemma inv_lock_reach: "(reg_step ops)\<^sup>*\<^sup>* (sys_init reg) c \<Longrightarrow> inv_lock c"
  by (induction rule: rtranclp_induct) (auto intro: inv_lock_init inv_lock_step)

section \<open>The published snapshot\<close>

definition snapshot_wf :: "route_snapshot \<Rightarrow> bool" where
  "snapshot_wf s \<longleftrightarrow> ordered_wf (snap_routes s) \<and> s = from_ordered_routes (snap_routes s)"

lemma snap_routes_from [simp]: "snap_routes (from_ordered_routes r) = r"
  by (simp add: from_ordered_routes_def)

lemma snapshot_wf_from: "snapshot_wf (from_ordered_routes r) \<longleftrightarrow> ordered_wf r"
  by (simp add: snapshot_wf_def)

lemma ordered_wf_publication: "ordered_wf r \<Longrightarrow> ordered_wf (apply_publication p r)"
  by (cases p) (simp_all add: ordered_wf_ops)

lemma routes_publish:
  "snap_routes (reg_snapshot (Route_Registry.publish p reg))
     = apply_publication p (snap_routes (reg_snapshot reg))"
  by (cases p) (simp_all add: publish_def)

lemma snapshot_wf_publish:
  "snapshot_wf (reg_snapshot reg) \<Longrightarrow> snapshot_wf (reg_snapshot (Route_Registry.publish p reg))"
  using ordered_wf_publication[of "snap_routes (reg_snapshot reg)" p]
  by (cases p) (simp_all add: publish_def snapshot_wf_from snapshot_wf_def)

lemma snapshot_wf_step:
  "reg_step ops c c' \<Longrightarrow> snapshot_wf (reg_snapshot (sys_reg c)) \<Longrightarrow> snapshot_wf (reg_snapshot (sys_reg c'))"
proof (induction rule: reg_step.induct)
  case (publish c i t r p)
  then show ?case by (simp add: snapshot_wf_publish)
next
  case (observe c k d at s)
  then show ?case by (simp add: snapshot_wf_from snapshot_wf_def ordered_wf_update)
qed simp_all

section \<open>The fence after a terminal failure\<close>

definition terminal :: "mutation_seal \<Rightarrow> bool" where
  "terminal sl \<longleftrightarrow> sl = SealBackendPanic \<or> sl = SealIndeterminate"

fun terminal_end :: "mutation_end \<Rightarrow> bool" where
  "terminal_end (Completed (Err (Indeterminate operation))) = True"
| "terminal_end (Completed result) = False"
| "terminal_end Panicked = True"

fun fenced_phase :: "phase \<Rightarrow> bool" where
  "fenced_phase (Running seen) = False"
| "fenced_phase (Committed p) = False"
| "fenced_phase (Resolved out) = (\<not> terminal_end out)"
| "fenced_phase ph = True"

definition fenced :: "'s reg_sys \<Rightarrow> bool" where
  "fenced c \<longleftrightarrow> (terminal (seal (tracker_of c)) \<longrightarrow>
     (\<forall>j t. tasks c j = Some t \<longrightarrow> fenced_phase (t_phase t)))"

lemma fenced_see [simp]: "fenced_phase (see s ph) = fenced_phase ph"
  by (cases ph) simp_all

lemma seal_for_nonterminal: "\<not> terminal_end out \<Longrightarrow> seal_for out t = t"
  by (cases out rule: terminal_end.cases) simp_all

lemma seal_for_terminal: "terminal_end out \<Longrightarrow> terminal (seal (seal_for out t))"
  by (cases out rule: terminal_end.cases) (simp_all add: terminal_def)

lemma reject_Ok: "reject_if_terminally_failed t = Ok u \<longleftrightarrow> \<not> terminal (seal t)"
  by (cases "seal t") (simp_all add: reject_if_terminally_failed_def terminal_def)

lemma reject_Err: "reject_if_terminally_failed t = Err e \<Longrightarrow> terminal (seal t) \<and> \<not> is_indeterminate_error e"
  by (cases "seal t")
    (auto simp: reject_if_terminally_failed_def terminal_def store_error_message_def)

lemma not_terminal_end_message: "\<not> is_indeterminate_error e \<Longrightarrow> \<not> terminal_end (Completed (Err e))"
  by (cases e) simp_all

lemma other_queued:
  assumes "inv_lock c" "tasks c i = Some t" "t_phase t \<noteq> Queued" "tasks c j = Some t'" "j \<noteq> i"
  shows "t_phase t' = Queued"
  using inv_lockD(1)[OF assms(1,2)] inv_lockD(1)[OF assms(1,4)] assms(3,5) by auto

lemma fenced_running:
  "fenced c \<Longrightarrow> tasks c i = Some t \<Longrightarrow> \<not> fenced_phase (t_phase t) \<Longrightarrow> \<not> terminal (seal (tracker_of c))"
  by (auto simp: fenced_def)

lemma fenced_step:
  assumes "reg_step ops c c'" "inv_lock c" "fenced c"
  shows "fenced c'"
  using assms(1)
proof cases
  case (classify i t out)
  show ?thesis
  proof (cases "terminal_end out")
    case True
    have "fenced_phase (t_phase t')" if "tasks c' j = Some t'" for j t'
      using that classify other_queued[OF assms(2) classify(2), of j t']
      by (cases "j = i") auto
    then show ?thesis by (simp add: fenced_def)
  next
    case False
    then show ?thesis using assms(3) classify by (auto simp: fenced_def seal_for_nonterminal)
  qed
next
  case (acquire_rejected i t e)
  then show ?thesis
    using assms(3) reject_Err[of "tracker_of c" e]
    by (auto simp: fenced_def not_terminal_end_message)
next
  case (backend_ok i t)
  then show ?thesis using fenced_running[OF assms(3) backend_ok(2)] by (simp add: fenced_def)
next
  case (backend_err i t)
  then show ?thesis using fenced_running[OF assms(3) backend_err(2)] by (simp add: fenced_def)
next
  case (backend_panic i t)
  then show ?thesis using fenced_running[OF assms(3) backend_panic(2)] by (simp add: fenced_def)
next
  case drain_entered
  then show ?thesis using assms(3) by (auto simp: fenced_def drain_seal_frame terminal_def split: if_splits)
next
  case drain_checked
  then show ?thesis using assms(3) by (auto simp: fenced_def drain_check_frame)
next
  case drain_expired
  then show ?thesis using assms(3) by (auto simp: fenced_def drain_deadline_frame)
qed (use assms(3) in \<open>auto simp: fenced_def reject_Ok tracker_begin_Ok split: if_splits\<close>)

lemma fenced_init: "fenced (sys_init reg)"
  by (simp add: fenced_def sys_init_def)

lemma fenced_reach: "(reg_step ops)\<^sup>*\<^sup>* (sys_init reg) c \<Longrightarrow> fenced c"
  by (induction rule: rtranclp_induct)
    (auto intro: fenced_init fenced_step inv_lock_reach)

text \<open>A terminally sealed registry keeps its seal and its backend.\<close>

lemma terminal_step:
  assumes "reg_step ops c c'" "fenced c" "terminal (seal (tracker_of c))"
  shows "seal (tracker_of c') = seal (tracker_of c) \<and> store_of c' = store_of c"
  using assms(1)
proof cases
  case (backend_ok i t)
  then show ?thesis using fenced_running[OF assms(2) backend_ok(2)] assms(3) by simp
next
  case (backend_err i t)
  then show ?thesis using fenced_running[OF assms(2) backend_err(2)] assms(3) by simp
next
  case (backend_panic i t)
  then show ?thesis using fenced_running[OF assms(2) backend_panic(2)] assms(3) by simp
next
  case (classify i t out)
  then have "\<not> terminal_end out" using fenced_running[OF assms(2) classify(2)] assms(3) by auto
  then show ?thesis using classify by (simp add: seal_for_nonterminal)
qed (use assms(3) in \<open>auto simp: tracker_begin_Ok terminal_def drain_seal_frame drain_check_frame
      drain_deadline_frame split: if_splits\<close>)

section \<open>The count of admitted mutations\<close>

definition live :: "'s reg_sys \<Rightarrow> nat set" where
  "live c = {i. \<exists>t. tasks c i = Some t \<and> t_phase t \<noteq> Finished}"

definition inv_active :: "'s reg_sys \<Rightarrow> bool" where
  "inv_active c \<longleftrightarrow> (next_task c < 2 ^ 64 - 1 \<longrightarrow> unat (active (tracker_of c)) = card (live c))"

lemma live_bound: "inv_lock c \<Longrightarrow> live c \<subseteq> {..<next_task c}"
  by (auto simp: live_def dest: inv_lockD(2))

lemma live_finite: "inv_lock c \<Longrightarrow> finite (live c)"
  using live_bound[of c] finite_subset by blast

lemma live_card: "inv_lock c \<Longrightarrow> card (live c) \<le> next_task c"
  using card_mono[OF _ live_bound[of c]] by simp

lemma live_admit:
  assumes "inv_lock c"
  shows "card (insert (next_task c) (live c)) = Suc (card (live c))"
  using live_bound[OF assms] live_finite[OF assms] by (subst card_insert_disjoint) auto

lemma live_finish:
  assumes "inv_lock c" "tasks c i = Some t" "t_phase t \<noteq> Finished"
  shows "card (live c - {i}) = card (live c) - 1"
  using assms live_finite[OF assms(1)] by (subst card_Diff_singleton) (auto simp: live_def)

lemma live_frames:
  "tasks c i = Some t \<Longrightarrow> t_phase t \<noteq> Finished \<Longrightarrow> ph \<noteq> Finished \<Longrightarrow> live (set_phase i ph c) = live c"
  "live (set_phase i Finished c) = live c - {i}"
  "live (set_tracker tr c) = live c" "live (set_store s c) = live c"
  "live (c\<lparr>lock_holder := l\<rparr>) = live c" "live (c\<lparr>sys_reg := rg\<rparr>) = live c"
  by (auto simp: live_def)

lemma live_cong: "tasks c' = tasks c \<Longrightarrow> live c' = live c"
  by (simp add: live_def)

lemma inv_active_step:
  assumes "reg_step ops c c'" "inv_lock c" "inv_active c"
  shows "inv_active c'"
  using assms(1)
proof cases
  case (admit t m)
  then have "live c' = insert (next_task c) (live c)" by (auto simp: live_def)
  moreover have "unat (active (tracker_of c)) < 2 ^ 64 - 1" if "Suc (next_task c) < 2 ^ 64 - 1"
    using that assms(3) live_card[OF assms(2)] by (simp add: inv_active_def)
  ultimately show ?thesis
    using admit assms(3) live_admit[OF assms(2)]
    by (auto simp: inv_active_def tracker_begin_Ok unat_saturating_add1)
next
  case (no_runtime t)
  have "active (tracker_of c) \<noteq> - 1" if "next_task c < 2 ^ 64 - 1"
    using that assms(3) live_card[OF assms(2)] by (intro not_minus_one) (simp add: inv_active_def)
  then show ?thesis
    using no_runtime assms(3) by (auto simp: inv_active_def tracker_begin_Ok live_frames)
next
  case (acknowledged i t out)
  then show ?thesis using assms(3) live_finish[OF assms(2) acknowledged(2)]
    by (simp add: inv_active_def unat_saturating_sub1 live_frames)
next
  case (detached i t out)
  then show ?thesis using assms(3) live_finish[OF assms(2) detached(2)]
    by (simp add: inv_active_def unat_saturating_sub1 live_frames)
next
  case (unlock i t)
  then have "live c' = live c" by (auto simp: live_def)
  then show ?thesis using unlock assms(3) by (simp add: inv_active_def)
next
  case (caller_drop i t)
  then have "live c' = live c" by (auto simp: live_def)
  then show ?thesis using caller_drop assms(3) by (simp add: inv_active_def)
next
  case (abort i t)
  then have "live c' = live c - {i}" by (auto simp: live_def)
  then show ?thesis using abort assms(3) live_finish[OF assms(2) abort(2)]
    by (simp add: inv_active_def unat_saturating_sub1)
next
  case (observe k d at s)
  then have "live c' = live c" by (auto simp: live_def)
  then show ?thesis using observe assms(3) by (simp add: inv_active_def)
qed (use assms(3) in \<open>simp_all add: inv_active_def live_frames drain_seal_frame\<close>)

lemma inv_active_reach:
  assumes "(reg_step ops)\<^sup>*\<^sup>* (sys_init reg) c" "active (reg_tracker reg) = 0"
  shows "inv_active c"
  using assms(1)
proof (induction rule: rtranclp_induct)
  case base
  then show ?case using assms(2) by (simp add: inv_active_def live_def sys_init_def)
next
  case (step c c')
  then show ?case by (auto intro: inv_active_step inv_lock_reach)
qed

section \<open>Backend and snapshot agree\<close>

text \<open>
  The persistent part of a route is everything but its activity timestamp: the snapshot may be
  ahead of the backend in activity, because observations are published first.
\<close>

definition skeleton :: "(route_key \<Rightarrow> route_data option) \<Rightarrow> route_key \<Rightarrow> (string \<times> json_map) option" where
  "skeleton m k = map_option (\<lambda>d. (target d, extra d)) (m k)"

fun skeleton_after :: "publication \<Rightarrow> (route_key \<Rightarrow> (string \<times> json_map) option)
    \<Rightarrow> route_key \<Rightarrow> (string \<times> json_map) option" where
  "skeleton_after (PubReplace key data) f = f(key \<mapsto> (target data, extra data))"
| "skeleton_after (PubRemove key) f = f(key := None)"
| "skeleton_after p f = f"

lemma skeleton_publication:
  "skeleton (route_of (apply_publication p r)) = skeleton_after p (skeleton (route_of r))"
  by (cases p) (auto simp: skeleton_def fun_eq_iff route_of_ops option.map_comp comp_def)

lemma skeleton_update: "skeleton (route_of (or_update_activity k at r)) = skeleton (route_of r)"
  by (auto simp: skeleton_def fun_eq_iff route_of_ops option.map_comp comp_def)

fun calm_phase :: "phase \<Rightarrow> bool" where
  "calm_phase (Resolved out) = (\<not> terminal_end out)"
| "calm_phase ph = True"

definition calm_at :: "'s reg_sys \<Rightarrow> nat \<Rightarrow> bool" where
  "calm_at c j \<longleftrightarrow> (case tasks c j of None \<Rightarrow> True | Some t \<Rightarrow> calm_phase (t_phase t))"

definition healthy :: "'s reg_sys \<Rightarrow> bool" where
  "healthy c \<longleftrightarrow> \<not> aborted c \<and> \<not> terminal (seal (tracker_of c)) \<and> (\<forall>j. calm_at c j)"

fun pending_publication :: "phase \<Rightarrow> publication" where
  "pending_publication (Committed (r, p)) = p"
| "pending_publication ph = PubNone"

definition holder_publication :: "'s reg_sys \<Rightarrow> publication" where
  "holder_publication c =
     (case lock_holder c of
        None \<Rightarrow> PubNone
      | Some i \<Rightarrow> (case tasks c i of None \<Rightarrow> PubNone | Some t \<Rightarrow> pending_publication (t_phase t)))"

lemma pending_publication_see [simp]: "pending_publication (see s ph) = pending_publication ph"
  by (cases ph) simp_all

lemma calm_phase_see [simp]: "calm_phase (see s ph) = calm_phase ph"
  by (cases ph) simp_all

lemma calm_step:
  assumes "reg_step ops c c'" "\<not> aborted c'" "\<not> terminal (seal (tracker_of c'))" "calm_at c' j"
    and "inv_lock c"
  shows "calm_at c j"
  using assms(1)
proof cases
  case (admit t m)
  then show ?thesis using assms(4) inv_lockD(2)[OF assms(5), of j]
    by (cases "j = next_task c") (auto simp: calm_at_def split: option.splits)
next
  case (classify i t out)
  then have "\<not> terminal_end out" using assms(3) seal_for_terminal[of out "tracker_of c"] by auto
  then show ?thesis using classify assms(4) by (auto simp: calm_at_def split: if_splits)
next
  case (observe k d at s)
  then show ?thesis using assms(4) by (simp add: calm_at_def split: option.splits)
next
  case (abort i t)
  then show ?thesis using assms(2) by simp
qed (use assms(4) in \<open>auto simp: calm_at_def split: if_splits option.splits\<close>)

lemma terminal_back:
  assumes "reg_step ops c c'" "fenced c" "\<not> terminal (seal (tracker_of c'))"
  shows "\<not> terminal (seal (tracker_of c))"
  using terminal_step[OF assms(1,2)] assms(3) by auto

lemma aborted_back: "reg_step ops c c' \<Longrightarrow> \<not> aborted c' \<Longrightarrow> \<not> aborted c"
  by (induction rule: reg_step.induct) simp_all

lemma healthy_step:
  "reg_step ops c c' \<Longrightarrow> inv_lock c \<Longrightarrow> fenced c \<Longrightarrow> healthy c' \<Longrightarrow> healthy c"
  unfolding healthy_def by (blast intro: calm_step dest: terminal_back aborted_back)

lemma holder_phase:
  assumes "inv_lock c" "tasks c i = Some t" "t_phase t \<noteq> Queued"
  shows "lock_holder c = Some i" "holder_publication c = pending_publication (t_phase t)"
  using inv_lockD(1)[OF assms(1,2)] assms(2,3) by (simp_all add: holder_publication_def)

lemma holder_set_phase:
  "lock_holder c = Some i \<Longrightarrow> tasks c i = Some t \<Longrightarrow>
   holder_publication (set_phase i ph c) = pending_publication ph"
  by (simp add: holder_publication_def)

lemma holder_frames [simp]:
  "holder_publication (set_tracker tr c) = holder_publication c"
  "holder_publication (set_store s c) = holder_publication c"
  "holder_publication (c\<lparr>sys_reg := rg\<rparr>) = holder_publication c"
  by (simp_all add: holder_publication_def split: option.split)

lemma skeleton_simps [simp]:
  "skeleton (f(k \<mapsto> d)) = (skeleton f)(k \<mapsto> (target d, extra d))"
  "skeleton (f(k := None)) = (skeleton f)(k := None)"
  "skeleton (f(k := map_option (touch at) (f k))) = skeleton f"
  by (auto simp: skeleton_def fun_eq_iff option.map_comp comp_def)

lemma skeleton_after_PubNone [simp]: "skeleton_after PubNone f = f"
  by simp

context route_store
begin

lemma backend_half_ok:
  assumes "ready s" "mutation_ok m" "backend_half ops now up seen m s = (Ret (Ok (r, p)), s')"
  shows "ready s' \<and> skeleton (routes_of s') = skeleton_after p (skeleton (routes_of s))"
proof (cases m)
  case (MAdd k tgt x)
  with assms obtain d where "store_add ops now k tgt x (activity_floor_of up k) s = (Ret (Ok d), s')"
    "p = PubReplace k d" by (auto simp: add_owned_def split: prod.splits call.splits result.splits)
  then show ?thesis using add_ok[OF assms(1), of k x] assms(2) MAdd by auto
next
  case (MPut k d0)
  with assms obtain d where
    "store_put_preserving_activity ops k d0 (activity_floor_of up k) s = (Ret (Ok d), s')"
    "p = PubReplace k d" by (auto simp: put_owned_def split: prod.splits call.splits result.splits)
  then show ?thesis using put_ok[OF assms(1), of k d0] assms(2) MPut by auto
next
  case (MUpdateActivity k at)
  with assms obtain u where "store_update_activity ops k at s = (Ret (Ok u), s')" "p = PubUpdate k at"
    by (auto simp: update_activity_owned_def split: prod.splits call.splits result.splits)
  then show ?thesis using update_ok[OF assms(1), of k at] assms(2) MUpdateActivity by auto
next
  case (MDelete k)
  with assms obtain d where "store_delete ops k s = (Ret (Ok d), s')" "p = PubRemove k"
    by (auto simp: delete_owned_def split: prod.splits call.splits result.splits)
  then show ?thesis using delete_ok[OF assms(1), of k] assms(2) MDelete by auto
next
  case (MPersistObserved k at)
  show ?thesis
  proof (cases "registry_get seen k")
    case None
    then show ?thesis using assms MPersistObserved by (auto simp: persist_observed_activity_def)
  next
    case (Some d)
    with assms MPersistObserved obtain u where p: "p = PubNone"
      "store_update_activity ops k (max (last_activity d) at) s = (Ret (Ok u), s')"
      by (auto simp: persist_observed_activity_def split: prod.splits call.splits result.splits)
    then show ?thesis using update_ok[OF assms(1), of k] assms(2) MPersistObserved by auto
  qed
qed

lemma backend_half_err:
  assumes "ready s" "backend_half ops now up seen m s = (Ret (Err e), s')" "ordinary e"
  shows "ready s' \<and> routes_of s' = routes_of s"
proof (cases m)
  case (MAdd k tgt x)
  then show ?thesis using assms add_err[OF assms(1)]
    by (auto simp: add_owned_def split: prod.splits call.splits result.splits)
next
  case (MPut k d)
  then show ?thesis using assms put_err[OF assms(1)]
    by (auto simp: put_owned_def split: prod.splits call.splits result.splits)
next
  case (MUpdateActivity k at)
  then show ?thesis using assms update_err[OF assms(1)]
    by (auto simp: update_activity_owned_def split: prod.splits call.splits result.splits)
next
  case (MDelete k)
  then show ?thesis using assms delete_err[OF assms(1)]
    by (auto simp: delete_owned_def split: prod.splits call.splits result.splits)
next
  case (MPersistObserved k at)
  then show ?thesis using assms update_err[OF assms(1)]
    by (auto simp: persist_observed_activity_def split: prod.splits call.splits result.splits option.splits)
qed

definition agree :: "'s reg_sys \<Rightarrow> bool" where
  "agree c \<longleftrightarrow> ready (store_of c) \<and>
     skeleton (routes_of (store_of c)) =
       skeleton_after (holder_publication c) (skeleton (route_of (routes_in c)))"

lemma agree_step:
  assumes "reg_step ops c c'" "inv_lock c" "agree c" "healthy c'"
  shows "agree c'"
  using assms(1)
proof cases
  case (admit t m)
  have "holder_publication c' = holder_publication c"
    using admit inv_lockD(2)[OF assms(2)]
    by (auto simp: holder_publication_def set_tracker_def split: option.splits)
  then show ?thesis using assms(3) admit by (simp add: agree_def)
next
  case (acquire i t)
  then have "holder_publication c = PubNone" "holder_publication c' = PubNone"
    by (simp_all add: holder_publication_def)
  then show ?thesis using assms(3) acquire by (simp add: agree_def)
next
  case (acquire_rejected i t e)
  then have "holder_publication c = PubNone" "holder_publication c' = PubNone"
    by (simp_all add: holder_publication_def)
  then show ?thesis using assms(3) acquire_rejected by (simp add: agree_def)
next
  case (backend_ok i t seen up view now p s')
  note h = holder_phase[OF assms(2) backend_ok(2)]
  obtain r q where p: "p = (r, q)" by (cases p)
  have "holder_publication c' = q" "holder_publication c = PubNone"
    using h backend_ok by (simp_all add: holder_set_phase p)
  then show ?thesis
    using assms(3) backend_half_ok[OF _ inv_lockD(3)[OF assms(2) backend_ok(2)], of _ now up view r q s']
      backend_ok by (auto simp: agree_def p)
next
  case (backend_err i t seen up view now e s')
  note h = holder_phase[OF assms(2) backend_err(2)]
  have "calm_at c' i" using assms(4) by (simp add: healthy_def)
  then have "ordinary e" using backend_err by (cases e) (simp_all add: calm_at_def ordinary_def)
  moreover have "holder_publication c' = PubNone" "holder_publication c = PubNone"
    using h backend_err by (simp_all add: holder_set_phase)
  ultimately show ?thesis
    using assms(3) backend_half_err[of "store_of c" now up view "t_mutation t" e s'] backend_err
    by (auto simp: agree_def)
next
  case (backend_panic i t seen up view now s')
  have "calm_at c' i" using assms(4) by (simp add: healthy_def)
  then show ?thesis using backend_panic by (simp add: calm_at_def)
next
  case (publish i t r p)
  note h = holder_phase[OF assms(2) publish(2)]
  have "holder_publication c' = PubNone" "holder_publication c = p"
    using h publish by (simp_all add: holder_set_phase)
  then show ?thesis using assms(3) publish
    by (simp add: agree_def routes_publish skeleton_publication)
next
  case (classify i t out)
  note h = holder_phase[OF assms(2) classify(2)]
  have "holder_publication c' = PubNone" "holder_publication c = PubNone"
    using h classify by (simp_all add: holder_set_phase)
  then show ?thesis using assms(3) classify by (simp add: agree_def)
next
  case (acknowledged i t out)
  note h = holder_phase[OF assms(2) acknowledged(2)]
  have "holder_publication c' = PubNone" "holder_publication c = PubNone"
    using h acknowledged by (simp_all add: holder_set_phase)
  then show ?thesis using assms(3) acknowledged by (simp add: agree_def)
next
  case (detached i t out)
  note h = holder_phase[OF assms(2) detached(2)]
  have "holder_publication c' = PubNone" "holder_publication c = PubNone"
    using h detached by (simp_all add: holder_set_phase)
  then show ?thesis using assms(3) detached by (simp add: agree_def)
next
  case (unlock i t)
  note h = holder_phase[OF assms(2) unlock(2)]
  have "holder_publication c' = PubNone" "holder_publication c = PubNone"
    using h unlock by (simp_all add: holder_publication_def)
  then show ?thesis using assms(3) unlock by (simp add: agree_def)
next
  case (caller_drop i t)
  then have "holder_publication c' = holder_publication c"
    by (simp add: holder_publication_def split: option.splits)
  then show ?thesis using assms(3) caller_drop by (simp add: agree_def)
next
  case (abort i t)
  then show ?thesis using assms(4) by (simp add: healthy_def)
next
  case (observe k d at s)
  then have "holder_publication c' = holder_publication c"
    by (simp add: holder_publication_def split: option.splits)
  then show ?thesis using assms(3) observe by (simp add: agree_def skeleton_update)
qed (use assms(3) in \<open>simp_all add: agree_def\<close>)

lemma agree_reach:
  assumes "(reg_step ops)\<^sup>*\<^sup>* (sys_init reg) c" "healthy c"
    and "ready (reg_store reg)"
    and "skeleton (routes_of (reg_store reg)) = skeleton (route_of (snap_routes (reg_snapshot reg)))"
  shows "agree c"
  using assms(1,2)
proof (induction rule: rtranclp_induct)
  case base
  then show ?case using assms(3,4) by (simp add: agree_def sys_init_def holder_publication_def)
next
  case (step c c')
  have inv: "inv_lock c" "fenced c" using step.hyps(1) by (rule inv_lock_reach, rule fenced_reach)
  then have "healthy c" using step.hyps(2) step.prems by (blast intro: healthy_step)
  then show ?case using agree_step[OF step.hyps(2) inv(1)] step by blast
qed

end

section \<open>The sequential run is a run of the task system\<close>

definition idle :: "'s registry \<Rightarrow> nat \<Rightarrow> 's reg_sys" where
  "idle reg n = \<lparr>sys_reg = reg, tasks = Map.empty, next_task = n, lock_holder = None, aborted = False\<rparr>"

definition single :: "'s registry \<Rightarrow> nat \<Rightarrow> mutation \<Rightarrow> phase \<Rightarrow> bool \<Rightarrow> nat option \<Rightarrow> 's reg_sys" where
  "single reg n m ph w l =
     \<lparr>sys_reg = reg, tasks = [n \<mapsto> \<lparr>t_mutation = m, t_phase = ph, t_waiting = w\<rparr>],
      next_task = Suc n, lock_holder = l, aborted = False\<rparr>"

lemmas single_defs = single_def idle_def set_phase_def set_tracker_def set_store_def

lemma single_admit:
  assumes "tracker_begin (reg_tracker reg) = (Ok (), t)" "mutation_ok m"
  shows "(reg_step ops)\<^sup>*\<^sup>* (idle reg n) (single (reg\<lparr>reg_tracker := t\<rparr>) n m Queued w None)"
proof -
  have a: "reg_step ops (idle reg n) (single (reg\<lparr>reg_tracker := t\<rparr>) n m Queued True None)"
    using admit[of "idle reg n" t m ops] assms by (simp add: single_defs)
  have d: "reg_step ops (single rg n m Queued True None) (single rg n m Queued False None)" for rg
    using caller_drop[of "single rg n m Queued True None" n _ ops] by (simp add: single_defs)
  show ?thesis
    using a d[of "reg\<lparr>reg_tracker := t\<rparr>"] by (cases w) (auto intro: rtranclp.rtrancl_into_rtrancl)
qed

lemma single_finish:
  "(reg_step ops)\<^sup>*\<^sup>* (single reg n m (Resolved out) (\<not> det) (Some n))
     (idle (reg\<lparr>reg_tracker := finish_end (operation_of m) det out (seal_for out (reg_tracker reg))\<rparr>) (Suc n))"
proof -
  let ?rg = "reg\<lparr>reg_tracker := seal_for out (reg_tracker reg)\<rparr>"
  let ?rf = "reg\<lparr>reg_tracker := finish_end (operation_of m) det out (seal_for out (reg_tracker reg))\<rparr>"
  have "reg_step ops (single reg n m (Resolved out) (\<not> det) (Some n))
      (single ?rg n m (Responding out) (\<not> det) (Some n))"
    using classify[of "single reg n m (Resolved out) (\<not> det) (Some n)" n _ out ops]
    by (simp add: single_defs)
  moreover have "reg_step ops (single ?rg n m (Responding out) (\<not> det) (Some n))
      (single ?rf n m Finished (\<not> det) (Some n))"
    using acknowledged[of "single ?rg n m (Responding out) (\<not> det) (Some n)" n _ out ops]
      detached[of "single ?rg n m (Responding out) (\<not> det) (Some n)" n _ out ops]
    by (cases det) (simp_all add: single_defs)
  moreover have "reg_step ops (single ?rf n m Finished (\<not> det) (Some n)) (idle ?rf (Suc n))"
    using unlock[of "single ?rf n m Finished (\<not> det) (Some n)" n _ ops] by (simp add: single_defs)
  ultimately show ?thesis
    by (blast intro: converse_rtranclp_into_rtranclp)
qed

lemma single_supervised:
  assumes "supervised ops now m reg = (out, reg')"
  shows "(reg_step ops)\<^sup>*\<^sup>* (single reg n m Queued w None) (single reg' n m (Resolved out) w (Some n))"
proof (cases "reject_if_terminally_failed (reg_tracker reg)")
  case (Err e)
  then have "reg_step ops (single reg n m Queued w None)
      (single reg n m (Resolved (Completed (Err e))) w (Some n))"
    using acquire_rejected[of "single reg n m Queued w None" n _ e ops] by (simp add: single_defs)
  then show ?thesis using assms Err by (auto simp: supervised_def)
next
  case (Ok u)
  let ?seen = "[reg_snapshot reg]"
  have run: "reg_step ops (single reg n m Queued w None) (single reg n m (Running ?seen) w (Some n))"
    using acquire[of "single reg n m Queued w None" n _ ops] Ok by (simp add: single_defs)
  have v: "view_ok reg ?seen reg" by (simp add: view_ok_def)
  obtain res s' where b: "backend_half ops now (\<lambda>_. Some reg) reg m (reg_store reg) = (res, s')"
    by (rule prod.exhaust)
  let ?r = "single reg n m (Running ?seen) w (Some n)"
  have "(reg_step ops)\<^sup>*\<^sup>* ?r (single reg' n m (Resolved out) w (Some n))"
  proof (cases res)
    case Panic
    then have "reg_step ops ?r (single reg' n m (Resolved out) w (Some n))"
      using backend_panic[of ?r n _ ?seen "\<lambda>_. Some reg" reg ops now s'] b v assms Ok
      by (auto simp: single_defs supervised_def)
    then show ?thesis by blast
  next
    case (Ret x)
    show ?thesis
    proof (cases x)
      case (Err e)
      then have "reg_step ops ?r (single reg' n m (Resolved out) w (Some n))"
        using backend_err[of ?r n _ ?seen "\<lambda>_. Some reg" reg ops now e s'] b v assms Ok Ret
        by (auto simp: single_defs supervised_def)
      then show ?thesis by blast
    next
      case (Ok rp)
      obtain r p where rp: "rp = (r, p)" by (cases rp)
      let ?c = "single (reg\<lparr>reg_store := s'\<rparr>) n m (Committed (r, p)) w (Some n)"
      have "reg_step ops ?r ?c"
        using backend_ok[of ?r n _ ?seen "\<lambda>_. Some reg" reg ops now "(r, p)" s'] b v Ret Ok rp
        by (simp add: single_defs)
      moreover have "reg_step ops ?c (single reg' n m (Resolved out) w (Some n))"
        using publish[of ?c n _ r p ops] b assms Ret Ok rp \<open>reject_if_terminally_failed (reg_tracker reg) = Ok u\<close>
        by (auto simp: single_defs supervised_def)
      ultimately show ?thesis by (blast intro: converse_rtranclp_into_rtranclp)
    qed
  qed
  with run show ?thesis by (rule converse_rtranclp_into_rtranclp)
qed

lemma run_mutation_steps:
  assumes "mutation_ok m"
  shows "\<exists>n'. (reg_step ops)\<^sup>*\<^sup>* (idle reg n) (idle (snd (run_mutation ops rt det now m reg)) n')"
proof (cases "tracker_begin (reg_tracker reg)")
  case (Pair res t)
  show ?thesis
  proof (cases res)
    case (Err e)
    then have "t = reg_tracker reg"
      using Pair tracker_begin_sealed[of "reg_tracker reg"] tracker_begin_Ok[of "reg_tracker reg"]
      by (cases "seal (reg_tracker reg)") (auto simp: tracker_begin_def)
    then show ?thesis using Pair Err by (auto simp: run_mutation_def)
  next
    case (Ok u)
    show ?thesis
    proof (cases rt)
      case False
      have "reg_step ops (idle reg n) (idle (reg\<lparr>reg_tracker := tracker_finish None None t\<rparr>) n)"
        using no_runtime[of "idle reg n" t ops] Pair Ok by (simp add: single_defs)
      then show ?thesis using Pair Ok False by (auto simp: run_mutation_def)
    next
      case True
      obtain out reg' where o: "supervised ops now m (reg\<lparr>reg_tracker := t\<rparr>) = (out, reg')"
        by (rule prod.exhaust)
      have "(reg_step ops)\<^sup>*\<^sup>* (idle reg n) (single (reg\<lparr>reg_tracker := t\<rparr>) n m Queued (\<not> det) None)"
        using single_admit[of reg t m ops n "\<not> det"] Pair Ok assms by simp
      also note single_supervised[OF o, of n "\<not> det"]
      also note single_finish[of ops reg' n m out det]
      finally show ?thesis using Pair Ok True o by (auto simp: run_mutation_def)
    qed
  qed
qed

end
