(* ===== verification/Registry_Safety.thy ===== *)
theory Registry_Safety
  imports Registry_Tasks
begin

text \<open>
  What the route registry promises its clients under every interleaving: agreement of backend and
  snapshot, the fail-stop behaviour after an uncertain mutation, quiescence after a drain,
  monotone activity, and that the sequential \<open>run_mutation\<close> is one of the interleavings.
\<close>

section \<open>Loading\<close>

lemma load_agrees:
  assumes "route_store ops routes_of ready" "ready s0" "registry_load ops s0 = (Ret (Ok reg), s1)"
  shows "ready (reg_store reg)"
    and "route_of (snap_routes (reg_snapshot reg)) = routes_of (reg_store reg)"
    and "reg_tracker reg = tracker_default" and "snapshot_wf (reg_snapshot reg)"
proof -
  obtain m where m: "store_snapshot ops s0 = (Ret (Ok m), s1)"
    and reg: "reg = \<lparr>reg_store = s1, reg_snapshot = from_routes m, reg_tracker = tracker_default\<rparr>"
    using assms(3) by (auto simp: registry_load_def split: prod.splits call.splits result.splits)
  note law = route_store.snapshot_ok[OF assms(1,2) m]
  then show "ready (reg_store reg)" "reg_tracker reg = tracker_default" by (simp_all add: reg)
  show "route_of (snap_routes (reg_snapshot reg)) = routes_of (reg_store reg)"
    using law by (simp add: reg from_routes_def fun_eq_iff)
  show "snapshot_wf (reg_snapshot reg)"
    using law by (simp add: reg from_routes_def snapshot_wf_from ordered_wf_from_sorted)
qed

section \<open>A concrete backend for the examples\<close>

definition empty_registry :: "memory_store registry" where
  "empty_registry = \<lparr>reg_store = memory_new, reg_snapshot = from_routes [], reg_tracker = tracker_default\<rparr>"

lemma empty_registry_load:
  "registry_load (memory_ops None) memory_new = (Ret (Ok empty_registry), memory_new)"
  by (simp add: registry_load_def memory_defs memory_new_def empty_registry_def)

lemma sys_init_idle: "sys_init reg = idle reg 0"
  by (simp add: sys_init_def idle_def)

definition sample_add :: mutation where
  "sample_add = MAdd (normalize ''/hub'') ''http://127.0.0.1:8000'' []"

lemma sample_add_ok: "mutation_ok sample_add"
  by (simp add: sample_add_def extra_ok_def clean_extra_def bt_contains_def)

definition sample_registry :: "memory_store registry" where
  "sample_registry = snd (run_mutation (memory_ops None) True False 7 sample_add empty_registry)"

lemma sample_reach: "\<exists>n. (reg_step (memory_ops None))\<^sup>*\<^sup>* (sys_init empty_registry) (idle sample_registry n)"
  unfolding sys_init_idle sample_registry_def by (rule run_mutation_steps[OF sample_add_ok])

lemma sample_registry_route:
  "route_of (snap_routes (reg_snapshot sample_registry)) (RouteKey ''/hub'') =
     Some \<lparr>target = ''http://127.0.0.1:8000'', last_activity = 7, extra = []\<rparr>"
  "seal (reg_tracker sample_registry) = SealOpen"
  by code_simp+

section \<open>Agreement\<close>

text \<open>
  C1. Whatever mutations, observations, drains and cancelled callers are interleaved, once no
  mutation holds the lock the published snapshot has exactly the backend's routes, with the same
  targets and extension members, for every backend that keeps the store contract, as long as no
  mutation has ended in an indeterminate result, a panic or a task abort.
\<close>

theorem registry_agrees_with_backend:
  assumes "route_store ops routes_of ready" "ready s0"
    and "registry_load ops s0 = (Ret (Ok reg), s1)"
    and "(reg_step ops)\<^sup>*\<^sup>* (sys_init reg) c"
    and "\<not> aborted c" "\<not> terminal (seal (tracker_of c))" "lock_holder c = None"
  shows "skeleton (routes_of (store_of c)) = skeleton (route_of (routes_in c))"
proof -
  have "calm_at c j" for j
    using inv_lockD(1)[OF inv_lock_reach[OF assms(4)], of j] assms(7)
    by (auto simp: calm_at_def split: option.splits)
  then have "healthy c" using assms(5,6) by (simp add: healthy_def)
  then have "route_store.agree routes_of ready c"
    using route_store.agree_reach[OF assms(1,4)] load_agrees[OF assms(1-3)] by simp
  then show ?thesis
    using assms(7) by (simp add: route_store.agree_def[OF assms(1)] holder_publication_def)
qed

theorem registry_agrees_with_backend_witness:
  "skeleton (\<lambda>k. bt_get k (reg_store sample_registry)) (RouteKey ''/hub'')
     = Some (''http://127.0.0.1:8000'', [])"
proof -
  obtain n where reach: "(reg_step (memory_ops None))\<^sup>*\<^sup>* (sys_init empty_registry) (idle sample_registry n)"
    using sample_reach by blast
  have "skeleton (\<lambda>k. bt_get k (store_of (idle sample_registry n)))
      = skeleton (route_of (routes_in (idle sample_registry n)))"
    by (rule registry_agrees_with_backend[OF mem.route_store_axioms _ empty_registry_load reach])
      (simp_all add: idle_def memory_new_def sample_registry_route terminal_def)
  then show ?thesis
    by (simp add: idle_def skeleton_def sample_registry_route)
qed

section \<open>Fail-stop\<close>

lemma terminal_steps:
  assumes "(reg_step ops)\<^sup>*\<^sup>* c c'" "inv_lock c" "fenced c" "terminal (seal (tracker_of c))"
  shows "seal (tracker_of c') = seal (tracker_of c) \<and> store_of c' = store_of c \<and> inv_lock c' \<and> fenced c'"
  using assms(1)
proof (induction rule: rtranclp_induct)
  case (step d e)
  then have "seal (tracker_of e) = seal (tracker_of d) \<and> store_of e = store_of d"
    using assms(4) by (intro terminal_step) auto
  with step show ?case by (auto intro: inv_lock_step fenced_step)
qed (use assms in simp)

text \<open>
  C2. After a backend panic or an indeterminate mutation the registry is stopped for good: no
  later step, of any queued or newly submitted mutation, calls the backend in a way that changes
  it, reopens admission or changes the seal; and after an indeterminate mutation no read serves a
  route.
\<close>

theorem registry_fail_stop:
  assumes "(reg_step ops)\<^sup>*\<^sup>* (sys_init reg) c" "terminal (seal (tracker_of c))"
    and "(reg_step ops)\<^sup>*\<^sup>* c c'"
  shows "seal (tracker_of c') = seal (tracker_of c) \<and> store_of c' = store_of c
    \<and> \<not> is_ok (fst (tracker_begin (tracker_of c')))
    \<and> (seal (tracker_of c) = SealIndeterminate \<longrightarrow>
         registry_get (sys_reg c') k = None \<and> registry_all (sys_reg c') = []
         \<and> registry_resolve (sys_reg c') path = None)"
proof -
  have "seal (tracker_of c') = seal (tracker_of c)" and "store_of c' = store_of c"
    using terminal_steps[OF assms(3) inv_lock_reach[OF assms(1)] fenced_reach[OF assms(1)] assms(2)]
    by auto
  moreover have "seal (tracker_of c') \<noteq> SealOpen"
    using calculation(1) assms(2) by (auto simp: terminal_def)
  ultimately show ?thesis
    using tracker_begin_sealed[of "tracker_of c'"]
    by (auto simp: registry_get_def registry_all_def registry_resolve_def is_indeterminate_def)
qed

definition uncertain_ops :: "memory_store store_ops" where
  "uncertain_ops = (memory_ops None)
     \<lparr>store_delete := \<lambda>k s. (Ret (Err (Indeterminate ''delete'')), bt_remove k s)\<rparr>"

definition uncertain_registry :: "memory_store registry" where
  "uncertain_registry =
     snd (run_mutation uncertain_ops True False 7 (MDelete (normalize ''/hub'')) sample_registry)"

theorem registry_fail_stop_witness:
  "registry_get (snd (run_mutation uncertain_ops True False 9 sample_add uncertain_registry))
     (RouteKey ''/hub'') = None"
proof -
  obtain n where r1: "(reg_step uncertain_ops)\<^sup>*\<^sup>* (sys_init sample_registry) (idle uncertain_registry n)"
    using run_mutation_steps[of "MDelete (normalize ''/hub'')" uncertain_ops sample_registry 0 True False 7]
    by (auto simp: uncertain_registry_def sys_init_idle)
  obtain n' where r2: "(reg_step uncertain_ops)\<^sup>*\<^sup>* (idle uncertain_registry n)
      (idle (snd (run_mutation uncertain_ops True False 9 sample_add uncertain_registry)) n')"
    using run_mutation_steps[OF sample_add_ok] by blast
  have sealed: "seal (reg_tracker uncertain_registry) = SealIndeterminate" by code_simp
  then have t: "terminal (seal (tracker_of (idle uncertain_registry n)))"
    by (simp add: idle_def terminal_def)
  from registry_fail_stop[OF r1 t r2, of "RouteKey ''/hub''"] sealed show ?thesis
    by (simp add: idle_def)
qed

section \<open>Drained\<close>

lemma live_empty_task: "live c = {} \<Longrightarrow> tasks c i = Some t \<Longrightarrow> t_phase t = Finished"
  by (auto simp: live_def)

lemma drained_step:
  assumes "reg_step ops c c'" "seal (tracker_of c) \<noteq> SealOpen" "live c = {}"
  shows "seal (tracker_of c') \<noteq> SealOpen \<and> live c' = {} \<and> store_of c' = store_of c"
  using assms(1)
proof cases
  case (caller_drop i t)
  then show ?thesis using assms(2) live_empty_task[OF assms(3), of i t] assms(3)
    by (auto simp: live_def)
next
  case (unlock i t)
  then show ?thesis using assms(2,3) by (auto simp: live_def)
next
  case (observe k d at s)
  then show ?thesis using assms(2,3) by (auto simp: live_def)
qed (use assms(2) live_empty_task[OF assms(3)] assms(3) in
      \<open>auto simp: tracker_begin_Ok live_frames drain_seal_frame drain_check_frame drain_deadline_frame\<close>)

lemma drained_steps:
  assumes "(reg_step ops)\<^sup>*\<^sup>* c c'" "seal (tracker_of c) \<noteq> SealOpen" "live c = {}"
  shows "seal (tracker_of c') \<noteq> SealOpen \<and> live c' = {} \<and> store_of c' = store_of c"
  using assms(1)
proof (induction rule: rtranclp_induct)
  case (step d e)
  then show ?case using drained_step[of ops d e] by simp
qed (use assms(2,3) in simp)

text \<open>
  C3. The count of active mutations that a status or a drain reports is the number of admitted
  mutations that have not finished, for any interleaving (up to the counter's range); so when a
  drain has sealed the registry and reads zero, the backend is never changed again.
\<close>

theorem drained_registry_is_quiet:
  assumes "(reg_step ops)\<^sup>*\<^sup>* (sys_init reg) c" "reg_tracker reg = tracker_default"
    and "next_task c < 2 ^ 64 - 1"
  shows "unat (status_active (mutation_status_of (sys_reg c))) = card (live c)
    \<and> (seal (tracker_of c) \<noteq> SealOpen \<and> active (tracker_of c) = 0 \<and> (reg_step ops)\<^sup>*\<^sup>* c c' \<longrightarrow>
         store_of c' = store_of c)"
proof -
  have "inv_active c"
    using inv_active_reach[OF assms(1)] assms(2) by (simp add: tracker_default_def)
  then have n: "unat (active (tracker_of c)) = card (live c)" using assms(3) by (simp add: inv_active_def)
  have "live c = {}" if "active (tracker_of c) = 0"
    using n that live_finite[OF inv_lock_reach[OF assms(1)]] by simp
  then show ?thesis
    using n drained_steps[of ops c c']
    by (auto simp: mutation_status_of_def tracker_status_def)
qed

theorem drained_registry_is_quiet_witness:
  "unat (status_active (mutation_status_of (sys_reg (sys_init empty_registry)))) = 0"
  using drained_registry_is_quiet[of "memory_ops None" empty_registry "sys_init empty_registry"
      "sys_init empty_registry"]
  by (simp add: sys_init_def empty_registry_def live_def)

section \<open>Activity\<close>

lemma activity_step:
  assumes "reg_step ops c c'" "route_of (routes_in c) k = Some d" "route_of (routes_in c') k = Some d'"
  shows "last_activity d \<le> last_activity d'"
  using assms(1)
proof cases
  case (publish i t r p)
  then show ?thesis using assms(2,3)
    by (cases p) (auto simp: routes_publish route_of_ops split: if_splits)
next
  case (observe k' d0 at s)
  then show ?thesis using assms(2,3) by (auto simp: route_of_update split: if_splits)
qed (use assms(2,3) in simp_all)

text \<open>
  C6. As long as a route stays published, its activity timestamp never moves backwards: not
  through a replacement, an activity update, a persisted observation or a concurrent observation.
\<close>

theorem published_activity_monotone:
  assumes "(\<lambda>a b. reg_step ops a b \<and> route_of (routes_in b) k \<noteq> None)\<^sup>*\<^sup>* c c'"
    and "route_of (routes_in c) k = Some d" "route_of (routes_in c') k = Some d'"
  shows "last_activity d \<le> last_activity d'"
  using assms(1,3)
proof (induction arbitrary: d' rule: rtranclp_induct)
  case base
  then show ?case using assms(2) by simp
next
  case (step a b)
  from step.hyps(1) obtain da where da: "route_of (routes_in a) k = Some da"
    using assms(2) by (cases rule: rtranclp.cases) auto
  then have "last_activity da \<le> last_activity d'"
    using activity_step[of ops a b k] step by blast
  with step.IH[OF da] show ?case by simp
qed

theorem published_activity_monotone_witness:
  "last_activity (the (route_of (routes_in (idle sample_registry 1)) (RouteKey ''/hub''))) \<le> 12"
proof -
  let ?k = "RouteKey ''/hub''"
  let ?d = "\<lparr>target = ''http://127.0.0.1:8000'', last_activity = 7, extra = []\<rparr>"
  let ?s = "from_ordered_routes (or_update_activity ?k 12 (routes_in (idle sample_registry 1)))"
  let ?c = "(idle sample_registry 1)\<lparr>sys_reg := sample_registry\<lparr>reg_snapshot := ?s\<rparr>, tasks := Map.empty\<rparr>"
  have r: "route_of (routes_in (idle sample_registry 1)) ?k = Some ?d"
    using sample_registry_route by (simp add: idle_def)
  have "reg_step (memory_ops None) (idle sample_registry 1) ?c"
    using observe[of "idle sample_registry 1" ?k ?d 12 ?s "memory_ops None"] r by (simp add: idle_def)
  moreover have r': "route_of (routes_in ?c) ?k = Some (?d\<lparr>last_activity := 12\<rparr>)"
    using r by (simp add: route_of_update)
  ultimately have "(\<lambda>a b. reg_step (memory_ops None) a b \<and> route_of (routes_in b) ?k \<noteq> None)\<^sup>*\<^sup>*
      (idle sample_registry 1) ?c" by (intro r_into_rtranclp) simp
  from published_activity_monotone[OF this r r'] r show ?thesis by simp
qed

section \<open>One mutation from admission to answer\<close>

text \<open>
  C8. Refinement: a mutation run from admission to its answer without interference, whether the
  caller waits or not, with or without a runtime, whatever the backend returns, is a sequence of
  steps of the task system from one idle configuration to another.
\<close>

theorem run_mutation_refines:
  assumes "mutation_ok m"
  shows "\<exists>n'. (reg_step ops)\<^sup>*\<^sup>* (idle reg n) (idle (snd (run_mutation ops rt det now m reg)) n')"
  using assms by (rule run_mutation_steps)

theorem run_mutation_refines_witness:
  "\<exists>n'. (reg_step (memory_ops None))\<^sup>*\<^sup>* (idle empty_registry 0) (idle sample_registry n')"
  using run_mutation_refines[OF sample_add_ok, of "memory_ops None" empty_registry 0 True False 7]
  by (simp add: sample_registry_def)

lemma run_mutation_Ok:
  assumes "run_mutation ops rt det now m reg = (Ok v, reg')"
  obtains t p s' where "rt" "tracker_begin (reg_tracker reg) = (Ok (), t)"
    "backend_half ops now (\<lambda>_. Some (reg\<lparr>reg_tracker := t\<rparr>)) (reg\<lparr>reg_tracker := t\<rparr>) m (reg_store reg)
       = (Ret (Ok (v, p)), s')"
    "reg_store reg' = s'"
    "snap_routes (reg_snapshot reg') = apply_publication p (snap_routes (reg_snapshot reg))"
    "seal (reg_tracker reg') = SealOpen"
  using assms
  by (auto simp: run_mutation_def supervised_def store_error_message_def routes_publish tracker_begin_Ok
      split: prod.splits result.splits if_splits call.splits elim!: result_of.elims)

lemma activity_floor_constant:
  assumes "registry_get reg k = Some old"
  shows "activity_floor_of (\<lambda>_. Some reg) k = floor_fixed (Some (last_activity old))"
  using assms by (simp add: activity_floor_of_def floor_dynamic_def floor_fixed_def)

lemma replacement_effect:
  assumes "floor_store ops routes_of ready" "ready (reg_store reg)" "mutation_ok m"
    and "m = MAdd k t x \<or> m = MPut k \<lparr>target = t, last_activity = at, extra = x\<rparr>"
    and "run_mutation ops rt det now m reg = (Ok v, reg')"
  shows "\<exists>d d'. routes_of (reg_store reg') k = Some d \<and> registry_get reg' k = Some d'
    \<and> target d = t \<and> extra d = x \<and> target d' = t \<and> extra d' = x
    \<and> last_activity d \<le> last_activity d'
    \<and> (\<forall>old. registry_get reg k = Some old \<longrightarrow> last_activity old \<le> last_activity d)"
proof -
  have rs: "route_store ops routes_of ready" using assms(1) by (rule floor_store.axioms(1))
  obtain tr p s' where run: "tracker_begin (reg_tracker reg) = (Ok (), tr)"
    "backend_half ops now (\<lambda>_. Some (reg\<lparr>reg_tracker := tr\<rparr>)) (reg\<lparr>reg_tracker := tr\<rparr>) m (reg_store reg)
       = (Ret (Ok (v, p)), s')"
    "reg_store reg' = s'"
    "snap_routes (reg_snapshot reg') = apply_publication p (snap_routes (reg_snapshot reg))"
    "seal (reg_tracker reg') = SealOpen"
    using assms(5) by (rule run_mutation_Ok)
  let ?reg = "reg\<lparr>reg_tracker := tr\<rparr>"
  let ?fl = "activity_floor_of (\<lambda>_. Some ?reg) k"
  have same: "registry_get ?reg k = registry_get reg k"
    using run(1) by (simp add: registry_get_def is_indeterminate_def tracker_begin_Ok)
  obtain d where d: "p = PubReplace k d" and
    commit: "store_add ops now k t x ?fl (reg_store reg) = (Ret (Ok d), s') \<or>
      store_put_preserving_activity ops k \<lparr>target = t, last_activity = at, extra = x\<rparr> ?fl (reg_store reg)
        = (Ret (Ok d), s')"
    using run(2) assms(4)
    by (auto simp: add_owned_def put_owned_def split: prod.splits call.splits result.splits)
  have ok: "key_wf k" "extra_ok x" using assms(3,4) by auto
  have "routes_of s' = (routes_of (reg_store reg))(k \<mapsto> d) \<and> target d = t \<and> extra d = x"
    using commit route_store.add_ok[OF rs assms(2) ok] ok
      route_store.put_ok[OF rs assms(2), of k "\<lparr>target = t, last_activity = at, extra = x\<rparr>"] by auto
  moreover have "last_activity old \<le> last_activity d" if "registry_get reg k = Some old" for old
    using commit floor_store.add_fixed_floor[OF assms(1,2) ok] ok
      floor_store.put_fixed_floor[OF assms(1,2), of k "\<lparr>target = t, last_activity = at, extra = x\<rparr>"]
      activity_floor_constant[of ?reg k old] that same by auto
  moreover have "registry_get reg' k = route_of (apply_publication p (snap_routes (reg_snapshot reg))) k"
    using run(4,5) by (simp add: registry_get_def is_indeterminate_def route_of_def)
  ultimately show ?thesis
    using run(3) by (auto simp: d route_of_replace_preserving split: option.splits)
qed

text \<open>
  C5. Read your writes, keeping activity: when adding or replacing a route succeeds, the backend
  holds the new target and extension members with an activity at least that of the route it
  replaced, and the registry at once serves the same target and extension members with an
  activity at least the backend's.
\<close>

theorem replacement_keeps_activity:
  assumes "floor_store ops routes_of ready" "ready (reg_store reg)" "mutation_ok m"
    and "m = MAdd k t x \<or> m = MPut k \<lparr>target = t, last_activity = at, extra = x\<rparr>"
    and "run_mutation ops rt det now m reg = (Ok v, reg')"
  shows "\<exists>d d'. routes_of (reg_store reg') k = Some d \<and> registry_get reg' k = Some d'
    \<and> target d = t \<and> extra d = x \<and> target d' = t \<and> extra d' = x
    \<and> last_activity d \<le> last_activity d'
    \<and> (\<forall>old. registry_get reg k = Some old \<longrightarrow> last_activity old \<le> last_activity d)"
  using assms by (rule replacement_effect)

theorem replacement_keeps_activity_witness:
  "\<exists>d. registry_get (snd (run_mutation (memory_ops None) True False 3
       (MAdd (RouteKey ''/hub'') ''http://127.0.0.1:9000'' []) sample_registry)) (RouteKey ''/hub'') = Some d
     \<and> target d = ''http://127.0.0.1:9000'' \<and> 7 \<le> last_activity d"
proof -
  let ?m = "MAdd (RouteKey ''/hub'') ''http://127.0.0.1:9000'' []"
  let ?run = "run_mutation (memory_ops None) True False 3 ?m sample_registry"
  have ok: "mutation_ok ?m" by (simp add: key_wf_def extra_ok_def clean_extra_def bt_contains_def)
  have wf: "bt_wf (reg_store sample_registry)" by code_simp
  have run: "?run = (Ok None, snd ?run)" by code_simp
  have old: "registry_get sample_registry (RouteKey ''/hub'')
      = Some \<lparr>target = ''http://127.0.0.1:8000'', last_activity = 7, extra = []\<rparr>" by code_simp
  from replacement_keeps_activity[OF mem.floor_store_axioms wf ok _ run, of "RouteKey ''/hub''"
      "''http://127.0.0.1:9000''" "[]" 0] old
  show ?thesis by fastforce
qed

end
