(* ===== verification/Activity_Writer.thy ===== *)
theory Activity_Writer
  imports Route_Registry
begin

text \<open>
  \<open>src/src/activity.rs\<close>: the bounded, coalescing persistence of activity observations. A
  record publishes to the registry, enters the bounded pending map and wakes the worker; the
  worker takes one ready key at a time, persists it through the registry and puts the key back when
  newer activity arrived meanwhile; a flush waits for everything accepted before it.

  The critical sections under the pending mutex are functions; the interleaving of recorders,
  worker and flush is a step relation with the wake-up channel (capacity one) and the idle
  notification (a generation count) spelled out.
\<close>

section \<open>Pending activity\<close>

record pending_activity =
  latest :: timestamp
  pending_oldest_sequence :: "u64 option"
  in_flight_oldest_sequence :: "u64 option"

record pending_activities =
  act_by_key :: "(route_key, pending_activity) btree"
  act_ready :: "route_key list"
  accepted_through :: u64

definition pending_default :: pending_activities where
  "pending_default = \<lparr>act_by_key = [], act_ready = [], accepted_through = 0\<rparr>"

definition checked_add1 :: "u64 \<Rightarrow> u64 option" where
  "checked_add1 n = (if n = - 1 then None else Some (n + 1))"

text \<open>
  The critical section of \<open>record_at\<close>. \<open>AcceptPanic\<close> is the exhausted sequence counter.
\<close>

datatype accept_result = NotAccepted | AcceptPanic | Accepted u64 pending_activities

definition accept_observation ::
  "usize \<Rightarrow> route_key \<Rightarrow> timestamp \<Rightarrow> pending_activities \<Rightarrow> accept_result" where
  "accept_observation pending_capacity key at pending =
     (if \<not> (bt_contains key (act_by_key pending)
             \<or> length (act_by_key pending) < unat pending_capacity) then NotAccepted
      else
        (case checked_add1 (accepted_through pending) of
           None \<Rightarrow> AcceptPanic
         | Some sequence \<Rightarrow>
             (let pending = pending\<lparr>accepted_through := sequence\<rparr>
              in (case bt_get key (act_by_key pending) of
                    Some existing \<Rightarrow>
                      Accepted sequence (pending\<lparr>act_by_key := bt_insert key
                        (existing\<lparr>latest := max (latest existing) at,
                                  pending_oldest_sequence :=
                                    (case pending_oldest_sequence existing of
                                       Some s \<Rightarrow> Some s | None \<Rightarrow> Some sequence)\<rparr>)
                        (act_by_key pending)\<rparr>)
                  | None \<Rightarrow>
                      Accepted sequence (pending\<lparr>act_by_key := bt_insert key
                        \<lparr>latest = at, pending_oldest_sequence = Some sequence,
                         in_flight_oldest_sequence = None\<rparr> (act_by_key pending),
                        act_ready := act_ready pending @ [key]\<rparr>)))))"

text \<open>
  The worker takes the next ready key. \<open>TakePanic\<close> is one of the two \<open>expect\<close>s failing.
\<close>

datatype take_result = TakeEmpty | TakePanic | Taken route_key timestamp u64 pending_activities

definition take_ready :: "pending_activities \<Rightarrow> take_result" where
  "take_ready guard =
     (case act_ready guard of
        [] \<Rightarrow> TakeEmpty
      | key # rest \<Rightarrow>
          (case bt_get key (act_by_key guard) of
             None \<Rightarrow> TakePanic
           | Some pending \<Rightarrow>
               (case pending_oldest_sequence pending of
                  None \<Rightarrow> TakePanic
                | Some oldest_sequence \<Rightarrow>
                    Taken key (latest pending) oldest_sequence
                      (guard\<lparr>act_ready := rest,
                        act_by_key := bt_insert key
                          (pending\<lparr>pending_oldest_sequence := None,
                                   in_flight_oldest_sequence := Some oldest_sequence\<rparr>)
                          (act_by_key guard)\<rparr>))))"

definition complete_persist :: "route_key \<Rightarrow> pending_activities \<Rightarrow> pending_activities" where
  "complete_persist key guard =
     (case bt_get key (act_by_key guard) of
        None \<Rightarrow> guard\<lparr>act_by_key := bt_remove key (act_by_key guard)\<rparr>
      | Some pending \<Rightarrow>
          (let guard = guard\<lparr>act_by_key := bt_insert key
                         (pending\<lparr>in_flight_oldest_sequence := None\<rparr>) (act_by_key guard)\<rparr>
           in if pending_oldest_sequence pending = None
              then guard\<lparr>act_by_key := bt_remove key (act_by_key guard)\<rparr>
              else guard\<lparr>act_ready := act_ready guard @ [key]\<rparr>))"

definition watermark_is_complete :: "u64 \<Rightarrow> pending_activities \<Rightarrow> bool" where
  "watermark_is_complete watermark pending =
     list_all (\<lambda>(key, p).
        (case in_flight_oldest_sequence p of None \<Rightarrow> True | Some s \<Rightarrow> watermark < s)
        \<and> (case pending_oldest_sequence p of None \<Rightarrow> True | Some s \<Rightarrow> watermark < s))
       (act_by_key pending)"

definition pending_routes :: "pending_activities \<Rightarrow> nat" where
  "pending_routes pending = length (act_by_key pending)"

section \<open>The writer\<close>

datatype metric_event = LastActivityUpdate | ActivityDrop | ActivityPersistenceFailure

datatype worker =
    AtRecv
  | Draining
  | Persisting route_key timestamp u64
  | Persisted route_key
  | NotifyThen bool
  | WorkerGone

datatype flusher =
    NoFlush
  | FlushLoop u64
  | FlushCheck u64 nat
  | FlushWait u64 nat
  | Flushed u64

record 's writer =
  w_registry :: "'s registry"
  w_pending :: pending_activities
  persistence_errors :: u64
  dropped_observations :: u64
  w_capacity :: usize
  w_metrics :: "metric_event list"
  w_token :: bool
  w_worker :: worker
  w_senders :: nat
  w_generation :: nat
  w_flush :: flusher
  w_accepted :: "(u64 \<times> route_key \<times> timestamp) list"
  w_attempts :: "(route_key \<times> timestamp) list"

definition writer_start :: "'s registry \<Rightarrow> usize \<Rightarrow> 's writer" where
  "writer_start reg cap =
     \<lparr>w_registry = reg, w_pending = pending_default, persistence_errors = 0,
      dropped_observations = 0, w_capacity = max cap 1, w_metrics = [], w_token = False,
      w_worker = AtRecv, w_senders = 0, w_generation = 0, w_flush = NoFlush,
      w_accepted = [], w_attempts = []\<rparr>"

definition observe_now :: "route_key \<Rightarrow> timestamp \<Rightarrow> 's registry \<Rightarrow> bool \<times> 's registry" where
  "observe_now key at reg =
     (case observe_activity key at [] (reg_tracker reg) \<lparr>cell_id = 0, cell_value = reg_snapshot reg\<rparr> of
        (b, c) \<Rightarrow> (b, reg\<lparr>reg_snapshot := cell_value c\<rparr>))"

text \<open>The admission part of \<open>record_at\<close>, after the observation was published.\<close>

definition record_admit :: "route_key \<Rightarrow> timestamp \<Rightarrow> 's writer \<Rightarrow> 's writer" where
  "record_admit key at w =
     (case accept_observation (w_capacity w) key at (w_pending w) of
        NotAccepted \<Rightarrow>
          w\<lparr>dropped_observations := dropped_observations w + 1, w_metrics := ActivityDrop # w_metrics w\<rparr>
      | AcceptPanic \<Rightarrow> w
      | Accepted sequence pending \<Rightarrow>
          w\<lparr>w_pending := pending, w_senders := Suc (w_senders w),
            w_accepted := (sequence, key, at) # w_accepted w\<rparr>)"

text \<open>The wake-up at its end: a full channel already holds a token, a closed one is an error.\<close>

definition record_wake :: "'s writer \<Rightarrow> 's writer" where
  "record_wake w =
     (let w = w\<lparr>w_senders := w_senders w - 1\<rparr>
      in if w_worker w = WorkerGone
         then w\<lparr>persistence_errors := persistence_errors w + 1,
                w_metrics := ActivityPersistenceFailure # w_metrics w\<rparr>
         else w\<lparr>w_token := True\<rparr>)"

definition record_at :: "route_key \<Rightarrow> timestamp \<Rightarrow> 's writer \<Rightarrow> 's writer" where
  "record_at key at w =
     (case observe_now key at (w_registry w) of
        (False, reg) \<Rightarrow> w\<lparr>w_registry := reg\<rparr>
      | (True, reg) \<Rightarrow>
          (let w1 = w\<lparr>w_registry := reg, w_metrics := LastActivityUpdate # w_metrics w\<rparr>;
               w2 = record_admit key at w1
           in if w_senders w2 = w_senders w1 then w2 else record_wake w2))"

definition record_activity :: "timestamp option \<Rightarrow> timestamp \<Rightarrow> route_key \<Rightarrow> 's writer \<Rightarrow> 's writer" where
  "record_activity fixed_now utc_now key w =
     (if fixed_now \<noteq> None then
        (if registry_get (w_registry w) key \<noteq> None
         then w\<lparr>w_metrics := LastActivityUpdate # w_metrics w\<rparr> else w)
      else record_at key utc_now w)"

definition persist_result :: "('e, 'a) result \<Rightarrow> 's writer \<Rightarrow> 's writer" where
  "persist_result r w =
     (if is_ok r then w
      else w\<lparr>persistence_errors := persistence_errors w + 1,
             w_metrics := ActivityPersistenceFailure # w_metrics w\<rparr>)"

section \<open>Interleavings\<close>

inductive writer_step :: "'s store_ops \<Rightarrow> 's writer \<Rightarrow> 's writer \<Rightarrow> bool"
  for ops :: "'s store_ops" where
  registry_changes: "writer_step ops w (w\<lparr>w_registry := reg\<rparr>)"
| observed: "observe_now k at (w_registry w) = (True, reg) \<Longrightarrow>
    writer_step ops w (w\<lparr>w_registry := reg, w_metrics := LastActivityUpdate # w_metrics w\<rparr>)"
| admitted: "writer_step ops w (record_admit k at w)"
| woken: "0 < w_senders w \<Longrightarrow> writer_step ops w (record_wake w)"
| received: "w_worker w = AtRecv \<Longrightarrow> w_token w \<Longrightarrow>
    writer_step ops w (w\<lparr>w_token := False, w_worker := Draining\<rparr>)"
| took: "w_worker w = Draining \<Longrightarrow> take_ready (w_pending w) = Taken k at q p \<Longrightarrow>
    writer_step ops w (w\<lparr>w_pending := p, w_worker := Persisting k at q\<rparr>)"
| took_none: "w_worker w = Draining \<Longrightarrow> take_ready (w_pending w) = TakeEmpty \<Longrightarrow>
    writer_step ops w (w\<lparr>w_worker := NotifyThen True\<rparr>)"
| took_panic: "w_worker w = Draining \<Longrightarrow> take_ready (w_pending w) = TakePanic \<Longrightarrow>
    writer_step ops w (w\<lparr>w_worker := WorkerGone\<rparr>)"
| persist: "w_worker w = Persisting k at q \<Longrightarrow>
    run_mutation ops rt det now (MPersistObserved k at) (w_registry w) = (r, reg) \<Longrightarrow>
    writer_step ops w (persist_result r (w\<lparr>w_registry := reg, w_worker := Persisted k,
      w_attempts := (k, at) # w_attempts w\<rparr>))"
| completed: "w_worker w = Persisted k \<Longrightarrow>
    writer_step ops w (w\<lparr>w_pending := complete_persist k (w_pending w), w_worker := NotifyThen False\<rparr>)"
| notified: "w_worker w = NotifyThen b \<Longrightarrow>
    writer_step ops w (w\<lparr>w_generation := Suc (w_generation w),
      w_worker := (if b then AtRecv else Draining)\<rparr>)"
| worker_aborted: "writer_step ops w (w\<lparr>w_worker := WorkerGone\<rparr>)"
| flush_called: "writer_step ops w (w\<lparr>w_flush := FlushLoop (accepted_through (w_pending w))\<rparr>)"
| flush_enabled: "w_flush w = FlushLoop m \<Longrightarrow>
    writer_step ops w (w\<lparr>w_flush := FlushCheck m (w_generation w)\<rparr>)"
| flush_checked: "w_flush w = FlushCheck m g \<Longrightarrow>
    writer_step ops w (w\<lparr>w_flush :=
      (if watermark_is_complete m (w_pending w) then Flushed m else FlushWait m g)\<rparr>)"
| flush_woken: "w_flush w = FlushWait m g \<Longrightarrow> w_generation w \<noteq> g \<Longrightarrow>
    writer_step ops w (w\<lparr>w_flush := FlushLoop m\<rparr>)"

inductive_cases writer_stepE: "writer_step ops w w'"

section \<open>The pending map\<close>

abbreviation entry :: "pending_activities \<Rightarrow> route_key \<Rightarrow> pending_activity option" where
  "entry p k \<equiv> bt_get k (act_by_key p)"

definition entry_ready :: "pending_activity \<Rightarrow> bool" where
  "entry_ready e \<longleftrightarrow> pending_oldest_sequence e \<noteq> None \<and> in_flight_oldest_sequence e = None"

definition pending_wf :: "pending_activities \<Rightarrow> route_key option \<Rightarrow> bool" where
  "pending_wf p flight \<longleftrightarrow> bt_wf (act_by_key p) \<and> distinct (act_ready p)
     \<and> (\<forall>k. k \<in> set (act_ready p) \<longleftrightarrow> (\<exists>e. entry p k = Some e \<and> entry_ready e))
     \<and> (\<forall>k e. entry p k = Some e \<longrightarrow> (in_flight_oldest_sequence e = None \<longleftrightarrow> flight \<noteq> Some k)
          \<and> (in_flight_oldest_sequence e = None \<longrightarrow> pending_oldest_sequence e \<noteq> None))
     \<and> (\<forall>k. flight = Some k \<longrightarrow> entry p k \<noteq> None)"

lemma pending_wf_default: "pending_wf pending_default None"
  by (simp add: pending_wf_def pending_default_def)

lemma pending_wf_accept:
  assumes "pending_wf p flight" "accept_observation cap k at p = Accepted q p'"
  shows "pending_wf p' flight"
proof (cases "entry p k")
  case None
  then have k: "flight \<noteq> Some k" "k \<notin> set (act_ready p)"
    using assms(1) by (auto simp: pending_wf_def)
  have p': "act_by_key p' = bt_insert k \<lparr>latest = at, pending_oldest_sequence = Some q,
      in_flight_oldest_sequence = None\<rparr> (act_by_key p)" "act_ready p' = act_ready p @ [k]"
    using assms(2) None by (auto simp: accept_observation_def Let_def split: if_splits option.splits)
  show ?thesis
    using assms(1) k None unfolding pending_wf_def p'
    by (auto simp: map_laws wf_intros entry_ready_def)
next
  case (Some e)
  obtain e' where e': "act_by_key p' = bt_insert k e' (act_by_key p)" "act_ready p' = act_ready p"
    "in_flight_oldest_sequence e' = in_flight_oldest_sequence e" "pending_oldest_sequence e' \<noteq> None"
    "pending_oldest_sequence e \<noteq> None \<Longrightarrow> pending_oldest_sequence e' = pending_oldest_sequence e"
    using assms(2) Some
    by (auto simp: accept_observation_def Let_def split: if_splits option.splits)
  have "in_flight_oldest_sequence e = None \<Longrightarrow> pending_oldest_sequence e \<noteq> None"
    using assms(1) Some by (auto simp: pending_wf_def)
  then have "entry_ready e' \<longleftrightarrow> entry_ready e" using e'(3,4) by (auto simp: entry_ready_def)
  with assms(1) Some e'(3,4) show ?thesis
    unfolding pending_wf_def e'(1,2) by (auto simp: map_laws wf_intros)
qed

lemma take_ready_total:
  assumes "pending_wf p flight"
  shows "take_ready p \<noteq> TakePanic"
proof (cases "act_ready p")
  case (Cons k rest)
  then have "k \<in> set (act_ready p)" by simp
  then obtain e where "entry p k = Some e" "entry_ready e"
    using assms unfolding pending_wf_def by blast
  then show ?thesis using Cons by (auto simp: take_ready_def entry_ready_def)
qed (simp add: take_ready_def)

lemma take_ready_Taken:
  assumes "take_ready p = Taken k at q p'"
  obtains rest e where "act_ready p = k # rest" "entry p k = Some e" "at = latest e"
    "pending_oldest_sequence e = Some q"
    "p' = p\<lparr>act_ready := rest, act_by_key := bt_insert k (e\<lparr>pending_oldest_sequence := None,
        in_flight_oldest_sequence := Some q\<rparr>) (act_by_key p)\<rparr>"
  using assms by (auto simp: take_ready_def split: list.splits option.splits)

lemma pending_wf_take:
  assumes "pending_wf p None" "take_ready p = Taken k at q p'"
  shows "pending_wf p' (Some k)"
  using assms(2)
proof (rule take_ready_Taken)
  fix rest e
  assume r: "act_ready p = k # rest" "entry p k = Some e"
    and p': "p' = p\<lparr>act_ready := rest, act_by_key := bt_insert k (e\<lparr>pending_oldest_sequence := None,
        in_flight_oldest_sequence := Some q\<rparr>) (act_by_key p)\<rparr>"
  then have "k \<notin> set rest" using assms(1) by (simp add: pending_wf_def)
  then show ?thesis using assms(1) r unfolding pending_wf_def p'
    by (auto simp: map_laws wf_intros entry_ready_def)
qed

lemma pending_wf_complete:
  assumes "pending_wf p (Some k)"
  shows "pending_wf (complete_persist k p) None"
proof -
  obtain e where e: "entry p k = Some e" using assms by (auto simp: pending_wf_def)
  then have "in_flight_oldest_sequence e \<noteq> None" using assms unfolding pending_wf_def by blast
  then have "k \<notin> set (act_ready p)" using assms e by (auto simp: pending_wf_def entry_ready_def)
  then show ?thesis
    using assms e unfolding pending_wf_def
    by (auto simp: complete_persist_def Let_def map_laws wf_intros entry_ready_def)
qed

section \<open>Frame rules\<close>

lemma record_admit_cases:
  obtains (same) "w_pending (record_admit k at w) = w_pending w"
      "w_senders (record_admit k at w) = w_senders w" "w_accepted (record_admit k at w) = w_accepted w"
  | (accepted) q p where "accept_observation (w_capacity w) k at (w_pending w) = Accepted q p"
      "w_pending (record_admit k at w) = p" "w_senders (record_admit k at w) = Suc (w_senders w)"
      "w_accepted (record_admit k at w) = (q, k, at) # w_accepted w"
  by (cases "accept_observation (w_capacity w) k at (w_pending w)") (auto simp: record_admit_def)

lemma record_admit_frame [simp]:
  "w_capacity (record_admit k at w) = w_capacity w" "w_token (record_admit k at w) = w_token w"
  "w_worker (record_admit k at w) = w_worker w" "w_generation (record_admit k at w) = w_generation w"
  "w_flush (record_admit k at w) = w_flush w" "w_attempts (record_admit k at w) = w_attempts w"
  by (auto simp: record_admit_def split: accept_result.splits)

lemma record_wake_frame [simp]:
  "w_pending (record_wake w) = w_pending w" "w_capacity (record_wake w) = w_capacity w"
  "w_worker (record_wake w) = w_worker w" "w_generation (record_wake w) = w_generation w"
  "w_flush (record_wake w) = w_flush w" "w_attempts (record_wake w) = w_attempts w"
  "w_accepted (record_wake w) = w_accepted w" "w_senders (record_wake w) = w_senders w - 1"
  "w_worker w \<noteq> WorkerGone \<Longrightarrow> w_token (record_wake w)"
  by (auto simp: record_wake_def Let_def)

lemma persist_result_frame [simp]:
  "w_pending (persist_result r w) = w_pending w" "w_capacity (persist_result r w) = w_capacity w"
  "w_worker (persist_result r w) = w_worker w" "w_generation (persist_result r w) = w_generation w"
  "w_flush (persist_result r w) = w_flush w" "w_attempts (persist_result r w) = w_attempts w"
  "w_accepted (persist_result r w) = w_accepted w" "w_senders (persist_result r w) = w_senders w"
  "w_token (persist_result r w) = w_token w"
  by (auto simp: persist_result_def)

section \<open>The worker and the pending map\<close>

fun flight_of :: "worker \<Rightarrow> route_key option" where
  "flight_of (Persisting k at q) = Some k"
| "flight_of (Persisted k) = Some k"
| "flight_of wk = None"

definition writer_ok :: "'s writer \<Rightarrow> bool" where
  "writer_ok w \<longleftrightarrow> (\<exists>fl. pending_wf (w_pending w) fl \<and> (w_worker w \<noteq> WorkerGone \<longrightarrow> fl = flight_of (w_worker w)))
     \<and> length (act_by_key (w_pending w)) \<le> unat (w_capacity w)"

lemma pending_wf_bt: "pending_wf p fl \<Longrightarrow> bt_wf (act_by_key p)"
  by (simp add: pending_wf_def)

lemma accept_length:
  assumes "accept_observation cap k at p = Accepted q p'" "pending_wf p fl"
    and "length (act_by_key p) \<le> unat cap"
  shows "length (act_by_key p') \<le> unat cap"
  using assms bt_length_insert[OF pending_wf_bt[OF assms(2)]]
  by (auto simp: accept_observation_def Let_def bt_contains_def split: if_splits option.splits)

lemma take_length:
  assumes "take_ready p = Taken k at q p'" "pending_wf p fl"
  shows "length (act_by_key p') = length (act_by_key p)"
  using assms(1) bt_length_insert[OF pending_wf_bt[OF assms(2)]]
  by (auto simp: bt_contains_def elim!: take_ready_Taken)

lemma complete_length:
  assumes "pending_wf p fl"
  shows "length (act_by_key (complete_persist k p)) \<le> length (act_by_key p)"
proof (cases "entry p k")
  case None
  then show ?thesis by (simp add: complete_persist_def bt_length_remove)
next
  case (Some e)
  let ?m = "bt_insert k (e\<lparr>in_flight_oldest_sequence := None\<rparr>) (act_by_key p)"
  have "length ?m = length (act_by_key p)"
    using Some bt_length_insert[OF pending_wf_bt[OF assms]] by (simp add: bt_contains_def)
  then show ?thesis using Some bt_length_remove[of k ?m] by (simp add: complete_persist_def Let_def)
qed

lemma writer_ok_step:
  assumes "writer_step ops w w'" "writer_ok w"
  shows "writer_ok w'"
proof -
  obtain fl where fl: "pending_wf (w_pending w) fl" "w_worker w \<noteq> WorkerGone \<longrightarrow> fl = flight_of (w_worker w)"
    "length (act_by_key (w_pending w)) \<le> unat (w_capacity w)"
    using assms(2) by (auto simp: writer_ok_def)
  from assms(1) show ?thesis
  proof cases
    case (admitted k at)
    then show ?thesis
    proof (cases rule: record_admit_cases[of k at w])
      case same
      then show ?thesis using admitted assms(2) by (simp add: writer_ok_def)
    next
      case (accepted q p)
      then show ?thesis using admitted fl pending_wf_accept[OF fl(1) accepted(1)]
          accept_length[OF accepted(1) fl(1,3)] by (auto simp: writer_ok_def)
    qed
  next
    case (took k at q p)
    then show ?thesis using fl pending_wf_take[of "w_pending w" k at q p] take_length[OF took(3) fl(1)]
      by (auto simp: writer_ok_def)
  next
    case (completed k)
    then show ?thesis using fl pending_wf_complete[of "w_pending w" k] complete_length[OF fl(1), of k]
      by (auto simp: writer_ok_def)
  next
    case (notified b)
    then show ?thesis using fl by (auto simp: writer_ok_def)
  qed (use fl in \<open>auto simp: writer_ok_def\<close>)
qed

lemma writer_ok_start: "writer_ok (writer_start reg cap)"
  using pending_wf_default by (auto simp: writer_ok_def writer_start_def) (simp add: pending_default_def)

lemma writer_ok_reach: "(writer_step ops)\<^sup>*\<^sup>* (writer_start reg cap) w \<Longrightarrow> writer_ok w"
  by (induction rule: rtranclp_induct) (auto intro: writer_ok_start writer_ok_step)

section \<open>Nothing accepted is forgotten\<close>

fun in_flight_covers :: "worker \<Rightarrow> route_key \<Rightarrow> timestamp \<Rightarrow> bool" where
  "in_flight_covers (Persisting k' v s) k at = (k' = k \<and> at \<le> v)"
| "in_flight_covers WorkerGone k at = True"
| "in_flight_covers wk k at = False"

definition attempted :: "'s writer \<Rightarrow> route_key \<Rightarrow> timestamp \<Rightarrow> bool" where
  "attempted w k at \<longleftrightarrow> (\<exists>at'. at \<le> at' \<and> (k, at') \<in> set (w_attempts w))"

definition covered :: "'s writer \<Rightarrow> u64 \<Rightarrow> route_key \<Rightarrow> timestamp \<Rightarrow> bool" where
  "covered w q k at \<longleftrightarrow> attempted w k at \<or>
     (case entry (w_pending w) k of
        None \<Rightarrow> False
      | Some e \<Rightarrow>
          (\<exists>s. pending_oldest_sequence e = Some s \<and> s \<le> q \<and> at \<le> latest e)
          \<or> (\<exists>s. in_flight_oldest_sequence e = Some s \<and> s \<le> q \<and> in_flight_covers (w_worker w) k at))"

definition sequences_ok :: "pending_activities \<Rightarrow> bool" where
  "sequences_ok p \<longleftrightarrow> (\<forall>k e. entry p k = Some e \<longrightarrow>
     (\<forall>s. pending_oldest_sequence e = Some s \<longrightarrow> s \<le> accepted_through p)
     \<and> (\<forall>s. in_flight_oldest_sequence e = Some s \<longrightarrow> s \<le> accepted_through p))"

definition ledger_ok :: "'s writer \<Rightarrow> bool" where
  "ledger_ok w \<longleftrightarrow> sequences_ok (w_pending w) \<and>
     (\<forall>q k at. (q, k, at) \<in> set (w_accepted w) \<longrightarrow>
        q \<le> accepted_through (w_pending w) \<and> covered w q k at)"

lemma accept_effect:
  assumes "accept_observation cap k at p = Accepted q p'"
  obtains e' where "act_by_key p' = bt_insert k e' (act_by_key p)" "accepted_through p' = q"
    "accepted_through p < q" "at \<le> latest e'"
    "case entry p k of None \<Rightarrow> pending_oldest_sequence e' = Some q \<and> in_flight_oldest_sequence e' = None
     | Some e \<Rightarrow> latest e \<le> latest e' \<and> in_flight_oldest_sequence e' = in_flight_oldest_sequence e
         \<and> pending_oldest_sequence e' =
             (case pending_oldest_sequence e of None \<Rightarrow> Some q | Some s \<Rightarrow> Some s)"
  using assms
  by (auto simp: accept_observation_def checked_add1_def Let_def word_succ_greater
      split: if_splits option.splits)

lemma sequences_accept:
  assumes "sequences_ok p" "accept_observation cap k at p = Accepted q p'"
  shows "sequences_ok p'"
  using assms(2)
proof (rule accept_effect)
  fix e'
  assume a: "act_by_key p' = bt_insert k e' (act_by_key p)" "accepted_through p' = q"
    "accepted_through p < q"
    "case entry p k of None \<Rightarrow> pending_oldest_sequence e' = Some q \<and> in_flight_oldest_sequence e' = None
     | Some e \<Rightarrow> latest e \<le> latest e' \<and> in_flight_oldest_sequence e' = in_flight_oldest_sequence e
         \<and> pending_oldest_sequence e' =
             (case pending_oldest_sequence e of None \<Rightarrow> Some q | Some s \<Rightarrow> Some s)"
  have old: "s \<le> q" if "entry p j = Some e"
    "pending_oldest_sequence e = Some s \<or> in_flight_oldest_sequence e = Some s" for j e s
    using assms(1) a(3) that unfolding sequences_ok_def by (meson order.trans less_imp_le)
  show ?thesis unfolding sequences_ok_def
    using a(4) old by (auto simp: a(1,2) map_laws split: option.splits if_splits)
qed

lemma covered_accept:
  assumes "covered w r j at'" "accept_observation cap k at (w_pending w) = Accepted q p'"
    "w_pending w' = p'" "w_attempts w' = w_attempts w" "w_worker w' = w_worker w"
  shows "covered w' r j at'"
  using assms(2)
proof (rule accept_effect)
  fix e'
  assume "act_by_key p' = bt_insert k e' (act_by_key (w_pending w))"
    "case entry (w_pending w) k of None \<Rightarrow> pending_oldest_sequence e' = Some q \<and> in_flight_oldest_sequence e' = None
     | Some e \<Rightarrow> latest e \<le> latest e' \<and> in_flight_oldest_sequence e' = in_flight_oldest_sequence e
         \<and> pending_oldest_sequence e' =
             (case pending_oldest_sequence e of None \<Rightarrow> Some q | Some s \<Rightarrow> Some s)"
  then show ?thesis using assms(1,3-5)
    by (cases "j = k") (auto simp: covered_def attempted_def map_laws split: option.splits)
qed

lemma covered_new:
  assumes "sequences_ok (w_pending w)" "accept_observation cap k at (w_pending w) = Accepted q p'"
    "w_pending w' = p'"
  shows "covered w' q k at \<and> accepted_through p' = q"
  using assms(2)
proof (rule accept_effect)
  fix e'
  assume a: "act_by_key p' = bt_insert k e' (act_by_key (w_pending w))" "accepted_through p' = q"
    "accepted_through (w_pending w) < q" "at \<le> latest e'"
    "case entry (w_pending w) k of None \<Rightarrow> pending_oldest_sequence e' = Some q \<and> in_flight_oldest_sequence e' = None
     | Some e \<Rightarrow> latest e \<le> latest e' \<and> in_flight_oldest_sequence e' = in_flight_oldest_sequence e
         \<and> pending_oldest_sequence e' =
             (case pending_oldest_sequence e of None \<Rightarrow> Some q | Some s \<Rightarrow> Some s)"
  have "\<exists>s. pending_oldest_sequence e' = Some s \<and> s \<le> q"
    using a(3,5) assms(1) unfolding sequences_ok_def
    by (auto split: option.splits) (meson order.trans less_imp_le)
  then show ?thesis using a(1,2,4) assms(3) by (auto simp: covered_def map_laws)
qed

lemma covered_cong:
  "covered w q k at \<Longrightarrow> w_pending w' = w_pending w \<Longrightarrow> set (w_attempts w) \<subseteq> set (w_attempts w') \<Longrightarrow>
   (\<And>j t. in_flight_covers (w_worker w) j t \<Longrightarrow> in_flight_covers (w_worker w') j t) \<Longrightarrow> covered w' q k at"
  by (auto simp: covered_def attempted_def split: option.splits)

lemma ledger_cong:
  "ledger_ok w \<Longrightarrow> w_pending w' = w_pending w \<Longrightarrow> set (w_attempts w) \<subseteq> set (w_attempts w') \<Longrightarrow>
   (\<And>j t. in_flight_covers (w_worker w) j t \<Longrightarrow> in_flight_covers (w_worker w') j t) \<Longrightarrow>
   w_accepted w' = w_accepted w \<Longrightarrow> ledger_ok w'"
  unfolding ledger_ok_def using covered_cong[of w _ _ _ w'] by metis

lemma covered_take:
  assumes "covered w q k at" "w_worker w = Draining" "take_ready (w_pending w) = Taken k' v s p'"
    "w_pending w' = p'" "w_attempts w' = w_attempts w" "w_worker w' = Persisting k' v s"
  shows "covered w' q k at"
  using assms(3)
proof (rule take_ready_Taken)
  fix rest e
  assume "entry (w_pending w) k' = Some e" "v = latest e" "pending_oldest_sequence e = Some s"
    "p' = (w_pending w)\<lparr>act_ready := rest, act_by_key := bt_insert k' (e\<lparr>pending_oldest_sequence := None,
        in_flight_oldest_sequence := Some s\<rparr>) (act_by_key (w_pending w))\<rparr>"
  then show ?thesis using assms(1,2,4-6)
    by (cases "k = k'") (auto simp: covered_def attempted_def map_laws split: option.splits)
qed

lemma sequences_take:
  assumes "sequences_ok p" "take_ready p = Taken k v s p'"
  shows "sequences_ok p' \<and> accepted_through p' = accepted_through p"
  using assms(2)
proof (rule take_ready_Taken)
  fix rest e
  assume "entry p k = Some e" "pending_oldest_sequence e = Some s"
    "p' = p\<lparr>act_ready := rest, act_by_key := bt_insert k (e\<lparr>pending_oldest_sequence := None,
        in_flight_oldest_sequence := Some s\<rparr>) (act_by_key p)\<rparr>"
  then show ?thesis using assms(1) by (auto simp: sequences_ok_def map_laws)
qed

lemma covered_complete:
  assumes "covered w q k at" "w_worker w = Persisted k'"
    "w_pending w' = complete_persist k' (w_pending w)" "w_attempts w' = w_attempts w"
  shows "covered w' q k at"
  using assms
  by (cases "k = k'")
    (auto simp: covered_def attempted_def complete_persist_def Let_def map_laws split: option.splits)

lemma sequences_complete:
  "sequences_ok p \<Longrightarrow> sequences_ok (complete_persist k p) \<and> accepted_through (complete_persist k p) = accepted_through p"
  by (auto simp: sequences_ok_def complete_persist_def Let_def map_laws split: option.splits)

lemma covered_persist:
  assumes "covered w q k at" "w_worker w = Persisting k' v s" "w_pending w' = w_pending w"
    "w_attempts w' = (k', v) # w_attempts w"
  shows "covered w' q k at"
  using assms by (auto simp: covered_def attempted_def split: option.splits)

lemma ledger_ok_step:
  assumes "writer_step ops w w'" "ledger_ok w"
  shows "ledger_ok w'"
proof -
  have seq: "sequences_ok (w_pending w)"
    and led: "\<And>q k at. (q, k, at) \<in> set (w_accepted w) \<Longrightarrow>
      q \<le> accepted_through (w_pending w) \<and> covered w q k at"
    using assms(2) by (auto simp: ledger_ok_def)
  from assms(1) show ?thesis
  proof cases
    case (admitted k at)
    then show ?thesis
    proof (cases rule: record_admit_cases[of k at w])
      case same
      then show ?thesis using admitted by (intro ledger_cong[OF assms(2)]) simp_all
    next
      case (accepted q p)
      have lt: "accepted_through (w_pending w) < q" "accepted_through p = q"
        using accepted(1) by (auto elim!: accept_effect)
      have "covered w' r j t \<and> r \<le> q" if "(r, j, t) \<in> set (w_accepted w)" for r j t
        using covered_accept[of w r j t _ k at q p w'] led[OF that] accepted admitted lt by auto
      then show ?thesis
        using accepted admitted lt sequences_accept[OF seq accepted(1)]
          covered_new[OF seq accepted(1), of w'] by (auto simp: ledger_ok_def)
    qed
  next
    case (took k at q p)
    have "covered w' r j t" if "(r, j, t) \<in> set (w_accepted w)" for r j t
      using covered_take[of w r j t k at q p w'] led[OF that] took by simp
    then show ?thesis using led took sequences_take[OF seq took(3)] by (auto simp: ledger_ok_def)
  next
    case (persist k at q rt det now r reg)
    have "covered w' r j t" if "(r, j, t) \<in> set (w_accepted w)" for r j t
      using covered_persist[of w r j t k at q w'] led[OF that] persist by simp
    then show ?thesis using led persist seq by (simp add: ledger_ok_def)
  next
    case (completed k)
    have "covered w' r j t" if "(r, j, t) \<in> set (w_accepted w)" for r j t
      using covered_complete[of w r j t k w'] led[OF that] completed by simp
    then show ?thesis using led completed sequences_complete[OF seq, of k] by (auto simp: ledger_ok_def)
  qed (auto intro!: ledger_cong[OF assms(2)])
qed

lemma ledger_ok_start: "ledger_ok (writer_start reg cap)"
  by (simp add: ledger_ok_def sequences_ok_def writer_start_def pending_default_def)

lemma ledger_ok_reach: "(writer_step ops)\<^sup>*\<^sup>* (writer_start reg cap) w \<Longrightarrow> ledger_ok w"
  by (induction rule: rtranclp_induct) (auto intro: ledger_ok_start ledger_ok_step)

section \<open>Wake-ups\<close>

definition wake_ok :: "'s writer \<Rightarrow> bool" where
  "wake_ok w \<longleftrightarrow> (w_worker w = AtRecv \<or> w_worker w = NotifyThen True) \<and> \<not> w_token w \<and> w_senders w = 0
     \<longrightarrow> act_ready (w_pending w) = []"

lemma take_ready_TakeEmpty: "take_ready p = TakeEmpty \<longleftrightarrow> act_ready p = []"
  by (auto simp: take_ready_def split: list.splits option.splits)

lemma wake_ok_step:
  assumes "writer_step ops w w'" "wake_ok w"
  shows "wake_ok w'"
  using assms(1)
proof cases
  case (admitted k at)
  then show ?thesis using assms(2)
    by (cases rule: record_admit_cases[of k at w]) (auto simp: wake_ok_def)
next
  case woken
  then show ?thesis using assms(2) by (auto simp: wake_ok_def)
next
  case took_none
  then show ?thesis by (simp add: wake_ok_def take_ready_TakeEmpty)
next
  case (notified b)
  then show ?thesis using assms(2) by (cases b) (auto simp: wake_ok_def)
qed (use assms(2) in \<open>auto simp: wake_ok_def\<close>)

lemma wake_ok_reach: "(writer_step ops)\<^sup>*\<^sup>* (writer_start reg cap) w \<Longrightarrow> wake_ok w"
proof (induction rule: rtranclp_induct)
  case base
  then show ?case by (simp add: wake_ok_def writer_start_def pending_default_def)
qed (auto intro: wake_ok_step)

section \<open>Flush\<close>

definition overdue :: "u64 \<Rightarrow> pending_activity \<Rightarrow> bool" where
  "overdue m e \<longleftrightarrow> (\<exists>s. in_flight_oldest_sequence e = Some s \<and> s \<le> m)
     \<or> (\<exists>s. pending_oldest_sequence e = Some s \<and> s \<le> m)"

lemma watermark_incomplete:
  assumes "bt_wf (act_by_key p)"
  shows "\<not> watermark_is_complete m p \<longleftrightarrow> (\<exists>k e. entry p k = Some e \<and> overdue m e)"
proof -
  have "((case in_flight_oldest_sequence e of None \<Rightarrow> True | Some s \<Rightarrow> m < s)
      \<and> (case pending_oldest_sequence e of None \<Rightarrow> True | Some s \<Rightarrow> m < s)) \<longleftrightarrow> \<not> overdue m e" for e
    by (auto simp: overdue_def not_le split: option.splits)
  then show ?thesis unfolding watermark_is_complete_def bt_values[OF assms] by simp
qed

definition flush_ok :: "'s writer \<Rightarrow> bool" where
  "flush_ok w \<longleftrightarrow>
     (case w_flush w of
        NoFlush \<Rightarrow> True
      | FlushLoop m \<Rightarrow> m \<le> accepted_through (w_pending w)
      | FlushCheck m g \<Rightarrow> m \<le> accepted_through (w_pending w) \<and> g \<le> w_generation w
      | FlushWait m g \<Rightarrow> m \<le> accepted_through (w_pending w) \<and> g \<le> w_generation w
          \<and> (g = w_generation w \<longrightarrow> \<not> watermark_is_complete m (w_pending w)
                \<or> w_worker w = WorkerGone \<or> (\<exists>b. w_worker w = NotifyThen b))
      | Flushed m \<Rightarrow> m \<le> accepted_through (w_pending w)
          \<and> (\<forall>q k at. (q, k, at) \<in> set (w_accepted w) \<and> q \<le> m \<longrightarrow> attempted w k at))"

lemma incomplete_accept:
  assumes "pending_wf p fl" "\<not> watermark_is_complete m p" "accept_observation cap k at p = Accepted q p'"
  shows "\<not> watermark_is_complete m p'"
  using assms(3)
proof (rule accept_effect)
  fix e'
  assume a: "act_by_key p' = bt_insert k e' (act_by_key p)"
    "case entry p k of None \<Rightarrow> pending_oldest_sequence e' = Some q \<and> in_flight_oldest_sequence e' = None
     | Some e \<Rightarrow> latest e \<le> latest e' \<and> in_flight_oldest_sequence e' = in_flight_oldest_sequence e
         \<and> pending_oldest_sequence e' =
             (case pending_oldest_sequence e of None \<Rightarrow> Some q | Some s \<Rightarrow> Some s)"
  have wf: "bt_wf (act_by_key p)" "bt_wf (act_by_key p')"
    using pending_wf_bt[OF assms(1)] a(1) by (simp_all add: wf_intros)
  obtain j e where j: "entry p j = Some e" "overdue m e"
    using assms(2) watermark_incomplete[OF wf(1)] by blast
  have "\<exists>f. entry p' j = Some f \<and> overdue m f"
    using j a by (cases "j = k") (auto simp: map_laws overdue_def)
  then show ?thesis using watermark_incomplete[OF wf(2)] by blast
qed

lemma incomplete_take:
  assumes "pending_wf p None" "\<not> watermark_is_complete m p" "take_ready p = Taken k v s p'"
  shows "\<not> watermark_is_complete m p'"
  using assms(3)
proof (rule take_ready_Taken)
  fix rest e
  assume a: "entry p k = Some e" "pending_oldest_sequence e = Some s"
    "p' = p\<lparr>act_ready := rest, act_by_key := bt_insert k (e\<lparr>pending_oldest_sequence := None,
        in_flight_oldest_sequence := Some s\<rparr>) (act_by_key p)\<rparr>"
  have wf: "bt_wf (act_by_key p)" "bt_wf (act_by_key p')"
    using pending_wf_bt[OF assms(1)] a(3) by (simp_all add: wf_intros)
  obtain j f where j: "entry p j = Some f" "overdue m f"
    using assms(2) watermark_incomplete[OF wf(1)] by blast
  have "in_flight_oldest_sequence f = None" using assms(1) j(1) unfolding pending_wf_def by blast
  then have "\<exists>f. entry p' j = Some f \<and> overdue m f"
    using j a by (cases "j = k") (auto simp: map_laws overdue_def)
  then show ?thesis using watermark_incomplete[OF wf(2)] by blast
qed

lemma flushed_attempted:
  assumes "ledger_ok w" "pending_wf (w_pending w) fl" "watermark_is_complete m (w_pending w)"
    "(q, k, at) \<in> set (w_accepted w)" "q \<le> m"
  shows "attempted w k at"
proof (rule ccontr)
  assume "\<not> attempted w k at"
  moreover have "covered w q k at" using assms(1,4) by (simp add: ledger_ok_def)
  ultimately obtain e s where "entry (w_pending w) k = Some e" "s \<le> q"
    "pending_oldest_sequence e = Some s \<or> in_flight_oldest_sequence e = Some s"
    by (auto simp: covered_def split: option.splits)
  then have "entry (w_pending w) k = Some e \<and> overdue m e"
    using assms(5) by (auto simp: overdue_def intro: order.trans)
  then show False using assms(3) watermark_incomplete[OF pending_wf_bt[OF assms(2)]] by blast
qed

lemma accepted_through_step:
  assumes "writer_step ops w w'"
  shows "accepted_through (w_pending w) \<le> accepted_through (w_pending w')"
  using assms
proof cases
  case (admitted k at)
  then show ?thesis
    by (cases rule: record_admit_cases[of k at w]) (auto elim!: accept_effect)
next
  case (took k at q p)
  then show ?thesis by (auto elim!: take_ready_Taken)
next
  case (completed k)
  then show ?thesis by (simp add: complete_persist_def Let_def split: option.splits)
qed simp_all

lemma flush_cong:
  assumes "flush_ok w" "w_flush w' = w_flush w" "w_pending w' = w_pending w"
    "w_generation w' = w_generation w" "w_worker w' = w_worker w \<or> w_worker w' = WorkerGone \<or>
      (\<forall>b. w_worker w \<noteq> NotifyThen b) \<and> w_worker w \<noteq> WorkerGone"
    "w_accepted w' = w_accepted w" "set (w_attempts w) \<subseteq> set (w_attempts w')"
  shows "flush_ok w'"
  using assms by (auto simp: flush_ok_def attempted_def split: flusher.splits) blast+

lemma flush_ok_step:
  assumes "writer_step ops w w'" "flush_ok w" "ledger_ok w" "writer_ok w"
  shows "flush_ok w'"
proof -
  obtain fl where fl: "pending_wf (w_pending w) fl" "w_worker w \<noteq> WorkerGone \<longrightarrow> fl = flight_of (w_worker w)"
    using assms(4) by (auto simp: writer_ok_def)
  note mono = accepted_through_step[OF assms(1)]
  from assms(1) show ?thesis
  proof cases
    case (admitted k at)
    then show ?thesis
    proof (cases rule: record_admit_cases[of k at w])
      case same
      then show ?thesis using admitted by (intro flush_cong[OF assms(2)]) simp_all
    next
      case (accepted q p)
      have "accepted_through (w_pending w) < q" using accepted(1) by (auto elim!: accept_effect)
      then show ?thesis
        using assms(2) admitted accepted mono incomplete_accept[OF fl(1) _ accepted(1)]
        by (auto simp: flush_ok_def attempted_def split: flusher.splits)
    qed
  next
    case (took k at q p)
    then show ?thesis
      using assms(2) mono fl incomplete_take[of "w_pending w" _ k at q p]
      by (auto simp: flush_ok_def attempted_def split: flusher.splits)
  next
    case (completed k)
    then show ?thesis using assms(2) mono
      by (auto simp: flush_ok_def attempted_def split: flusher.splits)
  next
    case (notified b)
    then show ?thesis using assms(2) by (auto simp: flush_ok_def attempted_def split: flusher.splits)
  next
    case (flush_checked m g)
    then show ?thesis using assms(2) flushed_attempted[OF assms(3) fl(1)]
      by (auto simp: flush_ok_def attempted_def split: flusher.splits)
  next
    case flush_called
    then show ?thesis by (simp add: flush_ok_def)
  next
    case (flush_enabled m)
    then show ?thesis using assms(2) by (simp add: flush_ok_def)
  next
    case (flush_woken m g)
    then show ?thesis using assms(2) by (simp add: flush_ok_def)
  qed (auto intro!: flush_cong[OF assms(2)])
qed

lemma flush_ok_reach: "(writer_step ops)\<^sup>*\<^sup>* (writer_start reg cap) w \<Longrightarrow> flush_ok w"
proof (induction rule: rtranclp_induct)
  case base
  then show ?case by (simp add: flush_ok_def writer_start_def)
qed (auto intro: flush_ok_step ledger_ok_reach writer_ok_reach)

section \<open>A concrete run\<close>

definition run_key :: route_key where
  "run_key = RouteKey ''/hub''"

definition run_registry :: "memory_store registry" where
  "run_registry = \<lparr>reg_store = memory_new, reg_snapshot = from_routes [], reg_tracker = tracker_default\<rparr>"

definition run0 :: "memory_store writer" where
  "run0 = writer_start run_registry 4"
definition run1 :: "memory_store writer" where
  "run1 = record_admit run_key 5 run0"
definition run2 :: "memory_store writer" where
  "run2 = record_wake run1"
definition run3 :: "memory_store writer" where
  "run3 = run2\<lparr>w_token := False, w_worker := Draining\<rparr>"
definition run4 :: "memory_store writer" where
  "run4 = run3\<lparr>w_pending := (case take_ready (w_pending run3) of Taken k at q p \<Rightarrow> p | _ \<Rightarrow> w_pending run3),
      w_worker := Persisting run_key 5 1\<rparr>"
definition run_persist :: "(store_error, route_data option) result \<times> memory_store registry" where
  "run_persist = run_mutation (memory_ops None) True False 6 (MPersistObserved run_key 5) (w_registry run4)"
definition run5 :: "memory_store writer" where
  "run5 = persist_result (fst run_persist) (run4\<lparr>w_registry := snd run_persist,
      w_worker := Persisted run_key, w_attempts := (run_key, 5) # w_attempts run4\<rparr>)"
definition run6 :: "memory_store writer" where
  "run6 = run5\<lparr>w_pending := complete_persist run_key (w_pending run5), w_worker := NotifyThen False\<rparr>"
definition run7 :: "memory_store writer" where
  "run7 = run6\<lparr>w_flush := FlushLoop (accepted_through (w_pending run6))\<rparr>"
definition run8 :: "memory_store writer" where
  "run8 = run7\<lparr>w_flush := FlushCheck (accepted_through (w_pending run6)) (w_generation run7)\<rparr>"
definition run9 :: "memory_store writer" where
  "run9 = run8\<lparr>w_flush := (if watermark_is_complete (accepted_through (w_pending run6)) (w_pending run8)
       then Flushed (accepted_through (w_pending run6))
       else FlushWait (accepted_through (w_pending run6)) (w_generation run7))\<rparr>"

lemma run_reach:
  "(writer_step (memory_ops None))\<^sup>*\<^sup>* (writer_start run_registry 4) run3"
  "(writer_step (memory_ops None))\<^sup>*\<^sup>* (writer_start run_registry 4) run9"
proof -
  let ?S = "writer_step (memory_ops None)"
  have "?S\<^sup>*\<^sup>* run0 run1" unfolding run1_def by (intro r_into_rtranclp admitted)
  also have "?S run1 run2" unfolding run2_def by (rule woken) code_simp
  also have "?S run2 run3" unfolding run3_def by (rule received) code_simp+
  finally show r3: "?S\<^sup>*\<^sup>* (writer_start run_registry 4) run3" by (simp add: run0_def)
  have "take_ready (w_pending run3) = Taken run_key 5 1 (w_pending run4)" by code_simp
  moreover have "run4 = run3\<lparr>w_pending := w_pending run4, w_worker := Persisting run_key 5 1\<rparr>"
    by (simp add: run4_def)
  ultimately have "?S run3 run4" using took[of run3 run_key 5 1 "w_pending run4"] by (simp add: run3_def)
  with r3 have "?S\<^sup>*\<^sup>* (writer_start run_registry 4) run4" by (rule rtranclp.rtrancl_into_rtrancl)
  also have "?S run4 run5" unfolding run5_def
    by (rule persist[of _ _ _ 1 _ True False 6]) (simp_all add: run4_def run_persist_def)
  also have "?S run5 run6" unfolding run6_def by (rule completed) (simp add: run5_def)
  also have "?S run6 run7" unfolding run7_def by (rule flush_called)
  also have "?S run7 run8" unfolding run8_def by (rule flush_enabled) (simp add: run7_def)
  also have "?S run8 run9" unfolding run9_def by (rule flush_checked) (simp add: run8_def)
  finally show "?S\<^sup>*\<^sup>* (writer_start run_registry 4) run9" .
qed

section \<open>Properties\<close>

lemma capacity_reach:
  "(writer_step ops)\<^sup>*\<^sup>* (writer_start reg cap) w \<Longrightarrow> w_capacity w = max cap 1"
proof (induction rule: rtranclp_induct)
  case base
  then show ?case by (simp add: writer_start_def)
next
  case (step w w')
  then show ?case by (auto elim!: writer_stepE)
qed

text \<open>
  C18. The pending map never exceeds its capacity, its ready queue never holds a key twice, and
  neither \<open>expect\<close> of the worker can fail, in any interleaving of recorders, worker and flush.
\<close>

theorem writer_bounded_and_total:
  assumes "(writer_step ops)\<^sup>*\<^sup>* (writer_start reg cap) w"
  shows "pending_routes (w_pending w) \<le> unat (max cap 1) \<and> distinct (act_ready (w_pending w))
    \<and> take_ready (w_pending w) \<noteq> TakePanic"
  using writer_ok_reach[OF assms] capacity_reach[OF assms] take_ready_total
  by (auto simp: writer_ok_def pending_routes_def pending_wf_def)

theorem writer_bounded_and_total_witness:
  "pending_routes (w_pending run3) \<le> 4 \<and> take_ready (w_pending run3) \<noteq> TakePanic"
  using writer_bounded_and_total[OF run_reach(1)] by simp



text \<open>
  C17. No wake-up is lost: when the worker waits for a token, none is in the channel and no
  recorder is about to send one, then nothing is pending, and a flush that is still waiting has
  been notified and returns.
\<close>

theorem idle_worker_has_drained:
  assumes "(writer_step ops)\<^sup>*\<^sup>* (writer_start reg cap) w"
    and "w_worker w = AtRecv" "\<not> w_token w" "w_senders w = 0"
  shows "pending_routes (w_pending w) = 0
    \<and> (\<forall>m g. w_flush w = FlushWait m g \<longrightarrow>
          (\<exists>w'. (writer_step ops)\<^sup>*\<^sup>* w w' \<and> w_flush w' = Flushed m))"
proof -
  have wf: "pending_wf (w_pending w) None"
    using writer_ok_reach[OF assms(1)] assms(2) by (auto simp: writer_ok_def)
  have none_ready: "act_ready (w_pending w) = []"
    using wake_ok_reach[OF assms(1)] assms(2-4) by (simp add: wake_ok_def)
  have "entry (w_pending w) k = None" for k
  proof (rule ccontr)
    assume "entry (w_pending w) k \<noteq> None"
    then obtain e where e: "entry (w_pending w) k = Some e" by blast
    then have "entry_ready e" using wf unfolding pending_wf_def entry_ready_def by blast
    then have "k \<in> set (act_ready (w_pending w))" using wf e unfolding pending_wf_def by blast
    then show False using none_ready by simp
  qed
  then have nil: "act_by_key (w_pending w) = []" by (rule bt_get_eq_Nil)
  then have fin: "watermark_is_complete m (w_pending w)" for m
    by (simp add: watermark_is_complete_def)
  have "\<exists>w'. (writer_step ops)\<^sup>*\<^sup>* w w' \<and> w_flush w' = Flushed m" if fw: "w_flush w = FlushWait m g" for m g
  proof -
    have "w_generation w \<noteq> g"
      using flush_ok_reach[OF assms(1)] fw assms(2) fin by (auto simp: flush_ok_def)
    let ?w1 = "w\<lparr>w_flush := FlushLoop m\<rparr>" and ?w2 = "w\<lparr>w_flush := FlushCheck m (w_generation w)\<rparr>"
    let ?w3 = "w\<lparr>w_flush := Flushed m\<rparr>"
    have "(writer_step ops)\<^sup>*\<^sup>* w ?w1" using fw \<open>w_generation w \<noteq> g\<close> by (intro r_into_rtranclp flush_woken)
    also have "writer_step ops ?w1 ?w2" using flush_enabled[of ?w1 m ops] by simp
    also have "writer_step ops ?w2 ?w3" using flush_checked[of ?w2 m _ ops] fin by simp
    finally show ?thesis by (intro exI[of _ ?w3]) simp
  qed
  then show ?thesis using nil by (simp add: pending_routes_def)
qed

theorem idle_worker_has_drained_witness: "pending_routes (w_pending run0) = 0"
  using idle_worker_has_drained[of "memory_ops None" run_registry 4 run0]
  by (simp add: run0_def writer_start_def)

end
