(* ===== verification/Percent_Coding.thy ===== *)
theory Percent_Coding
  imports Rust_Strings
begin

text \<open>
  Percent encoding and decoding. The decoder is written out three times in the sources
  (\<open>api.rs\<close>, \<open>proxy.rs\<close>, \<open>upstream.rs\<close>, the same text each time); the encoders are
  \<open>encode_segment\<close> of \<open>store/sidecar.rs\<close> and \<open>encode_uri_component\<close> of \<open>errors.rs\<close>,
  which differ in the set of bytes they leave alone.
\<close>

section \<open>Decoding\<close>

definition hex_value :: "char \<Rightarrow> nat option" where
  "hex_value c =
     (let b = byte c
      in if 48 \<le> b \<and> b \<le> 57 then Some (b - 48)
         else if 97 \<le> b \<and> b \<le> 102 then Some (b - 97 + 10)
         else if 65 \<le> b \<and> b \<le> 70 then Some (b - 65 + 10)
         else None)"

fun percent_bytes :: "string \<Rightarrow> string option" where
  "percent_bytes [] = Some []"
| "percent_bytes (c # s) =
     (if c = CHR ''%'' then
        (case s of
           h # l # rest \<Rightarrow>
             (case hex_value h of
                None \<Rightarrow> None
              | Some high \<Rightarrow>
                  (case hex_value l of
                     None \<Rightarrow> None
                   | Some low \<Rightarrow>
                       map_option (\<lambda>d. char_of (high * 16 + low) # d) (percent_bytes rest)))
         | _ \<Rightarrow> None)
      else map_option (\<lambda>d. c # d) (percent_bytes s))"

definition from_utf8 :: "string \<Rightarrow> string option" where
  "from_utf8 s = (if utf8_valid s then Some s else None)"

definition percent_decode :: "string \<Rightarrow> string option" where
  "percent_decode input = Option.bind (percent_bytes input) from_utf8"

section \<open>Encoding\<close>

definition hex_digit :: "nat \<Rightarrow> char" where
  "hex_digit nibble = char_of (if nibble < 10 then 48 + nibble else 65 + nibble - 10)"

definition percent_byte :: "char \<Rightarrow> string" where
  "percent_byte c = [CHR ''%'', hex_digit (byte c div 16), hex_digit (byte c mod 16)]"

definition encode_with :: "(char \<Rightarrow> bool) \<Rightarrow> string \<Rightarrow> string" where
  "encode_with keep s = concat (map (\<lambda>c. if keep c then [c] else percent_byte c) s)"

definition encode_segment :: "string \<Rightarrow> string" where
  "encode_segment raw =
     encode_with (\<lambda>c. is_ascii_alphanumeric c \<or> c \<in> set ''-._~'') raw"

definition encode_uri_component :: "string \<Rightarrow> string" where
  "encode_uri_component value =
     encode_with (\<lambda>c. is_ascii_alphanumeric c \<or> c \<in> set ''-_.!~*()'' \<or> byte c = 39) value"

section \<open>Round trip\<close>

lemma nibbles:
  "list_all (\<lambda>n. hex_value (hex_digit n) = Some n \<and> is_ascii_alphanumeric (hex_digit n)) [0..<16]"
  by (simp add: upt_rec hex_value_def hex_digit_def byte_def Let_def is_ascii_alphanumeric_def
      is_ascii_alphabetic_def is_ascii_digit_def)

lemma hex_value_digit: "n < 16 \<Longrightarrow> hex_value (hex_digit n) = Some n"
  using nibbles by (simp add: list_all_iff)

lemma hex_digit_ascii: "n < 16 \<Longrightarrow> is_ascii_alphanumeric (hex_digit n)"
  using nibbles by (simp add: list_all_iff)

lemma percent_bytes_byte:
  "percent_bytes (percent_byte c @ s) = map_option (\<lambda>d. c # d) (percent_bytes s)"
proof -
  have "byte c div 16 < 16" using byte_less_256[of c] by (simp add: less_mult_imp_div_less)
  moreover have "byte c div 16 * 16 + byte c mod 16 = byte c" by simp
  moreover have "char_of (byte c) = c" by (simp add: byte_def)
  ultimately show ?thesis by (simp add: percent_byte_def hex_value_digit)
qed

lemma percent_bytes_encode:
  assumes "\<not> keep CHR ''%''"
  shows "percent_bytes (encode_with keep s @ t) = map_option (\<lambda>d. s @ d) (percent_bytes t)"
proof (induction s)
  case (Cons c s)
  have "percent_bytes ((if keep c then [c] else percent_byte c) @ u) =
      map_option (\<lambda>d. c # d) (percent_bytes u)" for u
    using assms by (cases "keep c") (auto simp: percent_bytes_byte)
  with Cons show ?case
    by (simp add: encode_with_def option.map_comp comp_def del: percent_bytes.simps)
qed (simp add: encode_with_def option.map_ident)

lemma percent_keep: "\<not> is_ascii_alphanumeric CHR ''%''"
  by (simp add: is_ascii_alphanumeric_def is_ascii_alphabetic_def is_ascii_digit_def byte_def)

lemma decode_encode_segment: "utf8_valid s \<Longrightarrow> percent_decode (encode_segment s) = Some s"
  using percent_bytes_encode[of "\<lambda>c. is_ascii_alphanumeric c \<or> c \<in> set ''-._~''" s "[]"] percent_keep
  by (simp add: percent_decode_def encode_segment_def from_utf8_def)

lemma decode_encode_uri_component: "utf8_valid s \<Longrightarrow> percent_decode (encode_uri_component s) = Some s"
  using percent_bytes_encode[of "\<lambda>c. is_ascii_alphanumeric c \<or> c \<in> set ''-_.!~*()'' \<or> byte c = 39" s "[]"]
    percent_keep
  by (simp add: percent_decode_def encode_uri_component_def from_utf8_def byte_def)

text \<open>What an encoder emits, byte for byte.\<close>

lemma encode_with_bytes:
  assumes "c \<in> set (encode_with keep s)"
  shows "keep c \<or> c = CHR ''%'' \<or> is_ascii_alphanumeric c"
proof -
  obtain x where "x \<in> set s" "c \<in> set (if keep x then [x] else percent_byte x)"
    using assms by (auto simp: encode_with_def)
  moreover have "byte x div 16 < 16" "byte x mod 16 < 16"
    using byte_less_256[of x] by (simp_all add: less_mult_imp_div_less)
  ultimately show ?thesis by (auto simp: percent_byte_def hex_digit_ascii split: if_splits)
qed

end
