(* ===== verification/Headers.thy ===== *)
theory Headers
  imports Rust_Strings
begin

text \<open>
  Header maps: a multimap from lower-case header names to byte values. Only what the sources rely
  on is fixed: the values of one name keep their order; the order between names carries no
  meaning.
\<close>

type_synonym header_map = "(string \<times> string) list"

definition hm_get :: "string \<Rightarrow> header_map \<Rightarrow> string option" where
  "hm_get n h = map_of h n"

definition hm_get_all :: "string \<Rightarrow> header_map \<Rightarrow> string list" where
  "hm_get_all n h = map snd (filter (\<lambda>b. fst b = n) h)"

definition hm_remove :: "string \<Rightarrow> header_map \<Rightarrow> header_map" where
  "hm_remove n h = filter (\<lambda>b. fst b \<noteq> n) h"

definition hm_insert :: "string \<Rightarrow> string \<Rightarrow> header_map \<Rightarrow> header_map" where
  "hm_insert n v h = hm_remove n h @ [(n, v)]"

definition hm_append :: "string \<Rightarrow> string \<Rightarrow> header_map \<Rightarrow> header_map" where
  "hm_append n v h = h @ [(n, v)]"

definition hm_contains :: "string \<Rightarrow> header_map \<Rightarrow> bool" where
  "hm_contains n h \<longleftrightarrow> hm_get n h \<noteq> None"

definition hm_names :: "header_map \<Rightarrow> string list" where
  "hm_names h = remdups (map fst h)"

text \<open>\<open>HeaderValue::to_str\<close>: the text of a value of visible ASCII characters, spaces and tabs.\<close>

definition header_to_str :: "string \<Rightarrow> string option" where
  "header_to_str v =
     (if list_all (\<lambda>c. byte c = 9 \<or> 32 \<le> byte c \<and> byte c < 127) v then Some v else None)"

named_theorems header_laws \<open>what a lookup sees after an update of a header map\<close>

lemma hm_get_all_remove [header_laws]:
  "hm_get_all m (hm_remove n h) = (if m = n then [] else hm_get_all m h)"
proof -
  have "filter (\<lambda>x. fst x \<noteq> n \<and> fst x = m) h = (if m = n then [] else filter (\<lambda>b. fst b = m) h)"
    by (induction h) auto
  then show ?thesis by (simp add: hm_get_all_def hm_remove_def)
qed

lemma hm_get_all_insert [header_laws]:
  "hm_get_all m (hm_insert n v h) = (if m = n then [v] else hm_get_all m h)"
  using hm_get_all_remove[of m n h]
  by (auto simp: hm_insert_def hm_get_all_def split: if_splits)

lemma hm_get_all_append [header_laws]:
  "hm_get_all m (hm_append n v h) = (if m = n then hm_get_all m h @ [v] else hm_get_all m h)"
  by (simp add: hm_get_all_def hm_append_def)

lemma hm_get_hd: "hm_get n h = (case hm_get_all n h of [] \<Rightarrow> None | v # vs \<Rightarrow> Some v)"
  by (induction h) (auto simp: hm_get_def hm_get_all_def)

lemma hm_get_insert [header_laws]: "hm_get m (hm_insert n v h) = (if m = n then Some v else hm_get m h)"
  by (simp add: hm_get_hd header_laws)

lemma hm_get_remove [header_laws]: "hm_get m (hm_remove n h) = (if m = n then None else hm_get m h)"
  by (simp add: hm_get_hd header_laws)

lemma hm_contains_iff: "hm_contains n h \<longleftrightarrow> n \<in> fst ` set h"
  by (auto simp: hm_contains_def hm_get_def map_of_eq_None_iff)

end
