(* ===== verification/Metrics.thy ===== *)
theory Metrics
  imports Rust_Strings
begin

text \<open>
  \<open>src/src/metrics.rs\<close>: process counters, the two duration summaries with their bounded window
  of recent samples, and the Prometheus text rendering of the counters. Samples are
  floating-point seconds in the source; the model leaves their type and addition open, since only
  their number and order matter here.
\<close>

section \<open>Summaries\<close>

definition SUMMARY_WINDOW_CAPACITY :: nat where
  "SUMMARY_WINDOW_CAPACITY = 4096"

record 'f summary =
  sum_count :: u64
  sum_total :: 'f
  sum_recent :: "'f list"

definition summary_default :: "'f \<Rightarrow> 'f summary" where
  "summary_default zero = \<lparr>sum_count = 0, sum_total = zero, sum_recent = []\<rparr>"

definition summary_observe :: "('f \<Rightarrow> 'f \<Rightarrow> 'f) \<Rightarrow> 'f \<Rightarrow> 'f summary \<Rightarrow> 'f summary" where
  "summary_observe add value s =
     (let s = s\<lparr>sum_count := saturating_add1 (sum_count s), sum_total := add (sum_total s) value\<rparr>;
          s = (if length (sum_recent s) = SUMMARY_WINDOW_CAPACITY
               then s\<lparr>sum_recent := tl (sum_recent s)\<rparr> else s)
      in s\<lparr>sum_recent := sum_recent s @ [value]\<rparr>)"

section \<open>Counters\<close>

record 'f metrics =
  requests_api :: "(u16, u64) btree"
  requests_proxy :: "(u16, u64) btree"
  api_route_get :: u64
  api_route_add :: u64
  api_route_delete :: u64
  find_target_for_req :: "'f summary"
  last_activity_updating :: "'f summary"
  requests_ws :: u64
  requests_web :: u64
  activity_persistence_failures :: u64
  activity_dropped :: u64

definition metrics_new :: "'f \<Rightarrow> 'f metrics" where
  "metrics_new zero =
     \<lparr>requests_api = [], requests_proxy = [], api_route_get = 0, api_route_add = 0,
      api_route_delete = 0, find_target_for_req = summary_default zero,
      last_activity_updating = summary_default zero, requests_ws = 0, requests_web = 0,
      activity_persistence_failures = 0, activity_dropped = 0\<rparr>"

definition bump :: "u16 \<Rightarrow> (u16, u64) btree \<Rightarrow> (u16, u64) btree" where
  "bump status counts =
     bt_insert status ((case bt_get status counts of None \<Rightarrow> 0 | Some n \<Rightarrow> n) + 1) counts"

definition record_api_request :: "u16 \<Rightarrow> 'f metrics \<Rightarrow> 'f metrics" where
  "record_api_request status m = m\<lparr>requests_api := bump status (requests_api m)\<rparr>"

definition record_api_route_get :: "'f metrics \<Rightarrow> 'f metrics" where
  "record_api_route_get m = m\<lparr>api_route_get := api_route_get m + 1\<rparr>"

definition record_api_route_add :: "'f metrics \<Rightarrow> 'f metrics" where
  "record_api_route_add m = m\<lparr>api_route_add := api_route_add m + 1\<rparr>"

definition record_api_route_delete :: "'f metrics \<Rightarrow> 'f metrics" where
  "record_api_route_delete m = m\<lparr>api_route_delete := api_route_delete m + 1\<rparr>"

definition record_find_target :: "('f \<Rightarrow> 'f \<Rightarrow> 'f) \<Rightarrow> 'f \<Rightarrow> 'f metrics \<Rightarrow> 'f metrics" where
  "record_find_target add d m =
     m\<lparr>find_target_for_req := summary_observe add d (find_target_for_req m)\<rparr>"

definition record_last_activity_update :: "('f \<Rightarrow> 'f \<Rightarrow> 'f) \<Rightarrow> 'f \<Rightarrow> 'f metrics \<Rightarrow> 'f metrics" where
  "record_last_activity_update add d m =
     m\<lparr>last_activity_updating := summary_observe add d (last_activity_updating m)\<rparr>"

definition record_ws_request :: "'f metrics \<Rightarrow> 'f metrics" where
  "record_ws_request m = m\<lparr>requests_ws := requests_ws m + 1\<rparr>"

definition record_web_request :: "'f metrics \<Rightarrow> 'f metrics" where
  "record_web_request m = m\<lparr>requests_web := requests_web m + 1\<rparr>"

definition record_proxy_request :: "u16 \<Rightarrow> 'f metrics \<Rightarrow> 'f metrics" where
  "record_proxy_request status m = m\<lparr>requests_proxy := bump status (requests_proxy m)\<rparr>"

definition record_activity_persistence_failure :: "'f metrics \<Rightarrow> 'f metrics" where
  "record_activity_persistence_failure m =
     m\<lparr>activity_persistence_failures := activity_persistence_failures m + 1\<rparr>"

definition record_activity_drop :: "'f metrics \<Rightarrow> 'f metrics" where
  "record_activity_drop m = m\<lparr>activity_dropped := activity_dropped m + 1\<rparr>"

section \<open>Rendering\<close>

definition newline :: string where
  "newline = [CHR 0x0A]"

definition render_counter :: "string \<Rightarrow> string \<Rightarrow> u64 \<Rightarrow> string" where
  "render_counter name help value =
     ''# HELP '' @ name @ '' '' @ help @ newline @ ''# TYPE '' @ name @ '' counter'' @ newline
     @ name @ '' '' @ decimal (unat value) @ newline @ newline"

definition quote_char :: string where
  "quote_char = [CHR 0x22]"

definition render_status_counter :: "string \<Rightarrow> string \<Rightarrow> (u16, u64) btree \<Rightarrow> string" where
  "render_status_counter name help values =
     ''# HELP '' @ name @ '' '' @ help @ newline @ ''# TYPE '' @ name @ '' counter'' @ newline
     @ concat (map (\<lambda>(status, value). name @ ''{status='' @ quote_char @ decimal (unat status)
                      @ quote_char @ ''} '' @ decimal (unat value) @ newline) values)
     @ newline"

section \<open>Lemmas\<close>

text \<open>The window after a sequence of observations: the most recent samples, as many as fit.\<close>

definition summary_run :: "('f \<Rightarrow> 'f \<Rightarrow> 'f) \<Rightarrow> 'f list \<Rightarrow> 'f summary \<Rightarrow> 'f summary" where
  "summary_run add vs s = fold (summary_observe add) vs s"

definition newest :: "nat \<Rightarrow> 'a list \<Rightarrow> 'a list" where
  "newest n xs = drop (length xs - n) xs"

lemma newest_snoc:
  assumes "0 < n"
  shows "newest n (xs @ [x]) = (if length (newest n xs) = n then tl (newest n xs) else newest n xs) @ [x]"
proof (cases "length xs < n")
  case True
  then show ?thesis by (simp add: newest_def)
next
  case False
  then have "Suc (length xs) - n = Suc (length xs - n)" and "length (newest n xs) = n" by (auto simp: newest_def)
  then show ?thesis using assms False by (simp add: newest_def drop_Suc tl_drop)
qed

lemma summary_observe_recent:
  "sum_recent (summary_observe add v s) =
     (if length (sum_recent s) = SUMMARY_WINDOW_CAPACITY then tl (sum_recent s) else sum_recent s) @ [v]"
  by (simp add: summary_observe_def Let_def)

text \<open>The summary window holds exactly the most recent 4096 samples, in order, for any sequence of
  observations: all of them until the window is full, and from then on it slides by one.
\<close>

theorem summary_window_recent:
  "sum_recent (summary_run add vs (summary_default zero)) = drop (length vs - 4096) vs"
proof (induction vs rule: rev_induct)
  case Nil
  show ?case by (simp add: summary_run_def summary_default_def)
next
  case (snoc v vs)
  then have "sum_recent (summary_run add vs (summary_default zero)) = newest SUMMARY_WINDOW_CAPACITY vs"
    by (simp add: newest_def SUMMARY_WINDOW_CAPACITY_def)
  moreover have "summary_run add (vs @ [v]) (summary_default zero) =
      summary_observe add v (summary_run add vs (summary_default zero))"
    by (simp add: summary_run_def)
  ultimately have "sum_recent (summary_run add (vs @ [v]) (summary_default zero)) =
      newest SUMMARY_WINDOW_CAPACITY (vs @ [v])"
    using newest_snoc[of SUMMARY_WINDOW_CAPACITY vs v]
    by (simp add: summary_observe_recent SUMMARY_WINDOW_CAPACITY_def)
  then show ?case by (simp add: newest_def SUMMARY_WINDOW_CAPACITY_def)
qed

end
