(* ===== verification/Api.thy ===== *)
theory Api
  imports Route_Registry Percent_Coding Headers Metrics
begin

text \<open>
  \<open>src/src/api.rs\<close>: the route-management API, from the router and the token check to the
  handlers and their error texts. Code of other packages (JSON, URL, form and date parsing, the
  constant-time comparison) is in the record \<open>api_env\<close>, an argument of the definitions.
\<close>

section \<open>Requests, responses, environment\<close>

record ('e, 'f) api_env =
  env_json :: "string \<Rightarrow> ('e, json) result"
  env_is_eof :: "'e \<Rightarrow> bool"
  env_display :: "'e \<Rightarrow> string"
  env_to_string :: "string \<Rightarrow> string option"
  env_first_value :: "string \<Rightarrow> nat option"
  env_url_path :: "string \<Rightarrow> string option"
  env_form :: "string \<Rightarrow> (string \<times> string) list"
  env_rfc3339 :: "string \<Rightarrow> timestamp option"
  env_date :: "string \<Rightarrow> timestamp option"
  env_rfc2822 :: "string \<Rightarrow> timestamp option"
  env_spaced :: "string \<Rightarrow> timestamp option"
  env_ct_eq :: "string \<Rightarrow> string \<Rightarrow> bool"
  env_elapsed :: 'f
  env_add :: "'f \<Rightarrow> 'f \<Rightarrow> 'f"

record api_request =
  req_method :: string
  req_path :: string
  req_query :: "string option"
  req_headers :: header_map
  req_body :: "string option"

datatype api_body =
    EmptyBody
  | TextBody string
  | JsonRoutes "(route_key, route_data) btree"
  | JsonRoute route_data

record api_response =
  resp_status :: nat
  resp_body :: api_body

record ('s, 'f) api_state =
  api_registry :: "'s registry"
  auth_token :: "string option"
  api_metrics :: "'f metrics"

definition MAX_JSON_BODY_BYTES :: nat where
  "MAX_JSON_BODY_BYTES = 1024 * 1024"

definition api_state_new :: "'s registry \<Rightarrow> string option \<Rightarrow> 'f metrics \<Rightarrow> ('s, 'f) api_state" where
  "api_state_new reg token m =
     \<lparr>api_registry = reg,
      auth_token = (case token of None \<Rightarrow> None | Some t \<Rightarrow> if t = [] then None else Some t),
      api_metrics = m\<rparr>"

definition api_empty :: "nat \<Rightarrow> api_response" where
  "api_empty status = \<lparr>resp_status = status, resp_body = EmptyBody\<rparr>"

definition api_text :: "nat \<Rightarrow> string \<Rightarrow> api_response" where
  "api_text status body = \<lparr>resp_status = status, resp_body = TextBody body\<rparr>"

section \<open>Authorization\<close>

definition javascript_whitespace_width :: "string \<Rightarrow> nat option" where
  "javascript_whitespace_width input =
     (case input of
        [] \<Rightarrow> None
      | first # rest \<Rightarrow>
          if byte first \<in> {32, 9, 10, 11, 12, 13, 160} then Some 1
          else if \<not> utf8_valid input then None
          else
            (case utf8_next input of
               None \<Rightarrow> None
             | Some (c, width, r) \<Rightarrow>
                 if c \<in> {0xa0, 0x1680, 0x2028, 0x2029, 0x202f, 0x205f, 0x3000, 0xfeff}
                    \<or> 0x2000 \<le> c \<and> c \<le> 0x200a
                 then Some width else None))"

lemma whitespace_width_bound: "javascript_whitespace_width s = Some w \<Longrightarrow> 0 < w \<and> w \<le> length s"
  by (auto simp: javascript_whitespace_width_def split: list.splits if_splits option.splits
      dest!: utf8_next_split)

function skip_whitespace :: "string \<Rightarrow> string" where
  "skip_whitespace s =
     (case javascript_whitespace_width s of
        None \<Rightarrow> s
      | Some width \<Rightarrow> skip_whitespace (drop width s))"
  by pat_completeness auto
termination
  by (relation "measure length") (auto dest: whitespace_width_bound)

declare skip_whitespace.simps [simp del]

fun take_token :: "string \<Rightarrow> string" where
  "take_token [] = []"
| "take_token (c # s) =
     (if javascript_whitespace_width (c # s) = None then c # take_token s else [])"

definition token_marker :: string where
  "token_marker = ''token''"

fun find_marker :: "string \<Rightarrow> nat option" where
  "find_marker [] = None"
| "find_marker (c # s) =
     (if starts_with token_marker (c # s) then Some 0 else map_option Suc (find_marker s))"

lemma find_marker_Some:
  "find_marker s = Some n \<Longrightarrow> n + 5 \<le> length s \<and> starts_with token_marker (drop n s)"
proof (induction s arbitrary: n)
  case (Cons c s)
  then show ?case
    by (auto simp: starts_with_iff token_marker_def split: if_splits dest!: prefix_length_le)
qed simp

function extract_token :: "string \<Rightarrow> string option" where
  "extract_token header =
     (case find_marker header of
        None \<Rightarrow> None
      | Some found \<Rightarrow>
          (let after_marker = drop (found + length token_marker) header;
               start = skip_whitespace after_marker
           in if length start < length after_marker \<and> take_token start \<noteq> []
              then Some (take_token start)
              else extract_token after_marker))"
  by pat_completeness auto
termination
  by (relation "measure length") (auto simp: token_marker_def dest: find_marker_Some)

declare extract_token.simps [simp del]

definition authorized :: "('e, 'f) api_env \<Rightarrow> ('s, 'f) api_state \<Rightarrow> header_map \<Rightarrow> bool" where
  "authorized env st headers =
     (case auth_token st of
        None \<Rightarrow> True
      | Some expected \<Rightarrow>
          (case Option.bind (hm_get ''authorization'' headers) extract_token of
             None \<Rightarrow> False
           | Some candidate \<Rightarrow>
               (let equal_length = (length candidate = length expected);
                    compared = (if equal_length then candidate else expected)
                in equal_length \<and> env_ct_eq env compared expected)))"

section \<open>Route keys of a request\<close>

datatype route_path_error = PathBadRequest | PathNotFound

fun path_error_response :: "route_path_error \<Rightarrow> api_response" where
  "path_error_response PathBadRequest = api_text 400 ''Bad Request''"
| "path_error_response PathNotFound = api_text 404 ''Not Found''"

definition whatwg_normalized_pathname :: "('e, 'f) api_env \<Rightarrow> string \<Rightarrow> string option" where
  "whatwg_normalized_pathname env path = env_url_path env (''http://route.invalid'' @ path)"

definition clean_again :: "nat \<Rightarrow> route_key \<Rightarrow> route_key" where
  "clean_again n key = ((\<lambda>k. route_key_parse (as_str k)) ^^ n) key"

definition route_key_from_uri ::
  "('e, 'f) api_env \<Rightarrow> string \<Rightarrow> nat \<Rightarrow> (route_path_error, route_key) result" where
  "route_key_from_uri env path clean_count =
     and_then (ok_or PathBadRequest (whatwg_normalized_pathname env path)) (\<lambda>pathname.
     and_then (ok_or PathNotFound (strip_prefix ''/api/routes'' pathname)) (\<lambda>raw.
     and_then (ok_or PathBadRequest (percent_decode raw)) (\<lambda>decoded.
       Ok (clean_again (clean_count - 1)
             (route_key_parse (if decoded = [] then ''/'' else decoded))))))"

section \<open>The inactivity filter\<close>

definition first_value :: "(string \<times> string) list \<Rightarrow> string \<Rightarrow> string option" where
  "first_value parameters key = map_option snd (find (\<lambda>p. fst p = key) parameters)"

definition parse_pinned_date_parse_subset :: "('e, 'f) api_env \<Rightarrow> string \<Rightarrow> timestamp option" where
  "parse_pinned_date_parse_subset env raw =
     (case env_rfc3339 env raw of
        Some t \<Rightarrow> Some t
      | None \<Rightarrow>
          (case env_date env raw of
             Some t \<Rightarrow> Some t
           | None \<Rightarrow>
               (case env_rfc2822 env raw of Some t \<Rightarrow> Some t | None \<Rightarrow> env_spaced env raw)))"

definition nonempty :: "string option \<Rightarrow> string option" where
  "nonempty v = (case v of None \<Rightarrow> None | Some s \<Rightarrow> if s = [] then None else Some s)"

definition inactive_since ::
  "('e, 'f) api_env \<Rightarrow> string option \<Rightarrow> (string, timestamp option) result" where
  "inactive_since env query =
     (let parameters = (case query of None \<Rightarrow> [] | Some q \<Rightarrow> env_form env q);
          current = (case nonempty (first_value parameters ''inactiveSince'') of
                       Some v \<Rightarrow> Some v
                     | None \<Rightarrow> nonempty (first_value parameters ''inactive_since''))
      in (case current of
            None \<Rightarrow> Ok None
          | Some raw \<Rightarrow>
              (case parse_pinned_date_parse_subset env raw of
                 Some t \<Rightarrow> Ok (Some t)
               | None \<Rightarrow> Err (''Invalid datestamp '' @ [CHR 0x27] @ raw @ [CHR 0x27]
                                @ '' must be ISO8601.''))))"

section \<open>Error texts for invalid JSON\<close>

fun quote_scan :: "(nat \<times> string) list \<Rightarrow> bool \<Rightarrow> nat \<Rightarrow> nat" where
  "quote_scan [] escaped quotes = quotes"
| "quote_scan ((c, b) # cs) escaped quotes =
     quote_scan cs (if c \<noteq> 92 then False else c = 92 \<and> \<not> escaped)
       (if c = 34 \<and> \<not> escaped then Suc quotes else quotes)"

definition has_unterminated_string :: "string \<Rightarrow> bool" where
  "has_unterminated_string input \<longleftrightarrow> quote_scan (utf8_chars input) False 0 mod 2 = 1"

fun find_non_whitespace :: "nat \<Rightarrow> (nat \<times> string) list \<Rightarrow> (nat \<times> nat) option" where
  "find_non_whitespace pos [] = None"
| "find_non_whitespace pos ((c, b) # cs) =
     (if is_whitespace c then find_non_whitespace (pos + length b) cs else Some (pos, c))"

definition trailing_data_position :: "('e, 'f) api_env \<Rightarrow> string \<Rightarrow> nat option" where
  "trailing_data_position env input =
     (case env_first_value env input of
        None \<Rightarrow> None
      | Some offset \<Rightarrow>
          map_option (\<lambda>(position, c). offset + position)
            (find_non_whitespace 0 (utf8_chars (drop offset input))))"

fun find_byte :: "char \<Rightarrow> string \<Rightarrow> nat option" where
  "find_byte c [] = None"
| "find_byte c (x # s) = (if x = c then Some 0 else map_option Suc (find_byte c s))"

definition unquoted_property_position :: "string \<Rightarrow> nat option" where
  "unquoted_property_position input =
     (case find_byte CHR ''{'' input of
        None \<Rightarrow> None
      | Some open_at \<Rightarrow>
          (case find_non_whitespace 0 (utf8_chars (drop (open_at + 1) input)) of
             None \<Rightarrow> None
           | Some (position, c) \<Rightarrow>
               if c \<noteq> 34 \<and> c \<noteq> 125 then Some (open_at + 1 + position) else None))"

definition syntax_error_at :: "string \<Rightarrow> string \<Rightarrow> nat \<Rightarrow> string" where
  "syntax_error_at message input position =
     (let prefix = take (min position (length input)) input;
          line = length (filter (\<lambda>b. b = CHR 0x0A) prefix) + 1;
          column = (case rsplit_once CHR 0x0A prefix of
                      None \<Rightarrow> length prefix + 1
                    | Some (_, tail) \<Rightarrow> length tail + 1)
      in ''SyntaxError: '' @ message @ '' at position '' @ decimal position @ '' (line ''
         @ decimal line @ '' column '' @ decimal column @ '')'')"

definition javascript_json_error :: "('e, 'f) api_env \<Rightarrow> string \<Rightarrow> 'e \<Rightarrow> string" where
  "javascript_json_error env body error =
     (if \<not> utf8_valid body then ''SyntaxError: '' @ env_display env error
      else
        (let trimmed = str_trim_end body
         in if has_unterminated_string trimmed
            then syntax_error_at ''Unterminated string in JSON'' body (length body)
            else if ends_with ''{'' trimmed
            then syntax_error_at (''Expected property name or '' @ [CHR 0x27] @ ''}'' @ [CHR 0x27] @ '' in JSON'')
                   body (length trimmed)
            else if env_is_eof env error then ''SyntaxError: Unexpected end of JSON input''
            else
              (case trailing_data_position env body of
                 Some position \<Rightarrow>
                   syntax_error_at ''Unexpected non-whitespace character after JSON'' body position
               | None \<Rightarrow>
                   if ends_with '',}'' trimmed
                   then syntax_error_at ''Expected double-quoted property name in JSON'' body
                          (length trimmed - 1)
                   else if ends_with '',]'' trimmed
                   then ''SyntaxError: Unexpected token '' @ [CHR 0x27] @ '']'' @ [CHR 0x27] @ '', ''
                        @ (case env_to_string env body of Some q \<Rightarrow> q | None \<Rightarrow> [CHR 0x22, CHR 0x22])
                        @ '' is not valid JSON''
                   else
                     (case unquoted_property_position body of
                        Some position \<Rightarrow>
                          syntax_error_at (''Expected property name or '' @ [CHR 0x27] @ ''}'' @ [CHR 0x27]
                            @ '' in JSON'') body position
                      | None \<Rightarrow> ''SyntaxError: '' @ env_display env error))))"

section \<open>Handlers\<close>

definition registry_unavailable :: "('s, 'f) api_state \<Rightarrow> bool" where
  "registry_unavailable st \<longleftrightarrow> consistency_status (api_registry st) = Inconsistent"

definition mutation_failure :: "('s, 'f) api_state \<Rightarrow> store_error \<Rightarrow> api_response" where
  "mutation_failure st error =
     (if is_indeterminate_error error \<or> registry_unavailable st then api_empty 503
      else api_text 500 ''Internal Server Error'')"

definition get_all_routes ::
  "('e, 'f) api_env \<Rightarrow> api_request \<Rightarrow> ('s, 'f) api_state \<Rightarrow> api_response \<times> ('s, 'f) api_state" where
  "get_all_routes env rq st =
     (if \<not> authorized env st (req_headers rq) then (api_empty 403, st)
      else if registry_unavailable st then (api_empty 503, st)
      else
        (case inactive_since env (req_query rq) of
           Err value \<Rightarrow> (api_text 400 value, st)
         | Ok inactive \<Rightarrow>
             (let routes = registry_all (api_registry st);
                  routes = (case inactive of
                              Some t \<Rightarrow> bt_retain (\<lambda>_ route. last_activity route < t) routes
                            | None \<Rightarrow> routes)
              in (\<lparr>resp_status = 200, resp_body = JsonRoutes routes\<rparr>,
                  st\<lparr>api_metrics := record_api_route_get (api_metrics st)\<rparr>))))"

definition get_one_route ::
  "('e, 'f) api_env \<Rightarrow> api_request \<Rightarrow> ('s, 'f) api_state \<Rightarrow> api_response \<times> ('s, 'f) api_state" where
  "get_one_route env rq st =
     (if \<not> authorized env st (req_headers rq) then (api_empty 403, st)
      else if registry_unavailable st then (api_empty 503, st)
      else
        (case route_key_from_uri env (req_path rq) 2 of
           Err error \<Rightarrow> (path_error_response error, st)
         | Ok key \<Rightarrow>
             (case registry_get (api_registry st) key of
                Some route \<Rightarrow> (\<lparr>resp_status = 200, resp_body = JsonRoute route\<rparr>, st)
              | None \<Rightarrow> (api_empty 404, st))))"

fun json_object :: "json \<Rightarrow> json_map" where
  "json_object (JObject object) = object"
| "json_object v = []"

fun json_string :: "json option \<Rightarrow> string option" where
  "json_string (Some (JString t)) = Some t"
| "json_string v = None"

definition post_route ::
  "('e, 'f) api_env \<Rightarrow> 's store_ops \<Rightarrow> bool \<Rightarrow> timestamp \<Rightarrow> route_key \<Rightarrow> api_request \<Rightarrow> ('s, 'f) api_state
   \<Rightarrow> api_response \<times> ('s, 'f) api_state" where
  "post_route env ops runtime now key rq st =
     (case req_body rq of
        None \<Rightarrow> (api_empty 413, st)
      | Some body \<Rightarrow>
          if MAX_JSON_BODY_BYTES < length body then (api_empty 413, st)
          else
            (case env_json env body of
               Err error \<Rightarrow>
                 (api_text 400 (''Body not valid JSON: '' @ javascript_json_error env body error), st)
             | Ok value \<Rightarrow>
                 if \<not> authorized env st (req_headers rq) then (api_empty 403, st)
                 else if registry_unavailable st then (api_empty 503, st)
                 else
                   (let object = json_object value;
                        tgt = json_string (bt_get ''target'' object);
                        object = bt_remove ''target'' object
                    in (case tgt of
                          None \<Rightarrow> (api_text 400 (''Must specify '' @ [CHR 0x27] @ ''target'' @ [CHR 0x27]
                                                    @ '' as string''), st)
                        | Some tgt \<Rightarrow>
                            (let object = bt_remove ''last_activity'' object
                             in (case run_mutation ops runtime False now (MAdd key tgt object) (api_registry st) of
                                   (Err error, reg) \<Rightarrow>
                                     (let st = st\<lparr>api_registry := reg\<rparr> in (mutation_failure st error, st))
                                 | (Ok _, reg) \<Rightarrow>
                                     (api_empty 201,
                                      st\<lparr>api_registry := reg,
                                         api_metrics := record_api_route_add
                                           (record_last_activity_update (env_add env) (env_elapsed env)
                                             (api_metrics st))\<rparr>)))))))"

definition post_one_route ::
  "('e, 'f) api_env \<Rightarrow> 's store_ops \<Rightarrow> bool \<Rightarrow> timestamp \<Rightarrow> api_request \<Rightarrow> ('s, 'f) api_state
   \<Rightarrow> api_response \<times> ('s, 'f) api_state" where
  "post_one_route env ops runtime now rq st =
     (case route_key_from_uri env (req_path rq) 2 of
        Err error \<Rightarrow> (path_error_response error, st)
      | Ok key \<Rightarrow> post_route env ops runtime now key rq st)"

definition post_root_route ::
  "('e, 'f) api_env \<Rightarrow> 's store_ops \<Rightarrow> bool \<Rightarrow> timestamp \<Rightarrow> api_request \<Rightarrow> ('s, 'f) api_state
   \<Rightarrow> api_response \<times> ('s, 'f) api_state" where
  "post_root_route env ops runtime now rq st =
     post_route env ops runtime now (route_key_parse ''/'') rq st"

definition delete_route ::
  "('e, 'f) api_env \<Rightarrow> 's store_ops \<Rightarrow> bool \<Rightarrow> timestamp \<Rightarrow> route_key \<Rightarrow> header_map \<Rightarrow> ('s, 'f) api_state
   \<Rightarrow> api_response \<times> ('s, 'f) api_state" where
  "delete_route env ops runtime now key headers st =
     (if \<not> authorized env st headers then (api_empty 403, st)
      else if registry_unavailable st then (api_empty 503, st)
      else
        (case run_mutation ops runtime False now (MDelete key) (api_registry st) of
           (Err error, reg) \<Rightarrow> (let st = st\<lparr>api_registry := reg\<rparr> in (mutation_failure st error, st))
         | (Ok deleted, reg) \<Rightarrow>
             (let status = (case deleted of Some _ \<Rightarrow> 204 | None \<Rightarrow> 404)
              in (api_empty status,
                  st\<lparr>api_registry := reg,
                     api_metrics := (if \<not> (500 \<le> status \<and> status < 600)
                                     then record_api_route_delete (api_metrics st)
                                     else api_metrics st)\<rparr>))))"

definition delete_one_route ::
  "('e, 'f) api_env \<Rightarrow> 's store_ops \<Rightarrow> bool \<Rightarrow> timestamp \<Rightarrow> api_request \<Rightarrow> ('s, 'f) api_state
   \<Rightarrow> api_response \<times> ('s, 'f) api_state" where
  "delete_one_route env ops runtime now rq st =
     (case route_key_from_uri env (req_path rq) 1 of
        Err error \<Rightarrow> (path_error_response error, st)
      | Ok key \<Rightarrow> delete_route env ops runtime now key (req_headers rq) st)"

definition delete_root_route ::
  "('e, 'f) api_env \<Rightarrow> 's store_ops \<Rightarrow> bool \<Rightarrow> timestamp \<Rightarrow> api_request \<Rightarrow> ('s, 'f) api_state
   \<Rightarrow> api_response \<times> ('s, 'f) api_state" where
  "delete_root_route env ops runtime now rq st =
     delete_route env ops runtime now (route_key_parse ''/'') (req_headers rq) st"

definition method_not_allowed :: api_response where
  "method_not_allowed = api_text 405 ''Method not supported''"

definition api_not_found :: api_response where
  "api_not_found = api_text 404 ''Not Found''"

text \<open>
  The router: the two root paths, the wildcard below them, and the fallbacks; every completed
  request is counted by its status.
\<close>

definition dispatch ::
  "('e, 'f) api_env \<Rightarrow> 's store_ops \<Rightarrow> bool \<Rightarrow> timestamp \<Rightarrow> api_request \<Rightarrow> ('s, 'f) api_state
   \<Rightarrow> api_response \<times> ('s, 'f) api_state" where
  "dispatch env ops runtime now rq st =
     (if req_path rq = ''/api/routes'' \<or> req_path rq = ''/api/routes/'' then
        (if req_method rq = ''GET'' then get_all_routes env rq st
         else if req_method rq = ''POST'' then post_root_route env ops runtime now rq st
         else if req_method rq = ''DELETE'' then delete_root_route env ops runtime now rq st
         else (method_not_allowed, st))
      else if starts_with ''/api/routes/'' (req_path rq) then
        (if req_method rq = ''GET'' then get_one_route env rq st
         else if req_method rq = ''POST'' then post_one_route env ops runtime now rq st
         else if req_method rq = ''DELETE'' then delete_one_route env ops runtime now rq st
         else (method_not_allowed, st))
      else (api_not_found, st))"

definition record_completed_request :: "api_response \<Rightarrow> ('s, 'f) api_state \<Rightarrow> ('s, 'f) api_state" where
  "record_completed_request response st =
     st\<lparr>api_metrics := record_api_request (of_nat (resp_status response)) (api_metrics st)\<rparr>"

definition router ::
  "('e, 'f) api_env \<Rightarrow> 's store_ops \<Rightarrow> bool \<Rightarrow> timestamp \<Rightarrow> api_request \<Rightarrow> ('s, 'f) api_state
   \<Rightarrow> api_response \<times> ('s, 'f) api_state" where
  "router env ops runtime now rq st =
     (case dispatch env ops runtime now rq st of
        (response, st') \<Rightarrow> (response, record_completed_request response st'))"

section \<open>The token search\<close>

text \<open>
  The specification of \<open>extract_token\<close>: the leftmost match of the pattern
  \<open>token\s+(\S+)\<close>, tried at every position of the header.
\<close>

definition token_here :: "string \<Rightarrow> string option" where
  "token_here s =
     (if starts_with token_marker s then
        (let after_marker = drop (length token_marker) s;
             start = skip_whitespace after_marker
         in if length start < length after_marker \<and> take_token start \<noteq> []
            then Some (take_token start) else None)
      else None)"

fun token_search :: "string \<Rightarrow> string option" where
  "token_search [] = None"
| "token_search (c # s) =
     (case token_here (c # s) of Some t \<Rightarrow> Some t | None \<Rightarrow> token_search s)"

lemma token_search_None: "find_marker s = None \<Longrightarrow> token_search s = None"
  by (induction s) (auto simp: token_here_def split: if_splits)

lemma token_search_found:
  "find_marker s = Some n \<Longrightarrow> token_search s = token_search (drop n s)"
proof (induction s arbitrary: n)
  case (Cons c s)
  then show ?case by (auto simp: token_here_def split: if_splits)
qed simp

text \<open>The marker does not overlap itself, so the search may continue behind it.\<close>

lemma token_search_skip:
  assumes "starts_with token_marker s" "token_here s = None"
  shows "token_search s = token_search (drop 5 s)"
proof -
  obtain r where s: "s = token_marker @ r"
    using assms(1) by (auto simp: starts_with_iff prefix_def)
  have "token_here (c # t) = None" if "c \<noteq> CHR ''t''" for c t
    using that by (auto simp: token_here_def starts_with_iff token_marker_def prefix_def)
  with assms(2) show ?thesis by (simp add: s token_marker_def)
qed

lemma extract_token_search: "extract_token h = token_search h"
proof (induction h rule: extract_token.induct)
  case (1 h)
  show ?case
  proof (cases "find_marker h")
    case None
    then show ?thesis by (simp add: extract_token.simps[of h] token_search_None)
  next
    case (Some n)
    let ?a = "drop (n + 5) h"
    have five: "length token_marker = 5" by (simp add: token_marker_def)
    have at: "starts_with token_marker (drop n h)" "n + 5 \<le> length h"
      using find_marker_Some[OF Some] by simp_all
    then obtain c t where d: "drop n h = c # t" by (cases "drop n h") auto
    have here: "token_here (drop n h) =
        (if length (skip_whitespace ?a) < length ?a \<and> take_token (skip_whitespace ?a) \<noteq> []
         then Some (take_token (skip_whitespace ?a)) else None)"
      using at(1) by (simp add: token_here_def Let_def five add.commute)
    show ?thesis
    proof (cases "length (skip_whitespace ?a) < length ?a \<and> take_token (skip_whitespace ?a) \<noteq> []")
      case True
      have "token_search (drop n h) = Some (take_token (skip_whitespace ?a))"
        using here True d by simp
      then show ?thesis
        using True Some token_search_found[OF Some]
        by (simp add: extract_token.simps[of h] Let_def five)
    next
      case False
      have "token_search (drop n h) = token_search ?a"
        using token_search_skip[OF at(1)] here False by (simp add: add.commute)
      moreover have "extract_token ?a = token_search ?a"
        using 1[OF Some refl refl] False five by simp
      ultimately show ?thesis
        using False Some token_search_found[OF Some]
        by (auto simp add: extract_token.simps[of h] Let_def five)
    qed
  qed
qed

text \<open>Token extraction finds exactly the leftmost match of \<open>token\s+(\S+)\<close> in the header,
  although it jumps from marker to marker.
\<close>

theorem extract_token_leftmost: "extract_token header = token_search header"
  by (rule extract_token_search)


definition sample_env :: "(unit, nat) api_env" where
  "sample_env =
     \<lparr>env_json = (\<lambda>b. if b = ''{}'' then Ok (JObject []) else
          Ok (JObject [(''jupyter'', JBool True), (''target'', JString b)])),
      env_is_eof = (\<lambda>_. False), env_display = (\<lambda>_. []), env_to_string = Some,
      env_first_value = (\<lambda>_. None),
      env_url_path = (\<lambda>u. Some (drop (length ''http://route.invalid'') u)), env_form = (\<lambda>_. []),
      env_rfc3339 = (\<lambda>_. None), env_date = (\<lambda>_. None), env_rfc2822 = (\<lambda>_. None),
      env_spaced = (\<lambda>_. None), env_ct_eq = (=), env_elapsed = 0, env_add = (+)\<rparr>"

definition sample_state :: "(memory_store, nat) api_state" where
  "sample_state =
     api_state_new \<lparr>reg_store = memory_new, reg_snapshot = from_routes [], reg_tracker = tracker_default\<rparr>
       (Some ''s3cret'') (metrics_new 0)"


end
