(* ===== verification/Api_Safety.thy ===== *)
theory Api_Safety
  imports Api Registry_Safety
begin

text \<open>
  What the management API guarantees: requests without the token neither change nor reveal
  anything, every change is a well-formed registry mutation, a created route can be read back, and
  an uncertain registry is neither served nor changed.
\<close>

section \<open>Frame\<close>

lemma path_error_status [simp]: "resp_status (path_error_response e) \<noteq> 201"
  by (cases e) (simp_all add: api_text_def)

definition reveals :: "api_response \<Rightarrow> bool" where
  "reveals r \<longleftrightarrow> (case resp_body r of JsonRoutes _ \<Rightarrow> True | JsonRoute _ \<Rightarrow> True | _ \<Rightarrow> False)"

lemma reveals_simps [simp]:
  "\<not> reveals (api_empty n)" "\<not> reveals (api_text n t)" "\<not> reveals (path_error_response e)"
  "\<not> reveals method_not_allowed" "\<not> reveals api_not_found"
  by (cases e; simp add: reveals_def api_empty_def api_text_def method_not_allowed_def api_not_found_def)+

lemma router_frame:
  "router env ops rt now rq st = (r, st') \<Longrightarrow> \<exists>st''. dispatch env ops rt now rq st = (r, st'')
     \<and> api_registry st' = api_registry st'' \<and> auth_token st' = auth_token st''"
  by (auto simp: router_def record_completed_request_def split: prod.splits)

lemma denied_dispatch:
  assumes "\<not> authorized env st (req_headers rq)" "dispatch env ops rt now rq st = (r, st')"
  shows "st' = st \<and> \<not> reveals r"
  using assms
  by (auto simp: dispatch_def get_all_routes_def get_one_route_def post_root_route_def
      post_one_route_def post_route_def delete_root_route_def delete_one_route_def delete_route_def
      split: if_splits result.splits option.splits)

text \<open>
  C19. A request that is not authorized changes nothing in the registry and reveals no route, for
  every method, path and body.
\<close>

theorem unauthorized_has_no_effect:
  assumes "\<not> authorized env st (req_headers rq)" "router env ops rt now rq st = (r, st')"
  shows "api_registry st' = api_registry st \<and> auth_token st' = auth_token st \<and> \<not> reveals r"
  using router_frame[OF assms(2)] denied_dispatch[OF assms(1)] by blast

definition sample_post :: "header_map \<Rightarrow> api_request" where
  "sample_post h = \<lparr>req_method = ''POST'', req_path = ''/api/routes/user/a'', req_query = None,
     req_headers = h, req_body = Some ''http://127.0.0.1:8000''\<rparr>"

theorem unauthorized_has_no_effect_witness:
  "api_registry (snd (router sample_env (memory_ops None) True 5 (sample_post []) sample_state))
     = api_registry sample_state"
proof -
  have "\<not> authorized sample_env sample_state (req_headers (sample_post []))"
    by (simp add: authorized_def sample_state_def api_state_new_def sample_post_def hm_get_def)
  from unauthorized_has_no_effect[OF this, of "memory_ops None" True 5] show ?thesis
    by (metis prod.collapse)
qed

section \<open>Every change is a registry mutation\<close>

lemma clean_again_wf: "key_wf k \<Longrightarrow> key_wf (clean_again n k)"
  by (induction n) (auto simp: clean_again_def route_key_parse_def)

lemma route_key_from_uri_wf: "route_key_from_uri env p n = Ok k \<Longrightarrow> key_wf k"
  by (auto simp: route_key_from_uri_def route_key_parse_def intro: clean_again_wf)

lemma stripped_extra_ok:
  assumes "bt_wf obj"
  shows "extra_ok (bt_remove ''last_activity'' (bt_remove ''target'' obj))"
proof -
  have "bt_get ''target'' (bt_remove ''last_activity'' (bt_remove ''target'' obj)) = None"
    "bt_get ''last_activity'' (bt_remove ''last_activity'' (bt_remove ''target'' obj)) = None"
    by (simp_all add: bt_get_remove)
  then show ?thesis using assms by (simp add: extra_ok_def clean_extra_def bt_contains_def wf_intros)
qed

lemma post_route_mutation:
  assumes "\<And>b v. env_json env b = Ok v \<Longrightarrow> bt_wf (json_object v)" "key_wf k"
    "post_route env ops rt now k rq st = (r, st')"
  shows "api_registry st' = api_registry st \<or>
    (\<exists>m. mutation_ok m \<and> api_registry st' = snd (run_mutation ops rt False now m (api_registry st)))"
proof (cases "api_registry st' = api_registry st")
  case False
  then obtain b v t where v: "env_json env b = Ok v"
    and e: "api_registry st' = snd (run_mutation ops rt False now
        (MAdd k t (bt_remove ''last_activity'' (bt_remove ''target'' (json_object v)))) (api_registry st))"
    using assms(3)
    by (auto simp: post_route_def Let_def prod.case_eq_if split: option.splits if_splits result.splits)
  have "mutation_ok (MAdd k t (bt_remove ''last_activity'' (bt_remove ''target'' (json_object v))))"
    using assms(1)[OF v] assms(2) by (simp add: stripped_extra_ok)
  with e show ?thesis by blast
qed simp

lemma delete_route_mutation:
  assumes "key_wf k" "delete_route env ops rt now k h st = (r, st')"
  shows "api_registry st' = api_registry st \<or>
    (\<exists>m. mutation_ok m \<and> api_registry st' = snd (run_mutation ops rt False now m (api_registry st)))"
proof (cases "api_registry st' = api_registry st")
  case False
  then have "api_registry st' = snd (run_mutation ops rt False now (MDelete k) (api_registry st))"
    using assms(2) by (auto simp: delete_route_def Let_def prod.case_eq_if split: if_splits result.splits)
  then show ?thesis using assms(1) by (intro disjI2 exI[of _ "MDelete k"]) simp
qed simp

lemma dispatch_mutation:
  assumes "\<And>b v. env_json env b = Ok v \<Longrightarrow> bt_wf (json_object v)"
    "dispatch env ops rt now rq st = (r, st')"
  shows "api_registry st' = api_registry st \<or>
    (\<exists>m. mutation_ok m \<and> api_registry st' = snd (run_mutation ops rt False now m (api_registry st)))"
proof -
  have root: "key_wf (route_key_parse ''/'')" by (simp add: route_key_parse_def key_wf_def)
  have get: "api_registry st' = api_registry st"
    if "get_all_routes env rq st = (r, st') \<or> get_one_route env rq st = (r, st')"
    using that by (auto simp: get_all_routes_def get_one_route_def Let_def
        split: if_splits result.splits option.splits)
  consider "api_registry st' = api_registry st"
    | k where "key_wf k" "post_route env ops rt now k rq st = (r, st')"
    | k where "key_wf k" "delete_route env ops rt now k (req_headers rq) st = (r, st')"
    using assms(2) root get
    by (auto simp: dispatch_def post_root_route_def post_one_route_def delete_root_route_def
        delete_one_route_def split: if_splits result.splits dest: route_key_from_uri_wf)
  then show ?thesis
    using post_route_mutation[OF assms(1)] delete_route_mutation by cases blast+
qed

text \<open>
  C21. Every API request, whatever it contains, takes the registry through a sequence of steps of
  the task system with a contract-conforming mutation (normalized key, ordered extension members
  without the two reserved names), or leaves it alone; so all registry invariants hold after it.
\<close>

theorem api_request_refines_tasks:
  assumes "\<And>b v. env_json env b = Ok v \<Longrightarrow> bt_wf (json_object v)"
    and "router env ops rt now rq st = (r, st')"
  shows "\<exists>n'. (reg_step ops)\<^sup>*\<^sup>* (idle (api_registry st) n) (idle (api_registry st') n')"
proof -
  obtain st'' where d: "dispatch env ops rt now rq st = (r, st'')" "api_registry st' = api_registry st''"
    using router_frame[OF assms(2)] by blast
  from dispatch_mutation[OF assms(1) d(1)] show ?thesis
  proof
    assume "api_registry st'' = api_registry st"
    then show ?thesis using d(2) by auto
  next
    assume "\<exists>m. mutation_ok m \<and> api_registry st'' = snd (run_mutation ops rt False now m (api_registry st))"
    then show ?thesis using d(2) run_mutation_steps by metis
  qed
qed

lemma sample_env_json_wf: "env_json sample_env b = Ok v \<Longrightarrow> bt_wf (json_object v)"
  by (auto simp: sample_env_def bt_wf_def split: if_splits)

theorem api_request_refines_tasks_witness:
  "\<exists>n'. (reg_step (memory_ops None))\<^sup>*\<^sup>* (idle (api_registry sample_state) 0)
     (idle (api_registry (snd (router sample_env (memory_ops None) True 5
        (sample_post [(''authorization'', ''token s3cret'')]) sample_state))) n')"
proof (rule api_request_refines_tasks[OF sample_env_json_wf])
  show "router sample_env (memory_ops None) True 5 (sample_post [(''authorization'', ''token s3cret'')])
      sample_state = (fst (router sample_env (memory_ops None) True 5
        (sample_post [(''authorization'', ''token s3cret'')]) sample_state),
       snd (router sample_env (memory_ops None) True 5
        (sample_post [(''authorization'', ''token s3cret'')]) sample_state))"
    by simp
qed

section \<open>Creating and reading back\<close>

lemma authorized_cong: "auth_token st' = auth_token st \<Longrightarrow> authorized env st' h = authorized env st h"
  by (simp add: authorized_def)

lemma post_created:
  assumes "post_route env ops rt now k rq st = (r, st')" "resp_status r = 201"
  obtains b v t where "req_body rq = Some b" "env_json env b = Ok v" "authorized env st (req_headers rq)"
    "json_string (bt_get ''target'' (json_object v)) = Some t"
    "run_mutation ops rt False now
       (MAdd k t (bt_remove ''last_activity'' (bt_remove ''target'' (json_object v)))) (api_registry st)
       = (Ok None, api_registry st')"
    "auth_token st' = auth_token st"
proof -
  have none: "v = None" if "run_mutation ops rt False now (MAdd k t x) reg = (Ok v, reg')" for t x v reg reg'
    using that by (rule run_mutation_Ok) (auto simp: add_owned_def split: prod.splits call.splits result.splits)
  show thesis
    using assms that none
    by (auto simp: post_route_def api_empty_def api_text_def mutation_failure_def Let_def
        split: option.splits if_splits result.splits prod.splits)
qed

lemma registry_available_after:
  "run_mutation ops rt det now m reg = (Ok v, reg') \<Longrightarrow> \<not> is_indeterminate (reg_tracker reg')"
  by (erule run_mutation_Ok) (simp add: is_indeterminate_def)

text \<open>
  C20. Round trip: a route created through the API with status 201 is returned by a read of the
  same path with the same credentials, with the posted target and the posted members other than
  \<open>target\<close> and \<open>last_activity\<close>, for every backend that keeps the store contract.
\<close>

theorem created_route_is_readable:
  assumes "floor_store ops routes_of ready" "ready (reg_store (api_registry st))"
    and "\<And>b v. env_json env b = Ok v \<Longrightarrow> bt_wf (json_object v)"
    and "post_one_route env ops rt now rq st = (r, st')" "resp_status r = 201"
    and "req_body rq = Some b" "env_json env b = Ok v"
  shows "\<exists>d. get_one_route env rq st' = (\<lparr>resp_status = 200, resp_body = JsonRoute d\<rparr>, st')
    \<and> bt_get ''target'' (json_object v) = Some (JString (target d))
    \<and> extra d = bt_remove ''last_activity'' (bt_remove ''target'' (json_object v))"
proof -
  obtain k where k: "route_key_from_uri env (req_path rq) 2 = Ok k"
    and post: "post_route env ops rt now k rq st = (r, st')"
    using assms(4,5) by (auto simp: post_one_route_def split: result.splits)
  let ?x = "bt_remove ''last_activity'' (bt_remove ''target'' (json_object v))"
  obtain t where t: "authorized env st (req_headers rq)"
    "json_string (bt_get ''target'' (json_object v)) = Some t"
    "run_mutation ops rt False now (MAdd k t ?x) (api_registry st) = (Ok None, api_registry st')"
    "auth_token st' = auth_token st"
    using post assms(5) by (rule post_created) (use assms(6,7) in auto)
  have ok: "mutation_ok (MAdd k t ?x)"
    using route_key_from_uri_wf[OF k] assms(3)[OF assms(7)] by (simp add: stripped_extra_ok)
  obtain d where d: "registry_get (api_registry st') k = Some d" "target d = t" "extra d = ?x"
    using replacement_effect[OF assms(1,2) ok disjI1[OF refl] t(3)] by blast
  have "\<not> registry_unavailable st'"
    using registry_available_after[OF t(3)] by (simp add: registry_unavailable_def consistency_status_def)
  then have "get_one_route env rq st' = (\<lparr>resp_status = 200, resp_body = JsonRoute d\<rparr>, st')"
    using t(1) k d(1) authorized_cong[OF t(4), of env "req_headers rq"] by (simp add: get_one_route_def)
  moreover have "bt_get ''target'' (json_object v) = Some (JString t)"
    using t(2) by (auto elim!: json_string.elims)
  ultimately show ?thesis using d by blast
qed

theorem created_route_is_readable_witness:
  "\<exists>d. get_one_route sample_env (sample_post [(''authorization'', ''token s3cret'')])
        (snd (post_one_route sample_env (memory_ops None) True 5
          (sample_post [(''authorization'', ''token s3cret'')]) sample_state))
      = (\<lparr>resp_status = 200, resp_body = JsonRoute d\<rparr>, snd (post_one_route sample_env (memory_ops None) True 5
          (sample_post [(''authorization'', ''token s3cret'')]) sample_state))
     \<and> target d = ''http://127.0.0.1:8000''"
proof -
  let ?rq = "sample_post [(''authorization'', ''token s3cret'')]"
  let ?post = "post_one_route sample_env (memory_ops None) True 5 ?rq sample_state"
  let ?v = "JObject [(''jupyter'', JBool True), (''target'', JString ''http://127.0.0.1:8000'')]"
  note eval = extract_token.simps skip_whitespace.simps token_marker_def starts_with_def
    javascript_whitespace_width_def byte_def utf8_next_ascii
  have auth: "authorized sample_env sample_state (req_headers ?rq)"
    by (simp add: authorized_def sample_state_def api_state_new_def sample_post_def hm_get_def sample_env_def eval)
  have av: "\<not> registry_unavailable sample_state" by code_simp
  have json: "env_json sample_env ''http://127.0.0.1:8000'' = Ok ?v" by (simp add: sample_env_def)
  have key: "route_key_from_uri sample_env (req_path ?rq) 2 = Ok (RouteKey ''/user/a'')"
    by (simp add: route_key_from_uri_def whatwg_normalized_pathname_def sample_env_def sample_post_def
        percent_decode_def from_utf8_def byte_def clean_again_def route_key_parse_def normalize_def
        ends_with_char_def)
  have run: "is_ok (fst (run_mutation (memory_ops None) True False 5
      (MAdd (RouteKey ''/user/a'') ''http://127.0.0.1:8000'' [(''jupyter'', JBool True)]) (api_registry sample_state)))"
    by code_simp
  have created: "resp_status (fst ?post) = 201"
    using auth av key run json
    by (auto simp: post_one_route_def post_route_def sample_post_def MAX_JSON_BODY_BYTES_def bt_remove_def
        api_empty_def Let_def split: result.splits prod.splits)
  have wf: "bt_wf (reg_store (api_registry sample_state))" by code_simp
  have body: "req_body ?rq = Some ''http://127.0.0.1:8000''" by (simp add: sample_post_def)
  have "\<exists>d. get_one_route sample_env ?rq (snd ?post) = (\<lparr>resp_status = 200, resp_body = JsonRoute d\<rparr>, snd ?post)
      \<and> bt_get ''target'' (json_object ?v) = Some (JString (target d))
      \<and> extra d = bt_remove ''last_activity'' (bt_remove ''target'' (json_object ?v))"
    by (rule created_route_is_readable[OF mem.floor_store_axioms wf _ prod.collapse[symmetric] created body json])
      (rule sample_env_json_wf)
  then show ?thesis by auto
qed

section \<open>An uncertain registry\<close>

text \<open>
  C22. While the registry is indeterminate the API fails closed: whatever is requested, nothing is
  changed and no route is revealed, and an authorized, well-formed read of the routes is answered
  with 503.
\<close>

theorem uncertain_registry_is_not_served:
  assumes "registry_unavailable st" "router env ops rt now rq st = (r, st')"
  shows "api_registry st' = api_registry st \<and> \<not> reveals r
    \<and> (authorized env st (req_headers rq) \<and> req_method rq = ''GET''
         \<and> starts_with ''/api/routes/'' (req_path rq) \<longrightarrow> resp_status r = 503)"
proof -
  obtain st'' where d: "dispatch env ops rt now rq st = (r, st'')" "api_registry st' = api_registry st''"
    using router_frame[OF assms(2)] by blast
  have "st'' = st \<and> \<not> reveals r"
    using d(1) assms(1)
    by (auto simp: dispatch_def get_all_routes_def get_one_route_def post_root_route_def
        post_one_route_def post_route_def delete_root_route_def delete_one_route_def delete_route_def
        split: if_splits result.splits option.splits)
  moreover have "resp_status r = 503" if "authorized env st (req_headers rq)" "req_method rq = ''GET''"
    "starts_with ''/api/routes/'' (req_path rq)"
    using d(1) assms(1) that
    by (auto simp: dispatch_def get_all_routes_def get_one_route_def api_empty_def split: if_splits)
  ultimately show ?thesis using d(2) by blast
qed

definition uncertain_state :: "(memory_store, nat) api_state" where
  "uncertain_state = api_state_new uncertain_registry None (metrics_new 0)"

theorem uncertain_registry_is_not_served_witness:
  "resp_status (fst (router sample_env (memory_ops None) True 5
     ((sample_post [])\<lparr>req_method := ''GET''\<rparr>) uncertain_state)) = 503"
proof -
  let ?rq = "(sample_post [])\<lparr>req_method := ''GET''\<rparr>"
  have "registry_unavailable uncertain_state" by code_simp
  from uncertain_registry_is_not_served[OF this prod.collapse[symmetric], of sample_env "memory_ops None" True 5 ?rq]
  show ?thesis
    by (auto simp: authorized_def uncertain_state_def api_state_new_def sample_post_def starts_with_def)
qed

end
