(* ===== verification/Redis_Store.thy ===== *)
theory Redis_Store
  imports Store
begin

text \<open>
  \<open>src/src/store/redis.rs\<close>: routes in one Redis hash. The server is its hash; what happens
  around each command, the deadline, other clients touching or rewriting the hash just before it,
  and a reply that is lost before or after the command took effect, is a script of events that the
  operations consume, so that every interleaving is a value of the state. JSON text, timestamps
  and the server itself are not code of the repository: printing and parsing are parameters.
\<close>

section \<open>Settings\<close>

record redis_store_config =
  rc_url :: string
  rc_key :: string
  rc_operation_timeout :: nat

definition redis_config_new :: "string \<Rightarrow> redis_store_config" where
  "redis_config_new url =
     \<lparr>rc_url = url, rc_key = ''pingora-reverse-proxy:routes:v1'', rc_operation_timeout = 2000\<rparr>"

definition with_key :: "string \<Rightarrow> redis_store_config \<Rightarrow> redis_store_config" where
  "with_key key config = config\<lparr>rc_key := key\<rparr>"

definition with_operation_timeout :: "nat \<Rightarrow> redis_store_config \<Rightarrow> redis_store_config" where
  "with_operation_timeout t config = config\<lparr>rc_operation_timeout := t\<rparr>"

section \<open>The codec\<close>

record codec =
  print_json :: "json \<Rightarrow> string option"
  parse_json :: "string \<Rightarrow> json option"
  nanos_date :: "timestamp \<Rightarrow> string"
  millis_date :: "timestamp \<Rightarrow> string"
  parse_date :: "string \<Rightarrow> timestamp option"

text \<open>
  What is relied on: a printed JSON object parses back to itself, and a timestamp rendered with
  nanoseconds parses back to itself.
\<close>

definition codec_ok :: "codec \<Rightarrow> bool" where
  "codec_ok c \<longleftrightarrow>
     (\<forall>m. bt_wf m \<longrightarrow> (\<exists>s. print_json c (JObject m) = Some s \<and> parse_json c s = Some (JObject m)))
     \<and> (\<forall>t. parse_date c (nanos_date c t) = Some t)"

definition redis_encode :: "codec \<Rightarrow> string \<Rightarrow> route_data \<Rightarrow> (store_error, string) result" where
  "redis_encode c operation data =
     (let encoded = serialize_route (millis_date c) data;
          object = bt_insert ''last_activity'' (JString (nanos_date c (last_activity data))) encoded
      in ok_or (CorruptData operation ''<outgoing>'') (print_json c (JObject object)))"

definition redis_decode :: "codec \<Rightarrow> string \<Rightarrow> string \<Rightarrow> string \<Rightarrow> (store_error, route_data) result" where
  "redis_decode c operation key encoded =
     ok_or (CorruptData operation key)
       (Option.bind (parse_json c encoded) (deserialize_route (parse_date c)))"

definition redis_decode_key :: "string \<Rightarrow> (store_error, route_key) result" where
  "redis_decode_key field =
     (if \<not> starts_with_char CHR ''/'' field then Err (CorruptData ''snapshot'' field)
      else
        (let parse_input = (if 1 < length field \<and> ends_with_char CHR ''/'' field
                            then field @ ''/'' else field)
         in Ok (route_key_parse parse_input)))"

section \<open>The server and its environment\<close>

datatype redis_reply = Delivered | LostBefore | LostAfter

record redis_event =
  ev_expired :: bool
  ev_touch :: bool
  ev_writes :: "(string \<times> string option) list"
  ev_reply :: redis_reply

definition quiet :: redis_event where
  "quiet = \<lparr>ev_expired = False, ev_touch = False, ev_writes = [], ev_reply = Delivered\<rparr>"

definition disturbed :: "redis_event \<Rightarrow> bool" where
  "disturbed e \<longleftrightarrow> ev_touch e \<or> ev_writes e \<noteq> []"

record redis =
  r_hash :: "(string, string) btree"
  r_connected :: bool
  r_script :: "redis_event list"

fun apply_write :: "string \<times> string option \<Rightarrow> (string, string) btree \<Rightarrow> (string, string) btree" where
  "apply_write (field, Some v) h = bt_insert field v h"
| "apply_write (field, None) h = bt_remove field h"

definition next_event :: "redis \<Rightarrow> redis_event \<times> redis" where
  "next_event s =
     (case r_script s of
        [] \<Rightarrow> (quiet, s)
      | e # es \<Rightarrow> (e, s\<lparr>r_script := es, r_hash := fold apply_write (ev_writes e) (r_hash s)\<rparr>))"

definition take_connection :: "string \<Rightarrow> redis \<Rightarrow> (store_error, unit) result \<times> redis" where
  "take_connection operation s =
     (if r_connected s then (Ok (), s\<lparr>r_connected := False\<rparr>)
      else
        (case next_event s of
           (e, s') \<Rightarrow>
             if ev_expired e \<or> ev_reply e \<noteq> Delivered then (Err (Backend operation), s')
             else (Ok (), s')))"

definition return_connection :: "redis \<Rightarrow> redis" where
  "return_connection s = s\<lparr>r_connected := True\<rparr>"

lemma next_event_script:
  "next_event s = (e, s') \<Longrightarrow> length (r_script s') \<le> length (r_script s)
   \<and> (disturbed e \<longrightarrow> length (r_script s') < length (r_script s))"
  by (cases "r_script s") (auto simp: next_event_def quiet_def disturbed_def)

section \<open>Replacement\<close>

text \<open>
  One round of \<open>atomic_replace\<close>: watch, sample the floor, encode, and a transaction that the
  server refuses when the hash was touched since the watch.
\<close>

function replace_loop ::
  "codec \<Rightarrow> string \<Rightarrow> route_key \<Rightarrow> activity_floor \<Rightarrow> nat \<Rightarrow> route_data \<Rightarrow> redis
   \<Rightarrow> (store_error, route_data) result \<times> redis" where
  "replace_loop c operation key fl n data s =
     (case next_event s of
        (w, s1) \<Rightarrow>
          if ev_expired w \<or> ev_reply w \<noteq> Delivered then (Err (Backend operation), s1)
          else
            (let data = (case floor_current fl n of
                           Some floor \<Rightarrow> data\<lparr>last_activity := max (last_activity data) floor\<rparr>
                         | None \<Rightarrow> data)
             in (case redis_encode c operation data of
                   Err e \<Rightarrow> (Err e, s1)
                 | Ok encoded \<Rightarrow>
                     (case redis_decode c operation (as_str key) encoded of
                        Err e \<Rightarrow> (Err e, s1)
                      | Ok committed_data \<Rightarrow>
                          (case next_event s1 of
                             (x, s2) \<Rightarrow>
                               if ev_expired x then (Err (Backend operation), s2)
                               else if ev_reply x = Delivered \<and> disturbed x
                               then replace_loop c operation key fl (Suc n) data s2
                               else
                                 (let stored = s2\<lparr>r_hash := bt_insert (as_str key) encoded (r_hash s2)\<rparr>
                                  in (case ev_reply x of
                                        Delivered \<Rightarrow> (Ok committed_data, return_connection stored)
                                      | LostBefore \<Rightarrow> (Err (Indeterminate operation), s2)
                                      | LostAfter \<Rightarrow> (Err (Indeterminate operation),
                                                      if disturbed x then s2 else stored))))))))"
  by pat_completeness auto
termination
  by (relation "measure (\<lambda>(c, operation, key, fl, n, data, s). length (r_script s))")
    (auto dest!: next_event_script[OF sym])

declare replace_loop.simps [simp del]

definition atomic_replace ::
  "codec \<Rightarrow> string \<Rightarrow> route_key \<Rightarrow> route_data \<Rightarrow> activity_floor \<Rightarrow> redis
   \<Rightarrow> (store_error, route_data) result \<times> redis" where
  "atomic_replace c operation key data fl s =
     (case take_connection operation s of
        (Err e, s') \<Rightarrow> (Err e, s')
      | (Ok _, s') \<Rightarrow> replace_loop c operation key fl 0 data s')"

section \<open>The operations of the trait\<close>

fun load_records ::
  "codec \<Rightarrow> (string \<times> string) list \<Rightarrow> (route_key, route_data) btree
   \<Rightarrow> (store_error, (route_key, route_data) btree) result" where
  "load_records c [] snapshot = Ok snapshot"
| "load_records c ((field, encoded) # records) snapshot =
     and_then (redis_decode_key field) (\<lambda>key.
     and_then (redis_decode c ''snapshot'' (as_str key) encoded) (\<lambda>data.
       load_records c records (bt_insert key data snapshot)))"

definition redis_snapshot :: "codec \<Rightarrow> redis \<Rightarrow> (route_key, route_data) btree call \<times> redis" where
  "redis_snapshot c s =
     (case take_connection ''snapshot'' s of
        (Err e, s1) \<Rightarrow> (Ret (Err e), s1)
      | (Ok _, s1) \<Rightarrow>
          (case next_event s1 of
             (g, s2) \<Rightarrow>
               if ev_reply g \<noteq> Delivered then (Ret (Err (Backend ''snapshot'')), s2)
               else
                 (case load_records c (r_hash s2) [] of
                    Err e \<Rightarrow> (Ret (Err e), s2)
                  | Ok snapshot \<Rightarrow> (Ret (Ok snapshot), return_connection s2))))"

definition redis_add ::
  "codec \<Rightarrow> timestamp \<Rightarrow> route_key \<Rightarrow> string \<Rightarrow> json_map \<Rightarrow> activity_floor \<Rightarrow> redis \<Rightarrow> route_data call \<times> redis" where
  "redis_add c utc_now key tgt x fl s =
     (case atomic_replace c ''add'' key \<lparr>target = tgt, last_activity = utc_now, extra = x\<rparr> fl s of
        (r, s') \<Rightarrow> (Ret r, s'))"

definition redis_put :: "codec \<Rightarrow> route_key \<Rightarrow> route_data \<Rightarrow> redis \<Rightarrow> unit call \<times> redis" where
  "redis_put c key data s =
     (case redis_encode c ''put'' data of
        Err e \<Rightarrow> (Ret (Err e), s)
      | Ok encoded \<Rightarrow>
          (case take_connection ''put'' s of
             (Err e, s1) \<Rightarrow> (Ret (Err e), s1)
           | (Ok _, s1) \<Rightarrow>
               (case next_event s1 of
                  (p, s2) \<Rightarrow>
                    if ev_reply p \<noteq> Delivered then (Ret (Err (Backend ''put'')), s2)
                    else
                      (case next_event s2 of
                         (h, s3) \<Rightarrow>
                           (let stored = s3\<lparr>r_hash := bt_insert (as_str key) encoded (r_hash s3)\<rparr>
                            in (case ev_reply h of
                                  Delivered \<Rightarrow> (Ret (Ok ()), return_connection stored)
                                | LostBefore \<Rightarrow> (Ret (Err (Indeterminate ''put'')), s3)
                                | LostAfter \<Rightarrow> (Ret (Err (Indeterminate ''put'')), stored)))))))"

definition redis_put_preserving_activity ::
  "codec \<Rightarrow> route_key \<Rightarrow> route_data \<Rightarrow> activity_floor \<Rightarrow> redis \<Rightarrow> route_data call \<times> redis" where
  "redis_put_preserving_activity c key data fl s =
     (case atomic_replace c ''put'' key data fl s of (r, s') \<Rightarrow> (Ret r, s'))"

text \<open>
  One round of \<open>update_activity\<close>: watch, read, and a transaction that is refused when the hash
  was touched after the watch, at the read or at the transaction.
\<close>

function update_loop ::
  "codec \<Rightarrow> route_key \<Rightarrow> timestamp \<Rightarrow> redis \<Rightarrow> (store_error, unit) result \<times> redis" where
  "update_loop c key at s =
     (case next_event s of
        (w, s1) \<Rightarrow>
          if ev_expired w \<or> ev_reply w \<noteq> Delivered then (Err (Backend ''update_activity''), s1)
          else
            (case next_event s1 of
               (g, s2) \<Rightarrow>
                 if ev_expired g \<or> ev_reply g \<noteq> Delivered then (Err (Backend ''update_activity''), s2)
                 else
                   (case bt_get (as_str key) (r_hash s2) of
                      None \<Rightarrow>
                        (case next_event s2 of
                           (u, s3) \<Rightarrow>
                             if ev_expired u \<or> ev_reply u \<noteq> Delivered
                             then (Err (Backend ''update_activity''), s3)
                             else (Ok (), return_connection s3))
                    | Some current \<Rightarrow>
                        (case redis_decode c ''update_activity'' (as_str key) current of
                           Err e \<Rightarrow> (Err e, s2)
                         | Ok data \<Rightarrow>
                             (case redis_encode c ''update_activity'' (data\<lparr>last_activity := at\<rparr>) of
                                Err e \<Rightarrow> (Err e, s2)
                              | Ok encoded \<Rightarrow>
                                  (case next_event s2 of
                                     (x, s3) \<Rightarrow>
                                       if ev_expired x then (Err (Backend ''update_activity''), s3)
                                       else if ev_reply x = Delivered \<and> (disturbed g \<or> disturbed x)
                                       then update_loop c key at s3
                                       else
                                         (let stored = s3\<lparr>r_hash := bt_insert (as_str key) encoded (r_hash s3)\<rparr>
                                          in (case ev_reply x of
                                                Delivered \<Rightarrow> (Ok (), return_connection stored)
                                              | LostBefore \<Rightarrow> (Err (Indeterminate ''update_activity''), s3)
                                              | LostAfter \<Rightarrow>
                                                  (Err (Indeterminate ''update_activity''),
                                                   if disturbed g \<or> disturbed x then s3 else stored)))))))))"
  by pat_completeness auto
termination
  by (relation "measure (\<lambda>(c, key, at, s). length (r_script s))") (auto dest!: next_event_script[OF sym])

declare update_loop.simps [simp del]

definition redis_update_activity :: "codec \<Rightarrow> route_key \<Rightarrow> timestamp \<Rightarrow> redis \<Rightarrow> unit call \<times> redis" where
  "redis_update_activity c key at s =
     (case take_connection ''update_activity'' s of
        (Err e, s') \<Rightarrow> (Ret (Err e), s')
      | (Ok _, s') \<Rightarrow> (case update_loop c key at s' of (r, s'') \<Rightarrow> (Ret r, s'')))"

text \<open>
  The deletion script on the server: it removes the field only when it still is what the client
  read.
\<close>

definition delete_script ::
  "(string, string) btree \<Rightarrow> string \<Rightarrow> bool \<Rightarrow> string \<Rightarrow> (nat \<times> string option) \<times> (string, string) btree" where
  "delete_script h field expected_exists expected =
     (let prior = bt_get field h
      in if (prior \<noteq> None) \<noteq> expected_exists \<or> (prior \<noteq> None \<and> prior \<noteq> Some expected)
         then ((0, prior), h)
         else ((1, prior), if prior \<noteq> None then bt_remove field h else h))"

definition decode_prior ::
  "codec \<Rightarrow> route_key \<Rightarrow> string option \<Rightarrow> (store_error, route_data option) result" where
  "decode_prior c key current =
     (case current of
        None \<Rightarrow> Ok None
      | Some encoded \<Rightarrow>
          (case redis_decode c ''delete'' (as_str key) encoded of Err e \<Rightarrow> Err e | Ok d \<Rightarrow> Ok (Some d)))"

lemma delete_script_same:
  "bt_get field h' = bt_get field h \<Longrightarrow>
   fst (fst (delete_script h' field (bt_get field h \<noteq> None) (case bt_get field h of Some v \<Rightarrow> v | None \<Rightarrow> []))) = 1"
  by (auto simp: delete_script_def Let_def split: option.splits)

lemma next_event_calm:
  "next_event s = (e, s') \<Longrightarrow> r_script s' = r_script s \<Longrightarrow> r_hash s' = r_hash s"
  by (cases "r_script s") (auto simp: next_event_def)

lemma delete_retry:
  assumes n: "next_event s = (g, s1)" "next_event s1 = (x, s2)"
    and "fst (fst (delete_script (r_hash s2) field (bt_get field (r_hash s1) \<noteq> None)
      (case bt_get field (r_hash s1) of Some v \<Rightarrow> v | None \<Rightarrow> []))) = 0"
  shows "length (r_script s2) < length (r_script s)"
proof -
  have "r_hash s2 \<noteq> r_hash s1" using delete_script_same[of field "r_hash s2" "r_hash s1"] assms(3) by auto
  then have "r_script s2 \<noteq> r_script s1" using next_event_calm[OF n(2)] by blast
  moreover have "r_script s2 = r_script s1 \<or> length (r_script s2) < length (r_script s1)"
    using n(2) by (cases "r_script s1") (auto simp: next_event_def)
  moreover have "length (r_script s1) \<le> length (r_script s)" using next_event_script[OF n(1)] by blast
  ultimately show ?thesis by simp
qed

function delete_loop :: "codec \<Rightarrow> route_key \<Rightarrow> redis \<Rightarrow> (store_error, route_data option) result \<times> redis" where
  "delete_loop c key s =
     (case next_event s of
        (g, s1) \<Rightarrow>
          if ev_expired g \<or> ev_reply g \<noteq> Delivered then (Err (Backend ''delete''), s1)
          else
            (let current = bt_get (as_str key) (r_hash s1)
             in (case decode_prior c key current of
                   Err e \<Rightarrow> (Err e, s1)
                 | Ok prior \<Rightarrow>
                     (case next_event s1 of
                        (x, s2) \<Rightarrow>
                          if ev_expired x then (Err (Backend ''delete''), s2)
                          else
                            (let result = delete_script (r_hash s2) (as_str key) (current \<noteq> None)
                                            (case current of Some v \<Rightarrow> v | None \<Rightarrow> []);
                                 stored = s2\<lparr>r_hash := snd result\<rparr>
                             in (case ev_reply x of
                                   Delivered \<Rightarrow>
                                     if fst (fst result) = 1 then (Ok prior, return_connection stored)
                                     else if fst (fst result) = 0 then delete_loop c key s2
                                     else (Err (Indeterminate ''delete''), s2)
                                 | LostBefore \<Rightarrow> (Err (Indeterminate ''delete''), s2)
                                 | LostAfter \<Rightarrow> (Err (Indeterminate ''delete''), stored)))))))"
  by pat_completeness auto
termination
  by (relation "measure (\<lambda>(c, key, s). length (r_script s))") (simp, auto intro: delete_retry[OF sym sym])

declare delete_loop.simps [simp del]

definition redis_delete :: "codec \<Rightarrow> route_key \<Rightarrow> redis \<Rightarrow> route_data option call \<times> redis" where
  "redis_delete c key s =
     (case take_connection ''delete'' s of
        (Err e, s') \<Rightarrow> (Ret (Err e), s')
      | (Ok _, s') \<Rightarrow> (case delete_loop c key s' of (r, s'') \<Rightarrow> (Ret r, s'')))"

definition redis_ops :: "codec \<Rightarrow> redis store_ops" where
  "redis_ops c =
     \<lparr>store_snapshot = redis_snapshot c,
      store_add = redis_add c,
      store_put = redis_put c,
      store_put_preserving_activity = redis_put_preserving_activity c,
      store_update_activity = redis_update_activity c,
      store_delete = redis_delete c\<rparr>"

end
