(* ===== verification/Unary_Text.thy ===== *)
theory Unary_Text
  imports Route "HOL-Library.Countable"
begin

text \<open>
  A total text form of countable values with an inverse. It stands in for the JSON and timestamp
  libraries where a concrete instance of them is needed.
\<close>

instance json :: countable
  by countable_datatype

definition unary :: "'a::countable \<Rightarrow> string" where
  "unary a = replicate (to_nat a) CHR ''x''"

definition unary_read :: "string \<Rightarrow> 'a::countable" where
  "unary_read s = from_nat (length s)"

lemma unary_read [simp]: "unary_read (unary a) = a"
  by (simp add: unary_def unary_read_def)

end
