(* ===== verification/Redis_Contract.thy ===== *)
theory Redis_Contract
  imports Redis_Store Unary_Text
begin

text \<open>
  The Redis backend against its contract: what one round of each loop does, that the operations
  implement the store contract when nobody else rewrites the hash, and that they are atomic when
  other clients do.
\<close>

section \<open>The contract\<close>

definition read_value :: "codec \<Rightarrow> string \<Rightarrow> route_data option" where
  "read_value c v = Option.bind (parse_json c v) (deserialize_route (parse_date c))"

definition redis_routes :: "codec \<Rightarrow> redis \<Rightarrow> route_key \<Rightarrow> route_data option" where
  "redis_routes c s k = Option.bind (bt_get (as_str k) (r_hash s)) (read_value c)"

text \<open>
  The hash holds well-formed fields and records, and nobody else rewrites it; other clients may
  still touch it, and replies may still be lost.
\<close>

definition redis_ready :: "codec \<Rightarrow> redis \<Rightarrow> bool" where
  "redis_ready c s \<longleftrightarrow> bt_wf (r_hash s)
     \<and> (\<forall>f v. bt_get f (r_hash s) = Some v \<longrightarrow>
          starts_with_char CHR ''/'' f \<and> (\<exists>d. read_value c v = Some d \<and> extra_ok (extra d)))
     \<and> (\<forall>e \<in> set (r_script s). ev_writes e = [])"

lemma redis_decode_read: "redis_decode c op key v = ok_or (CorruptData op key) (read_value c v)"
  by (simp add: redis_decode_def read_value_def)

lemma next_event_ready:
  assumes "redis_ready c s" "next_event s = (e, s')"
  shows "redis_ready c s' \<and> r_hash s' = r_hash s \<and> redis_routes c s' = redis_routes c s"
  using assms
  by (cases "r_script s") (auto simp: next_event_def redis_ready_def redis_routes_def fun_eq_iff)

lemma redis_connected_frame [simp]:
  "redis_ready c (s\<lparr>r_connected := b\<rparr>) = redis_ready c s"
  "redis_routes c (s\<lparr>r_connected := b\<rparr>) = redis_routes c s"
  by (simp_all add: redis_ready_def redis_routes_def fun_eq_iff)

lemma return_connection_frame [simp]:
  "redis_ready c (return_connection s) = redis_ready c s"
  "redis_routes c (return_connection s) = redis_routes c s"
  by (simp_all add: return_connection_def)

lemma take_connection_ready:
  assumes "redis_ready c s" "take_connection op s = (r, s')"
  shows "redis_ready c s' \<and> redis_routes c s' = redis_routes c s
    \<and> (\<forall>e. r = Err e \<longrightarrow> ordinary e)"
proof (cases "r_connected s")
  case True
  then have "r = Ok ()" "s' = s\<lparr>r_connected := False\<rparr>"
    using assms(2) by (simp_all add: take_connection_def)
  then show ?thesis using assms(1) by simp
next
  case False
  obtain e s1 where e: "next_event s = (e, s1)" by (rule prod.exhaust)
  have "s' = s1" "r = Ok () \<or> r = Err (Backend op)"
    using False assms(2) e by (auto simp: take_connection_def split: if_splits)
  then show ?thesis using next_event_ready[OF assms(1) e] by (auto simp: ordinary_def)
qed

lemma encode_readable:
  assumes "codec_ok c" "extra_ok (extra d)"
  obtains v where "redis_encode c op d = Ok v" "read_value c v = Some d"
proof -
  let ?m = "bt_insert ''last_activity'' (JString (nanos_date c (last_activity d)))
      (serialize_route (millis_date c) d)"
  have "bt_wf ?m" by (intro wf_intros serialize_route_wf)
  then obtain v where v: "print_json c (JObject ?m) = Some v" "parse_json c v = Some (JObject ?m)"
    using assms(1) unfolding codec_ok_def by blast
  have "deserialize_route (parse_date c) (JObject ?m) = Some d"
    using assms by (intro deserialize_serialize) (simp_all add: codec_ok_def)
  then show thesis using v by (intro that[of v]) (simp_all add: redis_encode_def read_value_def Let_def)
qed

lemma store_ready:
  assumes "redis_ready c s" "key_wf k" "read_value c v = Some d" "extra_ok (extra d)"
  shows "redis_ready c (s\<lparr>r_hash := bt_insert (as_str k) v (r_hash s)\<rparr>)
    \<and> redis_routes c (s\<lparr>r_hash := bt_insert (as_str k) v (r_hash s)\<rparr>) = (redis_routes c s)(k \<mapsto> d)"
  using assms
  by (auto simp: redis_ready_def redis_routes_def fun_eq_iff map_laws wf_intros key_wf_def
      intro: route_key.expand)

definition raised :: "activity_floor \<Rightarrow> nat \<Rightarrow> route_data \<Rightarrow> route_data" where
  "raised fl n data =
     (case floor_current fl n of
        Some at \<Rightarrow> data\<lparr>last_activity := max (last_activity data) at\<rparr>
      | None \<Rightarrow> data)"

lemma raised_frame [simp]:
  "target (raised fl n d) = target d" "extra (raised fl n d) = extra d"
  by (simp_all add: raised_def split: option.splits)

lemma raised_floor: "fl n = Some f \<Longrightarrow> f \<le> last_activity (raised fl n d)"
  by (simp add: raised_def floor_current_def)

definition replaced :: "codec \<Rightarrow> activity_floor \<Rightarrow> route_key \<Rightarrow> route_data \<Rightarrow> redis
    \<Rightarrow> (store_error, route_data) result \<Rightarrow> redis \<Rightarrow> bool" where
  "replaced c fl key data s r s' \<longleftrightarrow>
     (case r of
        Ok d \<Rightarrow> redis_ready c s' \<and> redis_routes c s' = (redis_routes c s)(key \<mapsto> d)
          \<and> target d = target data \<and> extra d = extra data
          \<and> (\<exists>m. \<forall>f. fl m = Some f \<longrightarrow> f \<le> last_activity d)
      | Err e \<Rightarrow> ordinary e \<longrightarrow> redis_ready c s' \<and> redis_routes c s' = redis_routes c s)"

lemma replaced_retry:
  assumes "replaced c fl key (raised fl n data) s2 r s'" "redis_routes c s2 = redis_routes c s"
  shows "replaced c fl key data s r s'"
  using assms by (simp add: replaced_def split: result.splits)


lemma replace_loop_round:
  assumes "next_event s = (w, s1)" "next_event s1 = (x, s2)"
    and "redis_encode c op (raised fl n data) = Ok v" "read_value c v = Some (raised fl n data)"
  shows "replace_loop c op key fl n data s =
    (if ev_expired w \<or> ev_reply w \<noteq> Delivered then (Err (Backend op), s1)
     else if ev_expired x then (Err (Backend op), s2)
     else if ev_reply x = Delivered \<and> disturbed x then replace_loop c op key fl (Suc n) (raised fl n data) s2
     else (case ev_reply x of
             Delivered \<Rightarrow> (Ok (raised fl n data),
               return_connection (s2\<lparr>r_hash := bt_insert (as_str key) v (r_hash s2)\<rparr>))
           | LostBefore \<Rightarrow> (Err (Indeterminate op), s2)
           | LostAfter \<Rightarrow> (Err (Indeterminate op),
               if disturbed x then s2 else s2\<lparr>r_hash := bt_insert (as_str key) v (r_hash s2)\<rparr>)))"
  unfolding replace_loop.simps[of c op key fl n data s] assms(1) raised_def[symmetric] Let_def
  using assms(2-) by (cases "ev_reply x") (simp_all add: redis_decode_read)

lemma replace_loop_replaced:
  assumes "codec_ok c" "key_wf key"
  shows "redis_ready c s \<Longrightarrow> extra_ok (extra data) \<Longrightarrow>
    replace_loop c op key fl n data s = (r, s') \<Longrightarrow> replaced c fl key data s r s'"
proof (induction "length (r_script s)" arbitrary: n data s r s' rule: less_induct)
  case less
  obtain w s1 where w: "next_event s = (w, s1)" by (rule prod.exhaust)
  obtain x s2 where x: "next_event s1 = (x, s2)" by (rule prod.exhaust)
  note s1 = next_event_ready[OF less(2) w]
  note s2 = next_event_ready[OF conjunct1[OF s1] x]
  let ?d = "raised fl n data"
  obtain v where v: "redis_encode c op ?d = Ok v" "read_value c v = Some ?d"
    using encode_readable[OF assms(1), of ?d op] less(3) by auto
  let ?st = "s2\<lparr>r_hash := bt_insert (as_str key) v (r_hash s2)\<rparr>"
  have st: "redis_ready c ?st" "redis_routes c ?st = (redis_routes c s)(key \<mapsto> ?d)"
    using store_ready[OF conjunct1[OF s2] assms(2) v(2)] less(3) s1 s2 by simp_all
  have floor: "\<exists>m. \<forall>f. fl m = Some f \<longrightarrow> f \<le> last_activity ?d" using raised_floor[of fl n] by blast
  note res = less(4)[unfolded replace_loop_round[OF w x v]]
  consider "ev_expired w \<or> ev_reply w \<noteq> Delivered \<or> ev_expired x"
    | (retry) "\<not> ev_expired w" "ev_reply w = Delivered" "\<not> ev_expired x" "ev_reply x = Delivered" "disturbed x"
    | (final) "\<not> ev_expired w" "ev_reply w = Delivered" "\<not> ev_expired x" "\<not> (ev_reply x = Delivered \<and> disturbed x)"
    by blast
  then show ?case
  proof cases
    case 1
    then have "r = Err (Backend op)" "s' = s1 \<or> s' = s2" using res by (auto split: if_splits)
    then show ?thesis using s1 s2 by (auto simp: replaced_def)
  next
    case retry
    have shorter: "length (r_script s2) < length (r_script s)"
      using next_event_script[OF w] next_event_script[OF x] retry(5) by simp
    have "replace_loop c op key fl (Suc n) ?d s2 = (r, s')" using res retry by simp
    then have "replaced c fl key ?d s2 r s'"
      using less(1)[OF shorter conjunct1[OF s2]] less(3) by simp
    then show ?thesis using s1 s2 by (simp add: replaced_retry[of c fl key n data s2])
  next
    case final
    then have "r = Ok ?d \<and> s' = return_connection ?st \<or> r = Err (Indeterminate op)"
      using res by (cases "ev_reply x") simp_all
    then show ?thesis using st floor by (elim disjE) (simp_all add: replaced_def ordinary_def)
  qed
qed

lemma update_loop_round:
  assumes "next_event s = (w, s1)" "next_event s1 = (g, s2)" "next_event s2 = (x, s3)"
  shows "update_loop c key at s =
    (if ev_expired w \<or> ev_reply w \<noteq> Delivered then (Err (Backend ''update_activity''), s1)
     else if ev_expired g \<or> ev_reply g \<noteq> Delivered then (Err (Backend ''update_activity''), s2)
     else (case bt_get (as_str key) (r_hash s2) of
        None \<Rightarrow> if ev_expired x \<or> ev_reply x \<noteq> Delivered then (Err (Backend ''update_activity''), s3)
                else (Ok (), return_connection s3)
      | Some current \<Rightarrow>
          (case redis_decode c ''update_activity'' (as_str key) current of
             Err e \<Rightarrow> (Err e, s2)
           | Ok data \<Rightarrow>
               (case redis_encode c ''update_activity'' (touch at data) of
                  Err e \<Rightarrow> (Err e, s2)
                | Ok v \<Rightarrow>
                    if ev_expired x then (Err (Backend ''update_activity''), s3)
                    else if ev_reply x = Delivered \<and> (disturbed g \<or> disturbed x) then update_loop c key at s3
                    else (case ev_reply x of
                       Delivered \<Rightarrow> (Ok (), return_connection (s3\<lparr>r_hash := bt_insert (as_str key) v (r_hash s3)\<rparr>))
                     | LostBefore \<Rightarrow> (Err (Indeterminate ''update_activity''), s3)
                     | LostAfter \<Rightarrow> (Err (Indeterminate ''update_activity''),
                         if disturbed g \<or> disturbed x then s3
                         else s3\<lparr>r_hash := bt_insert (as_str key) v (r_hash s3)\<rparr>))))))"
  unfolding update_loop.simps[of c key at s] assms Let_def prod.case touch_def by (rule refl)

lemma delete_loop_round:
  assumes "next_event s = (g, s1)" "next_event s1 = (x, s2)"
    and current: "current = bt_get (as_str key) (r_hash s1)"
  shows "delete_loop c key s =
    (if ev_expired g \<or> ev_reply g \<noteq> Delivered then (Err (Backend ''delete''), s1)
     else (case decode_prior c key current of
        Err e \<Rightarrow> (Err e, s1)
      | Ok prior \<Rightarrow>
          if ev_expired x then (Err (Backend ''delete''), s2)
          else (case ev_reply x of
             Delivered \<Rightarrow>
               if bt_get (as_str key) (r_hash s2) = current
               then (Ok prior, return_connection (s2\<lparr>r_hash := bt_remove (as_str key) (r_hash s2)\<rparr>))
               else delete_loop c key s2
           | LostBefore \<Rightarrow> (Err (Indeterminate ''delete''), s2)
           | LostAfter \<Rightarrow> (Err (Indeterminate ''delete''),
               if bt_get (as_str key) (r_hash s2) = current
               then s2\<lparr>r_hash := bt_remove (as_str key) (r_hash s2)\<rparr> else s2))))"
proof -
  have "delete_script (r_hash s2) (as_str key) (current \<noteq> None) (case current of Some v \<Rightarrow> v | None \<Rightarrow> [])
    = (if bt_get (as_str key) (r_hash s2) = current then ((1, current), bt_remove (as_str key) (r_hash s2))
       else ((0, bt_get (as_str key) (r_hash s2)), r_hash s2))"
    by (auto simp: delete_script_def Let_def bt_remove_absent split: option.splits)
  then show ?thesis
    unfolding delete_loop.simps[of c key s] assms(1,2) Let_def prod.case current[symmetric]
    by (cases "decode_prior c key current"; cases "ev_reply x") simp_all
qed

definition committed :: "codec \<Rightarrow> redis \<Rightarrow> (route_key \<Rightarrow> route_data option) \<Rightarrow> (store_error, 'a) result \<Rightarrow> redis \<Rightarrow> bool" where
  "committed c s post r s' \<longleftrightarrow>
     (case r of
        Ok _ \<Rightarrow> redis_ready c s' \<and> redis_routes c s' = post
      | Err e \<Rightarrow> ordinary e \<longrightarrow> redis_ready c s' \<and> redis_routes c s' = redis_routes c s)"

lemma ready_value:
  assumes "redis_ready c s" "bt_get (as_str k) (r_hash s) = Some v"
  obtains d where "read_value c v = Some d" "extra_ok (extra d)" "redis_routes c s k = Some d"
proof -
  obtain d where "read_value c v = Some d" "extra_ok (extra d)"
    using assms unfolding redis_ready_def by blast
  then show thesis using that assms(2) by (simp add: redis_routes_def)
qed

lemma committed_backend:
  "redis_ready c s' \<Longrightarrow> redis_routes c s' = redis_routes c s \<Longrightarrow> committed c s post (Err (Backend op)) s'"
  "committed c s post (Err (Indeterminate op)) s'"
  by (simp_all add: committed_def ordinary_def)

lemma committed_Ok: "committed c s post (Ok u) s' \<longleftrightarrow> redis_ready c s' \<and> redis_routes c s' = post"
  by (simp add: committed_def)

lemma committed_cong:
  "redis_routes c s2 = redis_routes c s \<Longrightarrow> committed c s2 post r s' = committed c s post r s'"
  by (simp add: committed_def split: result.split)

lemma update_loop_committed:
  assumes "codec_ok c"
  shows "redis_ready c s \<Longrightarrow> update_loop c key at s = (r, s') \<Longrightarrow>
    committed c s ((redis_routes c s)(key := map_option (touch at) (redis_routes c s key))) r s'"
proof (induction "length (r_script s)" arbitrary: s r s' rule: less_induct)
  case less
  let ?op = "''update_activity''"
  obtain w s1 where w: "next_event s = (w, s1)" by (rule prod.exhaust)
  obtain g s2 where g: "next_event s1 = (g, s2)" by (rule prod.exhaust)
  obtain x s3 where x: "next_event s2 = (x, s3)" by (rule prod.exhaust)
  note s1 = next_event_ready[OF less(2) w]
  note s2 = next_event_ready[OF conjunct1[OF s1] g]
  note s3 = next_event_ready[OF conjunct1[OF s2] x]
  note res = less(3)[unfolded update_loop_round[OF w g x]]
  have same: "redis_ready c s1" "redis_ready c s2" "redis_ready c s3" "redis_routes c s1 = redis_routes c s"
    "redis_routes c s2 = redis_routes c s" "redis_routes c s3 = redis_routes c s"
    using s1 s2 s3 by simp_all
  show ?case
  proof (cases "ev_expired w \<or> ev_reply w \<noteq> Delivered \<or> ev_expired g \<or> ev_reply g \<noteq> Delivered")
    case True
    then have "r = Err (Backend ?op)" "s' = s1 \<or> s' = s2" using res by (auto split: if_splits)
    then show ?thesis using same by (auto intro: committed_backend)
  next
    case ok: False
    show ?thesis
    proof (cases "bt_get (as_str key) (r_hash s2)")
      case None
      then have "r = Err (Backend ?op) \<and> s' = s3 \<or> r = Ok () \<and> s' = return_connection s3"
        using res ok by (auto split: if_splits)
      moreover have "redis_routes c s2 key = None" using None by (simp add: redis_routes_def)
      ultimately show ?thesis using same by (auto simp: committed_Ok committed_backend fun_eq_iff)
    next
      case (Some u)
      obtain d where d: "read_value c u = Some d" "extra_ok (extra d)" "redis_routes c s2 key = Some d"
        using ready_value[OF same(2) Some] by blast
      obtain v where v: "redis_encode c ?op (touch at d) = Ok v" "read_value c v = Some (touch at d)"
        using encode_readable[OF assms, of "touch at d" ?op] d(2) by auto
      have "key_wf key" using same(2) Some unfolding redis_ready_def key_wf_def by blast
      note written = store_ready[OF same(3) this v(2)]
      let ?st = "s3\<lparr>r_hash := bt_insert (as_str key) v (r_hash s3)\<rparr>"
      have st: "redis_ready c ?st" "redis_routes c ?st = (redis_routes c s)(key \<mapsto> touch at d)"
        using written d(2) same by simp_all
      have "r = Err (Backend ?op) \<and> s' = s3 \<or> r = Err (Indeterminate ?op)
          \<or> r = Ok () \<and> s' = return_connection ?st
          \<or> ev_reply x = Delivered \<and> (disturbed g \<or> disturbed x) \<and> update_loop c key at s3 = (r, s')"
        using res ok Some d(1) v(1)
        by (cases "ev_reply x") (simp_all add: redis_decode_read split: if_splits)
      moreover have "committed c s3 ((redis_routes c s3)(key := map_option (touch at) (redis_routes c s3 key))) r s'"
        if "disturbed g \<or> disturbed x" "update_loop c key at s3 = (r, s')"
      proof -
        have "length (r_script s3) < length (r_script s)"
          using that(1) next_event_script[OF w] next_event_script[OF g] next_event_script[OF x] by auto
        then show ?thesis using less(1) same(3) that(2) by blast
      qed
      moreover have "(redis_routes c s)(key := map_option (touch at) (redis_routes c s key)) = (redis_routes c s)(key \<mapsto> touch at d)"
        using d(3) same(5) by simp
      ultimately show ?thesis using st(1) same(3) unfolding same(6) committed_cong[OF same(6)]
        by (elim disjE conjE) (simp_all only: committed_Ok committed_backend return_connection_frame st(2) same(6) simp_thms)
    qed
  qed
qed

lemma delete_ready:
  assumes "redis_ready c s"
  shows "redis_ready c (s\<lparr>r_hash := bt_remove (as_str key) (r_hash s)\<rparr>)"
    and "redis_routes c (s\<lparr>r_hash := bt_remove (as_str key) (r_hash s)\<rparr>) = (redis_routes c s)(key := None)"
proof -
  have "bt_wf (bt_remove (as_str key) (r_hash s))" using assms by (simp add: redis_ready_def wf_intros)
  moreover have "bt_get f (r_hash s) = Some v" if "bt_get f (bt_remove (as_str key) (r_hash s)) = Some v" for f v
    using that by (simp add: map_laws split: if_splits)
  ultimately show "redis_ready c (s\<lparr>r_hash := bt_remove (as_str key) (r_hash s)\<rparr>)"
    using assms unfolding redis_ready_def by (simp del: split_paired_All) blast
  show "redis_routes c (s\<lparr>r_hash := bt_remove (as_str key) (r_hash s)\<rparr>) = (redis_routes c s)(key := None)"
    by (auto simp: redis_routes_def fun_eq_iff map_laws intro: route_key.expand)
qed

lemma decode_prior_ready:
  assumes "redis_ready c s"
  shows "decode_prior c key (bt_get (as_str key) (r_hash s)) = Ok (redis_routes c s key)"
proof (cases "bt_get (as_str key) (r_hash s)")
  case (Some v)
  obtain d where "read_value c v = Some d" "redis_routes c s key = Some d"
    using ready_value[OF assms Some] by blast
  with Some show ?thesis by (simp add: decode_prior_def redis_decode_read)
qed (simp add: decode_prior_def redis_routes_def)

lemma delete_loop_committed:
  assumes "redis_ready c s" "delete_loop c key s = (r, s')"
  shows "committed c s ((redis_routes c s)(key := None)) r s'
    \<and> (\<forall>old. r = Ok old \<longrightarrow> old = redis_routes c s key)"
proof -
  obtain g s1 where g: "next_event s = (g, s1)" by (rule prod.exhaust)
  obtain x s2 where x: "next_event s1 = (x, s2)" by (rule prod.exhaust)
  note s1 = next_event_ready[OF assms(1) g]
  note s2 = next_event_ready[OF conjunct1[OF s1] x]
  note res = assms(2)[unfolded delete_loop_round[OF g x refl]]
  note del = delete_ready[OF conjunct1[OF s2]]
  have "r = Err (Backend ''delete'') \<and> (s' = s1 \<or> s' = s2) \<or> r = Err (Indeterminate ''delete'')
    \<or> r = Ok (redis_routes c s key) \<and> s' = return_connection (s2\<lparr>r_hash := bt_remove (as_str key) (r_hash s2)\<rparr>)"
    using res s1 s2 decode_prior_ready[of c s1 key]
    by (cases "ev_reply x") (simp_all split: if_splits)
  then show ?thesis using s1 s2 del by (auto simp: committed_Ok committed_backend)
qed

text \<open>The field of a route is read back as exactly the key that was written.\<close>

lemma decode_key_exact:
  assumes "starts_with_char CHR ''/'' f"
  shows "redis_decode_key f = Ok (RouteKey f)"
proof (cases "1 < length f \<and> ends_with_char CHR ''/'' f")
  case True
  then show ?thesis using assms normalize_extra_slash[of "RouteKey f"]
    by (simp add: redis_decode_key_def route_key_parse_def key_wf_def)
next
  case False
  then show ?thesis using assms normalize_fixed[of "RouteKey f"]
    by (auto simp: redis_decode_key_def route_key_parse_def key_wf_def)
qed

lemma load_records_ok:
  assumes "bt_wf h" "\<And>f v. bt_get f h = Some v \<Longrightarrow> starts_with_char CHR ''/'' f \<and> read_value c v \<noteq> None"
    and "bt_wf acc"
  shows "\<exists>m. load_records c h acc = Ok m \<and> bt_wf m
    \<and> (\<forall>k. bt_get k m = (case bt_get (as_str k) h of None \<Rightarrow> bt_get k acc | Some v \<Rightarrow> read_value c v))"
  using assms
proof (induction h arbitrary: acc)
  case (Cons b h)
  obtain f v where b: "b = (f, v)" by (rule prod.exhaust)
  have wf: "bt_wf h" and fresh: "bt_get f h = None"
    using Cons.prems(1) b by (auto simp: bt_wf_def bt_get_def map_of_eq_None_iff)
  have slash: "starts_with_char CHR ''/'' f" using Cons.prems(2)[of f v] b by simp
  obtain d where d: "read_value c v = Some d" using Cons.prems(2)[of f v] b by auto
  have rest: "starts_with_char CHR ''/'' g \<and> read_value c u \<noteq> None" if "bt_get g h = Some u" for g u
  proof -
    have "g \<noteq> f" using that fresh by auto
    then show ?thesis using Cons.prems(2)[of g u] b that by simp
  qed
  obtain m where m: "load_records c h (bt_insert (RouteKey f) d acc) = Ok m" "bt_wf m"
    "\<forall>k. bt_get k m = (case bt_get (as_str k) h of None \<Rightarrow> bt_get k (bt_insert (RouteKey f) d acc)
       | Some v \<Rightarrow> read_value c v)"
    using Cons.IH[OF wf rest bt_wf_insert[OF Cons.prems(3)]] by blast
  have "bt_get k m = (case bt_get (as_str k) (b # h) of None \<Rightarrow> bt_get k acc | Some v \<Rightarrow> read_value c v)" for k
    unfolding spec[OF m(3), of k] using b d fresh by (cases k) (auto simp: map_laws split: option.splits)
  moreover have "load_records c (b # h) acc = Ok m"
    using m(1) b d decode_key_exact[OF slash] by (simp add: redis_decode_read)
  ultimately show ?case using m(2) by blast
qed simp

lemma redis_snapshot_ready:
  assumes "redis_ready c s" "redis_snapshot c s = (Ret (Ok m), s')"
  shows "bt_wf m \<and> (\<forall>k. bt_get k m = redis_routes c s k) \<and> redis_routes c s' = redis_routes c s \<and> redis_ready c s'"
proof -
  obtain r s1 where t: "take_connection ''snapshot'' s = (r, s1)" by (rule prod.exhaust)
  obtain g s2 where g: "next_event s1 = (g, s2)" by (rule prod.exhaust)
  note s1 = take_connection_ready[OF assms(1) t]
  note s2 = next_event_ready[OF conjunct1[OF s1] g]
  have h: "bt_wf (r_hash s2)" "\<And>f v. bt_get f (r_hash s2) = Some v \<Longrightarrow> starts_with_char CHR ''/'' f \<and> read_value c v \<noteq> None"
    using s2 unfolding redis_ready_def by blast+
  obtain m' where m': "load_records c (r_hash s2) [] = Ok m'" "bt_wf m'"
    "\<forall>k. bt_get k m' = (case bt_get (as_str k) (r_hash s2) of None \<Rightarrow> bt_get k [] | Some v \<Rightarrow> read_value c v)"
    using load_records_ok[OF h bt_wf_Nil] by blast
  have "m' = m" "s' = return_connection s2"
    using assms(2) t g m'(1) by (auto simp: redis_snapshot_def split: result.splits if_splits)
  moreover have "redis_routes c s2 k = (case bt_get (as_str k) (r_hash s2) of None \<Rightarrow> bt_get k [] | Some v \<Rightarrow> read_value c v)" for k
    by (simp add: redis_routes_def split: option.splits)
  ultimately show ?thesis using m' s1 s2 by simp
qed

lemma atomic_replace_replaced:
  assumes "codec_ok c" "key_wf key" "redis_ready c s" "extra_ok (extra data)"
    and "atomic_replace c op key data fl s = (r, s')"
  shows "replaced c fl key data s r s'"
proof -
  obtain q s1 where t: "take_connection op s = (q, s1)" by (rule prod.exhaust)
  note s1 = take_connection_ready[OF assms(3) t]
  show ?thesis
  proof (cases q)
    case (Ok u)
    then have "replace_loop c op key fl 0 data s1 = (r, s')" using assms(5) t by (simp add: atomic_replace_def)
    then have "replaced c fl key data s1 r s'"
      using replace_loop_replaced[OF assms(1,2) conjunct1[OF s1] assms(4)] by blast
    then show ?thesis using s1 by (simp add: replaced_def split: result.splits)
  next
    case (Err e)
    then have "r = Err e" "s' = s1" using assms(5) t by (simp_all add: atomic_replace_def)
    then show ?thesis using s1 by (simp add: replaced_def)
  qed
qed

lemma redis_add_cases:
  "redis_add c now k t x fl s = (Ret r, s') \<longleftrightarrow>
   atomic_replace c ''add'' k \<lparr>target = t, last_activity = now, extra = x\<rparr> fl s = (r, s')"
  by (simp add: redis_add_def split: prod.split)

lemma redis_put_cases:
  "redis_put_preserving_activity c k d fl s = (Ret r, s') \<longleftrightarrow> atomic_replace c ''put'' k d fl s = (r, s')"
  by (simp add: redis_put_preserving_activity_def split: prod.split)

lemma replaced_Ok:
  "replaced c fl key data s (Ok d) s' \<longleftrightarrow> redis_ready c s' \<and> redis_routes c s' = (redis_routes c s)(key \<mapsto> d)
     \<and> target d = target data \<and> extra d = extra data \<and> (\<exists>m. \<forall>f. fl m = Some f \<longrightarrow> f \<le> last_activity d)"
  by (simp add: replaced_def)

lemma redis_update_committed:
  assumes "codec_ok c" "redis_ready c s" "redis_update_activity c key at s = (Ret r, s')"
  shows "committed c s ((redis_routes c s)(key := map_option (touch at) (redis_routes c s key))) r s'"
proof -
  obtain q s1 where t: "take_connection ''update_activity'' s = (q, s1)" by (rule prod.exhaust)
  note s1 = take_connection_ready[OF assms(2) t]
  show ?thesis
  proof (cases q)
    case (Ok u)
    then have "update_loop c key at s1 = (r, s')"
      using assms(3) t by (simp add: redis_update_activity_def split: prod.splits)
    then have "committed c s1 ((redis_routes c s1)(key := map_option (touch at) (redis_routes c s1 key))) r s'"
      using update_loop_committed[OF assms(1) conjunct1[OF s1]] by blast
    then show ?thesis using s1 by (simp add: committed_cong[of c s1 s])
  next
    case (Err e)
    then have "r = Err e" "s' = s1" using assms(3) t by (simp_all add: redis_update_activity_def)
    then show ?thesis using s1 by (simp add: committed_def)
  qed
qed

lemma redis_delete_committed:
  assumes "redis_ready c s" "redis_delete c key s = (Ret r, s')"
  shows "committed c s ((redis_routes c s)(key := None)) r s' \<and> (\<forall>old. r = Ok old \<longrightarrow> old = redis_routes c s key)"
proof -
  obtain q s1 where t: "take_connection ''delete'' s = (q, s1)" by (rule prod.exhaust)
  note s1 = take_connection_ready[OF assms(1) t]
  show ?thesis
  proof (cases q)
    case (Ok u)
    then have "delete_loop c key s1 = (r, s')"
      using assms(2) t by (simp add: redis_delete_def split: prod.splits)
    then show ?thesis
      using delete_loop_committed[OF conjunct1[OF s1]] s1
      by (simp add: committed_cong[of c s1 s])
  next
    case (Err e)
    then have "r = Err e" "s' = s1" using assms(2) t by (simp_all add: redis_delete_def)
    then show ?thesis using s1 by (simp add: committed_def)
  qed
qed

lemma ordinary_add_err:
  assumes "redis_ready c s" "atomic_replace c op key data fl s = (Err e, s')" "ordinary e"
  shows "redis_routes c s' = redis_routes c s \<and> redis_ready c s'"
proof -
  have loop: "redis_ready c s \<Longrightarrow> replace_loop c op key fl n data s = (Err e, s') \<Longrightarrow>
      redis_routes c s' = redis_routes c s \<and> redis_ready c s'" for n data s
  proof (induction "length (r_script s)" arbitrary: n data s rule: less_induct)
    case less
    obtain w s1 where w: "next_event s = (w, s1)" by (rule prod.exhaust)
    obtain x s2 where x: "next_event s1 = (x, s2)" by (rule prod.exhaust)
    note s1 = next_event_ready[OF less(2) w]
    note s2 = next_event_ready[OF conjunct1[OF s1] x]
    have retry: "redis_routes c s' = redis_routes c s2 \<and> redis_ready c s'"
      if "disturbed x" "replace_loop c op key fl (Suc n) (raised fl n data) s2 = (Err e, s')"
    proof -
      have "length (r_script s2) < length (r_script s)"
        using next_event_script[OF w] next_event_script[OF x] that(1) by simp
      then show ?thesis using less(1) s2 that(2) by blast
    qed
    have "s' = s1 \<or> s' = s2 \<or> disturbed x \<and> replace_loop c op key fl (Suc n) (raised fl n data) s2 = (Err e, s')"
      using less(3) assms(3) unfolding replace_loop.simps[of c op key fl n data s] w x Let_def raised_def[symmetric]
      by (auto simp: w x ordinary_def split: if_splits result.splits redis_reply.splits)
    then show ?case using s1 s2 retry by (elim disjE) simp_all
  qed
  obtain q s1 where t: "take_connection op s = (q, s1)" by (rule prod.exhaust)
  note s1 = take_connection_ready[OF assms(1) t]
  show ?thesis
  proof (cases q)
    case (Ok u)
    then show ?thesis using assms(2) t s1 loop[of s1 0 data] by (simp add: atomic_replace_def)
  next
    case (Err e')
    then show ?thesis using assms(2) t s1 by (simp add: atomic_replace_def)
  qed
qed

lemma committed_ordinary:
  "committed c s post (Err e) s' \<Longrightarrow> ordinary e \<Longrightarrow> redis_routes c s' = redis_routes c s \<and> redis_ready c s'"
  by (simp add: committed_def)

lemmas redis_ops_simps = redis_ops_def store_ops.simps

section \<open>Atomicity under interference\<close>

text \<open>
  The hash after the first \<open>n\<close> events of the environment, when this client writes nothing.
\<close>

definition foreign :: "redis \<Rightarrow> nat \<Rightarrow> (string, string) btree" where
  "foreign s n = fold apply_write (concat (map ev_writes (take n (r_script s)))) (r_hash s)"

definition evolves :: "redis \<Rightarrow> nat \<Rightarrow> redis \<Rightarrow> bool" where
  "evolves s n s' \<longleftrightarrow> r_script s' = drop n (r_script s) \<and> r_hash s' = foreign s n"

lemma evolves_refl: "evolves s 0 s" "evolves s 0 (s\<lparr>r_connected := b\<rparr>)"
  by (simp_all add: evolves_def foreign_def)

lemma evolves_trans: "evolves s n s1 \<Longrightarrow> evolves s1 m s2 \<Longrightarrow> evolves s (n + m) s2"
  by (auto simp: evolves_def foreign_def take_add) (simp only: add.commute)

lemma next_event_evolves: "next_event s = (e, s') \<Longrightarrow> \<exists>n. evolves s n s' \<and> (\<not> disturbed e \<longrightarrow> foreign s n = r_hash s)"
proof (cases "r_script s")
  case Nil
  moreover assume "next_event s = (e, s')"
  ultimately show ?thesis using evolves_refl(1)[of s] by (auto simp: next_event_def foreign_def)
next
  case (Cons f fs)
  moreover assume "next_event s = (e, s')"
  ultimately show ?thesis
    by (intro exI[of _ 1]) (auto simp: next_event_def foreign_def evolves_def disturbed_def)
qed

lemma take_connection_evolves:
  assumes "take_connection op s = (r, s')"
  shows "\<exists>n. evolves s n s'"
proof (cases "r_connected s")
  case True
  then show ?thesis using assms evolves_refl(2)[of s False] by (auto simp: take_connection_def)
next
  case False
  obtain e s1 where e: "next_event s = (e, s1)" by (rule prod.exhaust)
  have "s' = s1" using False assms e by (auto simp: take_connection_def split: if_splits)
  then show ?thesis using next_event_evolves[OF e] by blast
qed

lemma evolves_foreign: "evolves s n s1 \<Longrightarrow> foreign s1 m = foreign s (n + m)"
  by (simp add: evolves_def foreign_def take_add)

lemma replace_loop_atomic:
  "replace_loop c op key fl n data s = (Ok d, s') \<Longrightarrow>
   \<exists>i v. redis_decode c op (as_str key) v = Ok d \<and> r_hash s' = bt_insert (as_str key) v (foreign s i)"
proof (induction "length (r_script s)" arbitrary: n data s rule: less_induct)
  case less
  obtain w s1 where w: "next_event s = (w, s1)" by (rule prod.exhaust)
  obtain x s2 where x: "next_event s1 = (x, s2)" by (rule prod.exhaust)
  obtain i j where ij: "evolves s i s1" "evolves s1 j s2" using next_event_evolves[OF w] next_event_evolves[OF x] by blast
  then have e2: "evolves s (i + j) s2" by (rule evolves_trans)
  have "(\<exists>v. redis_decode c op (as_str key) v = Ok d \<and> r_hash s' = bt_insert (as_str key) v (r_hash s2))
     \<or> disturbed x \<and> replace_loop c op key fl (Suc n) (raised fl n data) s2 = (Ok d, s')"
    using less(2) unfolding replace_loop.simps[of c op key fl n data s] w x Let_def raised_def[symmetric]
    by (auto simp: w x return_connection_def split: if_splits result.splits redis_reply.splits)
  then show ?case
  proof (elim disjE conjE)
    assume "\<exists>v. redis_decode c op (as_str key) v = Ok d \<and> r_hash s' = bt_insert (as_str key) v (r_hash s2)"
    then show ?thesis using e2 by (auto simp: evolves_def)
  next
    assume r: "disturbed x" "replace_loop c op key fl (Suc n) (raised fl n data) s2 = (Ok d, s')"
    have "length (r_script s2) < length (r_script s)"
      using next_event_script[OF w] next_event_script[OF x] r(1) by simp
    then show ?thesis using less(1)[OF _ r(2)] evolves_foreign[OF e2] by auto
  qed
qed

definition activity_updated ::
  "codec \<Rightarrow> route_key \<Rightarrow> timestamp \<Rightarrow> (string, string) btree \<Rightarrow> (string, string) btree \<Rightarrow> (string, string) btree \<Rightarrow> bool" where
  "activity_updated c key at h later h' \<longleftrightarrow>
     (case bt_get (as_str key) h of
        None \<Rightarrow> h' = later
      | Some v \<Rightarrow> \<exists>d e. redis_decode c ''update_activity'' (as_str key) v = Ok d
          \<and> redis_encode c ''update_activity'' (touch at d) = Ok e
          \<and> h' = bt_insert (as_str key) e h)"

lemma update_loop_Ok:
  assumes "next_event s = (w, s1)" "next_event s1 = (g, s2)" "next_event s2 = (x, s3)"
    and "update_loop c key at s = (Ok u, s')"
  shows "bt_get (as_str key) (r_hash s2) = None \<and> r_hash s' = r_hash s3
    \<or> \<not> disturbed x \<and> (r_hash s3 = r_hash s2 \<longrightarrow> activity_updated c key at (r_hash s2) (r_hash s3) (r_hash s'))
    \<or> (disturbed g \<or> disturbed x) \<and> update_loop c key at s3 = (Ok u, s')"
  using assms(4)[unfolded update_loop_round[OF assms(1-3)]]
  by (auto simp: return_connection_def activity_updated_def
      split: if_splits result.splits redis_reply.splits option.splits)

lemma update_loop_atomic:
  "update_loop c key at s = (Ok u, s') \<Longrightarrow>
   \<exists>i j. i \<le> j \<and> activity_updated c key at (foreign s i) (foreign s j) (r_hash s')"
proof (induction "length (r_script s)" arbitrary: s rule: less_induct)
  case less
  obtain w s1 where w: "next_event s = (w, s1)" by (rule prod.exhaust)
  obtain g s2 where g: "next_event s1 = (g, s2)" by (rule prod.exhaust)
  obtain x s3 where x: "next_event s2 = (x, s3)" by (rule prod.exhaust)
  obtain i j k where ijk: "evolves s i s1" "evolves s1 j s2" "evolves s2 k s3"
    "\<not> disturbed x \<longrightarrow> foreign s2 k = r_hash s2"
    using next_event_evolves[OF w] next_event_evolves[OF g] next_event_evolves[OF x] by blast
  have e2: "evolves s (i + j) s2" and e3: "evolves s (i + j + k) s3"
    using evolves_trans[OF ijk(1,2)] evolves_trans[OF evolves_trans[OF ijk(1,2)] ijk(3)] .
  have h: "r_hash s2 = foreign s (i + j)" "r_hash s3 = foreign s (i + j + k)"
    using e2 e3 by (simp_all add: evolves_def)
  show ?case using update_loop_Ok[OF w g x less(2)]
  proof (elim disjE)
    assume "bt_get (as_str key) (r_hash s2) = None \<and> r_hash s' = r_hash s3"
    then show ?thesis using h
      by (intro exI[of _ "i + j"] exI[of _ "i + j + k"]) (simp add: activity_updated_def)
  next
    assume "\<not> disturbed x \<and> (r_hash s3 = r_hash s2 \<longrightarrow> activity_updated c key at (r_hash s2) (r_hash s3) (r_hash s'))"
    then show ?thesis using h ijk(3,4)
      by (intro exI[of _ "i + j"] exI[of _ "i + j + k"]) (simp add: evolves_def)
  next
    assume r: "(disturbed g \<or> disturbed x) \<and> update_loop c key at s3 = (Ok u, s')"
    have "length (r_script s3) < length (r_script s)"
      using next_event_script[OF w] next_event_script[OF g] next_event_script[OF x] r by auto
    from less(1)[OF this conjunct2[OF r]] obtain a b where
      ab: "a \<le> b" "activity_updated c key at (foreign s3 a) (foreign s3 b) (r_hash s')" by blast
    then have "i + j + k + a \<le> i + j + k + b" by simp
    then show ?thesis using ab(2) unfolding evolves_foreign[OF e3] by blast
  qed
qed

lemma delete_loop_atomic:
  "delete_loop c key s = (Ok old, s') \<Longrightarrow>
   \<exists>i. decode_prior c key (bt_get (as_str key) (foreign s i)) = Ok old
     \<and> r_hash s' = bt_remove (as_str key) (foreign s i)"
proof (induction "length (r_script s)" arbitrary: s rule: less_induct)
  case less
  obtain g s1 where g: "next_event s = (g, s1)" by (rule prod.exhaust)
  obtain x s2 where x: "next_event s1 = (x, s2)" by (rule prod.exhaust)
  obtain i j where ij: "evolves s i s1" "evolves s1 j s2" using next_event_evolves[OF g] next_event_evolves[OF x] by blast
  then have e2: "evolves s (i + j) s2" by (rule evolves_trans)
  let ?f = "as_str key"
  have "decode_prior c key (bt_get ?f (r_hash s2)) = Ok old \<and> r_hash s' = bt_remove ?f (r_hash s2)
    \<or> bt_get ?f (r_hash s2) \<noteq> bt_get ?f (r_hash s1) \<and> delete_loop c key s2 = (Ok old, s')"
    using less(2)[unfolded delete_loop_round[OF g x refl]]
    by (auto simp: return_connection_def split: if_splits result.splits redis_reply.splits)
  then show ?case
  proof (elim disjE conjE)
    assume "decode_prior c key (bt_get ?f (r_hash s2)) = Ok old" "r_hash s' = bt_remove ?f (r_hash s2)"
    then show ?thesis using e2 by (auto simp: evolves_def)
  next
    assume r: "bt_get ?f (r_hash s2) \<noteq> bt_get ?f (r_hash s1)" "delete_loop c key s2 = (Ok old, s')"
    have "r_script s2 \<noteq> r_script s1" using next_event_calm[OF x] r(1) by auto
    then have "length (r_script s2) < length (r_script s1)"
      using x by (cases "r_script s1") (auto simp: next_event_def)
    then have "length (r_script s2) < length (r_script s)" using next_event_script[OF g] by simp
    then show ?thesis using less(1)[OF _ r(2)] evolves_foreign[OF e2] by auto
  qed
qed

lemma atomic_replace_atomic:
  assumes "atomic_replace c op key data fl s = (Ok d, s')"
  shows "\<exists>i v. redis_decode c op (as_str key) v = Ok d \<and> r_hash s' = bt_insert (as_str key) v (foreign s i)"
proof -
  obtain u s1 where t: "take_connection op s = (Ok u, s1)" "replace_loop c op key fl 0 data s1 = (Ok d, s')"
    using assms by (auto simp: atomic_replace_def split: prod.splits result.splits)
  obtain n where "evolves s n s1" using take_connection_evolves[OF t(1)] by blast
  then show ?thesis using replace_loop_atomic[OF t(2)] evolves_foreign by auto
qed

lemma redis_update_atomic:
  assumes "redis_update_activity c key at s = (Ret (Ok u), s')"
  shows "\<exists>i j. i \<le> j \<and> activity_updated c key at (foreign s i) (foreign s j) (r_hash s')"
proof -
  obtain q s1 where t: "take_connection ''update_activity'' s = (Ok q, s1)" "update_loop c key at s1 = (Ok u, s')"
    using assms by (auto simp: redis_update_activity_def split: prod.splits result.splits)
  obtain n where n: "evolves s n s1" using take_connection_evolves[OF t(1)] by blast
  obtain i j where "i \<le> j" "activity_updated c key at (foreign s1 i) (foreign s1 j) (r_hash s')"
    using update_loop_atomic[OF t(2)] by blast
  then show ?thesis unfolding evolves_foreign[OF n] by (intro exI[of _ "n + i"] exI[of _ "n + j"]) simp
qed

lemma redis_delete_atomic:
  assumes "redis_delete c key s = (Ret (Ok old), s')"
  shows "\<exists>i. decode_prior c key (bt_get (as_str key) (foreign s i)) = Ok old
     \<and> r_hash s' = bt_remove (as_str key) (foreign s i)"
proof -
  obtain q s1 where t: "take_connection ''delete'' s = (Ok q, s1)" "delete_loop c key s1 = (Ok old, s')"
    using assms by (auto simp: redis_delete_def split: prod.splits result.splits)
  obtain n where "evolves s n s1" using take_connection_evolves[OF t(1)] by blast
  then show ?thesis using delete_loop_atomic[OF t(2)] evolves_foreign by auto
qed

section \<open>Theorems\<close>


definition unary_codec :: codec where
  "unary_codec =
     \<lparr>print_json = (\<lambda>j. Some (unary j)), parse_json = (\<lambda>s. Some (unary_read s)),
      nanos_date = unary, millis_date = unary, parse_date = (\<lambda>s. Some (unary_read s))\<rparr>"

lemma unary_codec_ok: "codec_ok unary_codec"
  by (simp add: codec_ok_def unary_codec_def)


text \<open>C25.
  Every Redis mutation that reports success took effect at one instant of the history of the
  other clients' writes, however many rounds it needed: the replacement writes its record over the
  hash of that instant, the activity update rewrites the record it read there or finds none, and
  the deletion removes the very record that it returns.\<close>

theorem redis_mutations_atomic:
  "(atomic_replace c op key data fl s = (Ok d, s') \<longrightarrow>
      (\<exists>i v. redis_decode c op (as_str key) v = Ok d \<and> r_hash s' = bt_insert (as_str key) v (foreign s i)))
   \<and> (redis_update_activity c key at s = (Ret (Ok u), s') \<longrightarrow>
      (\<exists>i j. i \<le> j \<and> activity_updated c key at (foreign s i) (foreign s j) (r_hash s')))
   \<and> (redis_delete c key s = (Ret (Ok old), s') \<longrightarrow>
      (\<exists>i. decode_prior c key (bt_get (as_str key) (foreign s i)) = Ok old
         \<and> r_hash s' = bt_remove (as_str key) (foreign s i)))"
  by (simp add: atomic_replace_atomic redis_update_atomic redis_delete_atomic)

definition constant_codec :: codec where
  "constant_codec =
     \<lparr>print_json = (\<lambda>_. Some ''v''),
      parse_json = (\<lambda>_. Some (JObject [(''last_activity'', JString ''t''), (''target'', JString ''u'')])),
      nanos_date = (\<lambda>_. ''t''), millis_date = (\<lambda>_. ''t''), parse_date = (\<lambda>_. Some 0)\<rparr>"

definition contended :: redis where
  "contended =
     \<lparr>r_hash = [(''/hub'', ''v'')], r_connected = True,
      r_script = [quiet, quiet\<lparr>ev_writes := [(''/hub'', Some ''w'')]\<rparr>]\<rparr>"

theorem redis_mutations_atomic_witness:
  "redis_delete constant_codec (RouteKey ''/hub'') contended
     = (Ret (Ok (Some \<lparr>target = ''u'', last_activity = 0, extra = []\<rparr>)), \<lparr>r_hash = [], r_connected = True, r_script = []\<rparr>)
   \<and> (\<exists>i. decode_prior constant_codec (RouteKey ''/hub'') (bt_get ''/hub'' (foreign contended i))
            = Ok (Some \<lparr>target = ''u'', last_activity = 0, extra = []\<rparr>)
         \<and> [] = bt_remove ''/hub'' (foreign contended i))"
proof -
  have "redis_delete constant_codec (RouteKey ''/hub'') contended
     = (Ret (Ok (Some \<lparr>target = ''u'', last_activity = 0, extra = []\<rparr>)), \<lparr>r_hash = [], r_connected = True, r_script = []\<rparr>)"
    by code_simp
  then show ?thesis
    using redis_mutations_atomic[of constant_codec "''x''" "RouteKey ''/hub''" undefined undefined contended undefined
        "\<lparr>r_hash = [], r_connected = True, r_script = []\<rparr>" 0 "()" "Some \<lparr>target = ''u'', last_activity = 0, extra = []\<rparr>"]
    by simp
qed

end
