(* ===== verification/Url_Library.thy ===== *)
theory Url_Library
  imports Rust_Strings
begin

text \<open>
  What the sources read from a parsed URL (the \<open>url\<close> package): the components of a
  \<open>Url\<close> value, with \<open>url_host_port_text\<close> for the slice from before the host to after the port,
  \<open>url_known_port\<close> for \<open>port_or_known_default\<close> and \<open>url_text\<close> for \<open>as_str\<close>. Parsing and the
  setters are in a record that is an argument of the definitions.
\<close>

record url_view =
  url_scheme :: string
  url_username :: string
  url_password :: "string option"
  url_host :: "string option"
  url_port :: "u16 option"
  url_known_port :: "u16 option"
  url_host_port_text :: string
  url_path_of :: string
  url_query_of :: "string option"
  url_fragment :: "string option"
  url_text :: string

record url_lib =
  ul_parse :: "string \<Rightarrow> (string, url_view) result"
  ul_set_host :: "url_view \<Rightarrow> string \<Rightarrow> url_view option"
  ul_set_port :: "url_view \<Rightarrow> u16 \<Rightarrow> url_view option"
  ul_set_scheme :: "url_view \<Rightarrow> string \<Rightarrow> url_view option"
  ul_is_ipv6 :: "string \<Rightarrow> bool"

end
