(* ===== verification/Sidecar_Store.thy ===== *)
theory Sidecar_Store
  imports Store Headers Percent_Coding Url_Library
begin

text \<open>
  \<open>src/src/store/sidecar.rs\<close>: the client of the HTTP/JSON storage sidecar. The sidecar itself,
  with the network in front of it, is a function from a request and the state of its world to an
  exchange (no reply, or a response whose body arrives in chunks) and the new world. URL parsing,
  JSON text and timestamps belong to libraries and are in the record \<open>sidecar_env\<close>. A duration
  is a number of nanoseconds.
\<close>

section \<open>Settings\<close>

definition MAX_ATTEMPTS :: nat where
  "MAX_ATTEMPTS = 10"

definition MAX_MUTATION_REQUEST_BYTES :: nat where
  "MAX_MUTATION_REQUEST_BYTES = 1024 * 1024"

definition MAX_RESPONSE_BYTES :: nat where
  "MAX_RESPONSE_BYTES = 4 * 1024 * 1024"

definition MAX_RESPONSE_HEADER_COUNT :: nat where
  "MAX_RESPONSE_HEADER_COUNT = 64"

definition MAX_RESPONSE_HEADER_BYTES :: nat where
  "MAX_RESPONSE_HEADER_BYTES = 32 * 1024"

record sidecar_config =
  sc_base_url :: string
  sc_bearer_token :: "string option"
  sc_connect_timeout :: nat
  sc_request_timeout :: nat
  sc_max_attempts :: nat
  sc_initial_backoff :: nat
  sc_max_backoff :: nat

definition from_secs :: "nat \<Rightarrow> nat" where
  "from_secs n = n * 1000000000"

definition from_millis :: "nat \<Rightarrow> nat" where
  "from_millis n = n * 1000000"

definition sidecar_config_new :: "string \<Rightarrow> sidecar_config" where
  "sidecar_config_new base_url =
     \<lparr>sc_base_url = base_url, sc_bearer_token = None,
      sc_connect_timeout = from_secs 1, sc_request_timeout = from_secs 2,
      sc_max_attempts = 3, sc_initial_backoff = from_millis 25, sc_max_backoff = from_millis 200\<rparr>"

definition with_bearer_token :: "string \<Rightarrow> sidecar_config \<Rightarrow> sidecar_config" where
  "with_bearer_token token config = config\<lparr>sc_bearer_token := Some token\<rparr>"

definition with_connect_timeout :: "nat \<Rightarrow> sidecar_config \<Rightarrow> sidecar_config" where
  "with_connect_timeout t config = config\<lparr>sc_connect_timeout := t\<rparr>"

definition with_request_timeout :: "nat \<Rightarrow> sidecar_config \<Rightarrow> sidecar_config" where
  "with_request_timeout t config = config\<lparr>sc_request_timeout := t\<rparr>"

definition with_retry_policy :: "nat \<Rightarrow> nat \<Rightarrow> nat \<Rightarrow> sidecar_config \<Rightarrow> sidecar_config" where
  "with_retry_policy max_attempts initial_backoff max_backoff config =
     config\<lparr>sc_max_attempts := max 1 (min max_attempts MAX_ATTEMPTS),
            sc_initial_backoff := min initial_backoff max_backoff,
            sc_max_backoff := max_backoff\<rparr>"

section \<open>Errors\<close>

definition backend :: "string \<Rightarrow> store_error" where
  "backend operation = Backend operation"

definition indeterminate :: "string \<Rightarrow> store_error" where
  "indeterminate operation = Indeterminate operation"

definition corrupt :: "string \<Rightarrow> string \<Rightarrow> store_error" where
  "corrupt operation key = CorruptData operation key"

lemma error_ordinary [simp]:
  "ordinary (backend op)" "\<not> ordinary (indeterminate op)" "ordinary (corrupt op k)"
  by (simp_all add: ordinary_def backend_def indeterminate_def corrupt_def)

section \<open>Requests and responses\<close>

datatype chunk = Bytes string | BrokenBody

record http_request =
  hq_method :: string
  hq_url :: string
  hq_headers :: header_map
  hq_body :: "string option"

record http_response =
  hr_status :: nat
  hr_headers :: header_map
  hr_content_length :: "nat option"
  hr_chunks :: "chunk list"

datatype exchange = NoReply | Reply http_response

record http_reply =
  reply_status :: nat
  reply_body :: string
  reply_last_activity :: "timestamp option"

datatype acknowledgment = AckPut | AckEmpty | AckDelete

datatype body_read_error = Transport | TooLarge

record 'w sidecar_env =
  se_parse_url :: "string \<Rightarrow> url_view option"
  se_join :: "url_view \<Rightarrow> string \<Rightarrow> string option"
  se_header_value :: "string \<Rightarrow> bool"
  se_client :: bool
  se_print :: "json \<Rightarrow> string option"
  se_members :: "string \<Rightarrow> (string \<times> json) list option"
  se_entries :: "string \<Rightarrow> (string \<times> (string \<times> json) list) list option"
  se_nanos :: "timestamp \<Rightarrow> string"
  se_rfc3339 :: "string \<Rightarrow> timestamp option"
  se_serve :: "http_request \<Rightarrow> 'w \<Rightarrow> exchange \<times> 'w"

record sidecar_store =
  ss_headers :: header_map
  ss_base_url :: url_view
  ss_max_attempts :: nat
  ss_initial_backoff :: nat
  ss_max_backoff :: nat

text \<open>The world of the sidecar, and the pauses that the client has made between attempts.\<close>

record 'w sidecar =
  sd_world :: 'w
  sd_pauses :: "nat list"

section \<open>Header and body checks\<close>

definition is_server_error :: "nat \<Rightarrow> bool" where
  "is_server_error status \<longleftrightarrow> 500 \<le> status \<and> status < 600"

definition is_client_error :: "nat \<Rightarrow> bool" where
  "is_client_error status \<longleftrightarrow> 400 \<le> status \<and> status < 500"

definition single_header :: "header_map \<Rightarrow> string \<Rightarrow> string option" where
  "single_header headers name =
     (case hm_get_all name headers of
        [] \<Rightarrow> None
      | value # values \<Rightarrow>
          (case header_to_str value of
             None \<Rightarrow> None
           | Some text \<Rightarrow> if values = [] then Some text else None))"

definition has_exact_protocol_header :: "header_map \<Rightarrow> bool" where
  "has_exact_protocol_header headers \<longleftrightarrow> single_header headers ''x-store-protocol'' = Some ''v1''"

definition has_exact_content_type :: "header_map \<Rightarrow> string \<Rightarrow> bool" where
  "has_exact_content_type headers expected \<longleftrightarrow> single_header headers ''content-type'' = Some expected"

definition has_nonempty_or_ambiguous_body_framing :: "header_map \<Rightarrow> bool" where
  "has_nonempty_or_ambiguous_body_framing headers =
     (if hm_contains ''transfer-encoding'' headers then True
      else
        (case hm_get_all ''content-length'' headers of
           [] \<Rightarrow> False
         | [l] \<Rightarrow> l \<noteq> ''0''
         | _ \<Rightarrow> True))"

definition checked_add :: "nat \<Rightarrow> nat \<Rightarrow> nat option" where
  "checked_add a b = (if a + b < 2 ^ 64 then Some (a + b) else None)"

fun header_bytes :: "nat \<Rightarrow> header_map \<Rightarrow> nat option" where
  "header_bytes bytes [] = Some bytes"
| "header_bytes bytes ((name, value) # h) =
     Option.bind (checked_add bytes (length name)) (\<lambda>t.
     Option.bind (checked_add t (length value)) (\<lambda>t. header_bytes t h))"

definition headers_within_limits :: "header_map \<Rightarrow> bool" where
  "headers_within_limits headers =
     (if MAX_RESPONSE_HEADER_COUNT < length headers then False
      else
        (case header_bytes 0 headers of
           None \<Rightarrow> False
         | Some bytes \<Rightarrow> bytes \<le> MAX_RESPONSE_HEADER_BYTES))"

fun read_chunks :: "string \<Rightarrow> chunk list \<Rightarrow> (body_read_error, string) result" where
  "read_chunks bytes [] = Ok bytes"
| "read_chunks bytes (BrokenBody # cs) = Err Transport"
| "read_chunks bytes (Bytes b # cs) =
     (if MAX_RESPONSE_BYTES < min (length bytes + length b) (2 ^ 64 - 1) then Err TooLarge
      else read_chunks (bytes @ b) cs)"

definition bounded_body :: "http_response \<Rightarrow> (body_read_error, string) result" where
  "bounded_body r =
     (case hr_content_length r of
        Some l \<Rightarrow> if MAX_RESPONSE_BYTES < l then Err TooLarge else read_chunks [] (hr_chunks r)
      | None \<Rightarrow> read_chunks [] (hr_chunks r))"

definition read_mutation_body :: "http_response \<Rightarrow> string \<Rightarrow> (store_error, string) result" where
  "read_mutation_body r operation = map_err (\<lambda>_. indeterminate operation) (bounded_body r)"

section \<open>Keys, timestamps, records\<close>

definition sidecar_decode_key :: "string \<Rightarrow> (store_error, route_key) result" where
  "sidecar_decode_key raw =
     (if \<not> starts_with_char CHR ''/'' raw then Err (corrupt ''snapshot'' ''<route-key>'')
      else
        (let parse_input = (if 1 < length raw \<and> ends_with_char CHR ''/'' raw then raw @ ''/'' else raw)
         in Ok (route_key_parse parse_input)))"

definition chp_timestamp :: "'w sidecar_env \<Rightarrow> timestamp \<Rightarrow> string" where
  "chp_timestamp env value = se_nanos env value"

definition parse_timestamp :: "'w sidecar_env \<Rightarrow> string \<Rightarrow> timestamp option" where
  "parse_timestamp env raw =
     (case se_rfc3339 env raw of
        None \<Rightarrow> None
      | Some parsed \<Rightarrow> if chp_timestamp env parsed = raw then Some parsed else None)"

definition encode_route :: "'w sidecar_env \<Rightarrow> string \<Rightarrow> route_data \<Rightarrow> (store_error, json) result" where
  "encode_route env operation data =
     (if bt_contains ''target'' (extra data) \<or> bt_contains ''last_activity'' (extra data)
      then Err (corrupt operation ''<outgoing>'')
      else
        Ok (JObject
          (bt_insert ''last_activity'' (JString (chp_timestamp env (last_activity data)))
            (bt_insert ''target'' (JString (target data)) (extra data)))))"

fun visit_route ::
  "'w sidecar_env \<Rightarrow> (string \<times> json) list \<Rightarrow> string option \<Rightarrow> timestamp option \<Rightarrow> json_map
   \<Rightarrow> route_data option" where
  "visit_route env [] t a x =
     (case t of
        None \<Rightarrow> None
      | Some t \<Rightarrow>
          (case a of
             None \<Rightarrow> None
           | Some a \<Rightarrow> Some \<lparr>target = t, last_activity = a, extra = x\<rparr>))"
| "visit_route env ((field, v) # ms) t a x =
     (if field = ''target'' then
        (if t \<noteq> None then None
         else (case v of JString s \<Rightarrow> visit_route env ms (Some s) a x | _ \<Rightarrow> None))
      else if field = ''last_activity'' then
        (if a \<noteq> None then None
         else
           (case v of
              JString raw \<Rightarrow>
                (case parse_timestamp env raw of
                   None \<Rightarrow> None
                 | Some at \<Rightarrow> visit_route env ms t (Some at) x)
            | _ \<Rightarrow> None))
      else if bt_contains field x then None
      else visit_route env ms t a (bt_insert field v x))"

fun visit_snapshot ::
  "'w sidecar_env \<Rightarrow> (string \<times> (string \<times> json) list) list \<Rightarrow> (route_key, route_data) btree
   \<Rightarrow> (route_key, route_data) btree option" where
  "visit_snapshot env [] routes = Some routes"
| "visit_snapshot env ((raw_key, ms) # es) routes =
     (case sidecar_decode_key raw_key of
        Err e \<Rightarrow> None
      | Ok key \<Rightarrow>
          (case visit_route env ms None None [] of
             None \<Rightarrow> None
           | Some data \<Rightarrow>
               if bt_contains key routes then None
               else visit_snapshot env es (bt_insert key data routes)))"

definition decode_snapshot ::
  "'w sidecar_env \<Rightarrow> string \<Rightarrow> (store_error, (route_key, route_data) btree) result" where
  "decode_snapshot env body =
     ok_or (corrupt ''snapshot'' ''<response>'')
       (Option.bind (se_entries env body) (\<lambda>es. visit_snapshot env es []))"

definition decode_route :: "'w sidecar_env \<Rightarrow> string \<Rightarrow> route_data option" where
  "decode_route env body =
     Option.bind (se_members env body) (\<lambda>ms. visit_route env ms None None [])"

section \<open>Endpoints\<close>

definition validate_base_url :: "'w sidecar_env \<Rightarrow> string \<Rightarrow> (store_error, url_view) result" where
  "validate_base_url env raw =
     (case se_parse_url env raw of
        None \<Rightarrow> Err (backend ''connect'')
      | Some url \<Rightarrow>
          if url_scheme url \<notin> {''http'', ''https''}
             \<or> url_host url = None
             \<or> url_username url \<noteq> []
             \<or> url_password url \<noteq> None
             \<or> url_query_of url \<noteq> None
             \<or> url_fragment url \<noteq> None
             \<or> url_path_of url \<noteq> ''/''
          then Err (backend ''connect'')
          else Ok (url\<lparr>url_path_of := ''/''\<rparr>))"

definition endpoint :: "'w sidecar_env \<Rightarrow> sidecar_store \<Rightarrow> string \<Rightarrow> (store_error, string) result" where
  "endpoint env st relative = ok_or (backend ''connect'') (se_join env (ss_base_url st) relative)"

definition route_endpoint ::
  "'w sidecar_env \<Rightarrow> sidecar_store \<Rightarrow> route_key \<Rightarrow> string \<Rightarrow> (store_error, string) result" where
  "route_endpoint env st key tail =
     endpoint env st (''v1/routes/'' @ encode_segment (as_str key) @ tail)"

section \<open>Pauses\<close>

definition DURATION_MAX :: nat where
  "DURATION_MAX = (2 ^ 64 - 1) * 1000000000 + 999999999"

definition retry_delay :: "sidecar_store \<Rightarrow> nat \<Rightarrow> nat" where
  "retry_delay st attempt =
     (let multiplier = min (2 ^ attempt) (2 ^ 32 - 1)
      in min (min (ss_initial_backoff st * multiplier) DURATION_MAX) (ss_max_backoff st))"

definition sleep_before_retry :: "sidecar_store \<Rightarrow> nat \<Rightarrow> 'w sidecar \<Rightarrow> 'w sidecar" where
  "sleep_before_retry st attempt s = s\<lparr>sd_pauses := sd_pauses s @ [retry_delay st attempt]\<rparr>"

section \<open>Reading\<close>

definition send ::
  "'w sidecar_env \<Rightarrow> sidecar_store \<Rightarrow> string \<Rightarrow> string \<Rightarrow> string option \<Rightarrow> 'w sidecar
   \<Rightarrow> exchange \<times> 'w sidecar" where
  "send env st verb url body s =
     (let headers = (case body of
                       None \<Rightarrow> ss_headers st
                     | Some _ \<Rightarrow> hm_insert ''content-type'' ''application/json'' (ss_headers st));
          request = \<lparr>hq_method = verb, hq_url = url, hq_headers = headers, hq_body = body\<rparr>
      in (case se_serve env request (sd_world s) of (x, w) \<Rightarrow> (x, s\<lparr>sd_world := w\<rparr>)))"

fun get_loop ::
  "'w sidecar_env \<Rightarrow> sidecar_store \<Rightarrow> string \<Rightarrow> string \<Rightarrow> nat list \<Rightarrow> 'w sidecar
   \<Rightarrow> (store_error, http_reply) result \<times> 'w sidecar" where
  "get_loop env st operation url [] s = (Err (backend operation), s)"
| "get_loop env st operation url (attempt # attempts) s =
     (case send env st ''GET'' url None s of
        (NoReply, s) \<Rightarrow>
          if attempt + 1 < ss_max_attempts st
          then get_loop env st operation url attempts (sleep_before_retry st attempt s)
          else (Err (backend operation), s)
      | (Reply r, s) \<Rightarrow>
          if \<not> headers_within_limits (hr_headers r) \<or> \<not> has_exact_protocol_header (hr_headers r)
          then (Err (backend operation), s)
          else if is_server_error (hr_status r) then
            (if attempt + 1 < ss_max_attempts st
             then get_loop env st operation url attempts (sleep_before_retry st attempt s)
             else (Err (backend operation), s))
          else if hr_status r \<noteq> 200 then
            (Ok \<lparr>reply_status = hr_status r, reply_body = [], reply_last_activity = None\<rparr>, s)
          else if \<not> has_exact_content_type (hr_headers r) ''application/json''
          then (Err (backend operation), s)
          else
            (case bounded_body r of
               Ok body \<Rightarrow>
                 (Ok \<lparr>reply_status = hr_status r, reply_body = body, reply_last_activity = None\<rparr>, s)
             | Err TooLarge \<Rightarrow>
                 if operation = ''snapshot'' then (Err (corrupt ''snapshot'' ''<response>''), s)
                 else (Err (backend operation), s)
             | Err Transport \<Rightarrow>
                 if attempt + 1 < ss_max_attempts st
                 then get_loop env st operation url attempts (sleep_before_retry st attempt s)
                 else (Err (backend operation), s)))"

definition get_request ::
  "'w sidecar_env \<Rightarrow> sidecar_store \<Rightarrow> string \<Rightarrow> string \<Rightarrow> 'w sidecar
   \<Rightarrow> (store_error, http_reply) result \<times> 'w sidecar" where
  "get_request env st operation url s = get_loop env st operation url [0..<ss_max_attempts st] s"

section \<open>Mutating\<close>

text \<open>The answer to a mutation whose status is neither a server error nor a rejection.\<close>

definition empty_acknowledgment :: "http_response \<Rightarrow> bool" where
  "empty_acknowledgment r \<longleftrightarrow>
     \<not> (hm_contains ''content-type'' (hr_headers r)
         \<or> has_nonempty_or_ambiguous_body_framing (hr_headers r))"

definition acknowledge ::
  "'w sidecar_env \<Rightarrow> string \<Rightarrow> acknowledgment \<Rightarrow> http_response \<Rightarrow> (store_error, http_reply) result" where
  "acknowledge env operation ack r =
     and_then
       (if ack = AckPut \<and> hr_status r = 204 then
          (if \<not> empty_acknowledgment r then Err (indeterminate operation)
           else
             and_then (ok_or (indeterminate operation)
                 (Option.bind (single_header (hr_headers r) ''x-store-last-activity'') (parse_timestamp env)))
               (\<lambda>at. and_then (read_mutation_body r operation) (\<lambda>body. Ok (Some at, body))))
        else if ack = AckEmpty \<and> hr_status r = 204 then
          (if \<not> empty_acknowledgment r then Err (indeterminate operation)
           else and_then (read_mutation_body r operation) (\<lambda>body. Ok (None, body)))
        else if ack = AckDelete \<and> hr_status r = 200 then
          (if \<not> has_exact_content_type (hr_headers r) ''application/json'' then Err (indeterminate operation)
           else and_then (read_mutation_body r operation) (\<lambda>body. Ok (None, body)))
        else if ack = AckDelete \<and> hr_status r = 404 then
          (if \<not> empty_acknowledgment r then Err (indeterminate operation)
           else
             and_then (read_mutation_body r operation)
               (\<lambda>body. if body \<noteq> [] then Err (indeterminate operation) else Ok (None, body)))
        else Err (indeterminate operation))
       (\<lambda>(at, body).
          if ack \<in> {AckPut, AckEmpty} \<and> body \<noteq> [] then Err (indeterminate operation)
          else Ok \<lparr>reply_status = hr_status r, reply_body = body, reply_last_activity = at\<rparr>)"

fun mutation_loop ::
  "'w sidecar_env \<Rightarrow> sidecar_store \<Rightarrow> string \<Rightarrow> string \<Rightarrow> string \<Rightarrow> acknowledgment
   \<Rightarrow> ('f \<Rightarrow> (store_error, string option) result \<times> 'f) \<Rightarrow> nat list \<Rightarrow> 'f \<Rightarrow> 'w sidecar
   \<Rightarrow> (store_error, http_reply) result \<times> 'w sidecar" where
  "mutation_loop env st operation verb url ack make_attempt [] f s = (Err (backend operation), s)"
| "mutation_loop env st operation verb url ack make_attempt (attempt # attempts) f s =
     (case make_attempt f of
        (Err e, f) \<Rightarrow> (Err e, s)
      | (Ok body, f) \<Rightarrow>
          if (case body of None \<Rightarrow> False | Some b \<Rightarrow> MAX_MUTATION_REQUEST_BYTES < length b)
          then (Err (backend operation), s)
          else
            (case send env st verb url body s of
               (NoReply, s) \<Rightarrow> (Err (indeterminate operation), s)
             | (Reply r, s) \<Rightarrow>
                 if \<not> headers_within_limits (hr_headers r) \<or> \<not> has_exact_protocol_header (hr_headers r)
                 then (Err (indeterminate operation), s)
                 else if is_server_error (hr_status r) then
                   (if attempt + 1 < ss_max_attempts st
                    then mutation_loop env st operation verb url ack make_attempt attempts f
                           (sleep_before_retry st attempt s)
                    else (Err (backend operation), s))
                 else if is_client_error (hr_status r) \<and> \<not> (ack = AckDelete \<and> hr_status r = 404)
                 then (Err (backend operation), s)
                 else (acknowledge env operation ack r, s)))"

definition mutation_request ::
  "'w sidecar_env \<Rightarrow> sidecar_store \<Rightarrow> string \<Rightarrow> string \<Rightarrow> string \<Rightarrow> acknowledgment
   \<Rightarrow> ('f \<Rightarrow> (store_error, string option) result \<times> 'f) \<Rightarrow> 'f \<Rightarrow> 'w sidecar
   \<Rightarrow> (store_error, http_reply) result \<times> 'w sidecar" where
  "mutation_request env st operation verb url ack make_attempt f s =
     mutation_loop env st operation verb url ack make_attempt [0..<ss_max_attempts st] f s"

definition put_body :: "'w sidecar_env \<Rightarrow> string \<Rightarrow> json \<Rightarrow> timestamp \<Rightarrow> string option" where
  "put_body env protocol_operation route sent_floor =
     se_print env
       (JObject [(''version'', JString ''v1''), (''operation'', JString protocol_operation),
                 (''route'', route), (''activityFloor'', JString (chp_timestamp env sent_floor))])"

text \<open>
  The closure of \<open>put_envelope\<close> keeps the floor it sent last; its state is that floor and the
  number of samples taken from the live floor so far.
\<close>

definition put_attempt ::
  "'w sidecar_env \<Rightarrow> string \<Rightarrow> string \<Rightarrow> json \<Rightarrow> activity_floor option \<Rightarrow> timestamp \<times> nat
   \<Rightarrow> (store_error, string option) result \<times> (timestamp \<times> nat)" where
  "put_attempt env error_operation protocol_operation route fl f =
     (case f of
        (sent_floor, n) \<Rightarrow>
          (let current_floor = Option.bind fl (\<lambda>fl. floor_current fl n);
               sent_floor = (case current_floor of Some at \<Rightarrow> max sent_floor at | None \<Rightarrow> sent_floor)
           in (case put_body env protocol_operation route sent_floor of
                 None \<Rightarrow> (Err (corrupt error_operation ''<outgoing>''), (sent_floor, Suc n))
               | Some body \<Rightarrow> (Ok (Some body), (sent_floor, Suc n)))))"

definition put_envelope ::
  "'w sidecar_env \<Rightarrow> sidecar_store \<Rightarrow> string \<Rightarrow> string \<Rightarrow> route_key \<Rightarrow> route_data \<Rightarrow> activity_floor option
   \<Rightarrow> 'w sidecar \<Rightarrow> (store_error, route_data) result \<times> 'w sidecar" where
  "put_envelope env st error_operation protocol_operation key data fl s =
     (case encode_route env error_operation data of
        Err e \<Rightarrow> (Err e, s)
      | Ok route \<Rightarrow>
          (case route_endpoint env st key [] of
             Err e \<Rightarrow> (Err e, s)
           | Ok url \<Rightarrow>
               (case mutation_request env st error_operation ''PUT'' url AckPut
                       (put_attempt env error_operation protocol_operation route fl)
                       (last_activity data, 0) s of
                  (Err e, s) \<Rightarrow> (Err e, s)
                | (Ok reply, s) \<Rightarrow>
                    (case reply_last_activity reply of
                       None \<Rightarrow> (Err (indeterminate error_operation), s)
                     | Some at \<Rightarrow> (Ok (data\<lparr>last_activity := at\<rparr>), s)))))"

section \<open>The operations of the trait\<close>

definition sidecar_snapshot ::
  "'w sidecar_env \<Rightarrow> sidecar_store \<Rightarrow> 'w sidecar \<Rightarrow> (route_key, route_data) btree call \<times> 'w sidecar" where
  "sidecar_snapshot env st s =
     (case endpoint env st ''v1/routes'' of
        Err e \<Rightarrow> (Ret (Err e), s)
      | Ok url \<Rightarrow>
          (case get_request env st ''snapshot'' url s of
             (Err e, s) \<Rightarrow> (Ret (Err e), s)
           | (Ok reply, s) \<Rightarrow>
               if reply_status reply \<noteq> 200 then (Ret (Err (backend ''snapshot'')), s)
               else (Ret (decode_snapshot env (reply_body reply)), s)))"

definition sidecar_add ::
  "'w sidecar_env \<Rightarrow> sidecar_store \<Rightarrow> timestamp \<Rightarrow> route_key \<Rightarrow> string \<Rightarrow> json_map \<Rightarrow> activity_floor
   \<Rightarrow> 'w sidecar \<Rightarrow> route_data call \<times> 'w sidecar" where
  "sidecar_add env st utc_now key tgt x fl s =
     (case put_envelope env st ''add'' ''add'' key
             \<lparr>target = tgt, last_activity = utc_now, extra = x\<rparr> (Some fl) s of
        (r, s) \<Rightarrow> (Ret r, s))"

definition sidecar_put ::
  "'w sidecar_env \<Rightarrow> sidecar_store \<Rightarrow> route_key \<Rightarrow> route_data \<Rightarrow> 'w sidecar \<Rightarrow> unit call \<times> 'w sidecar" where
  "sidecar_put env st key data s =
     (case put_envelope env st ''put'' ''put'' key data None s of
        (Err e, s) \<Rightarrow> (Ret (Err e), s)
      | (Ok _, s) \<Rightarrow> (Ret (Ok ()), s))"

definition sidecar_put_preserving_activity ::
  "'w sidecar_env \<Rightarrow> sidecar_store \<Rightarrow> route_key \<Rightarrow> route_data \<Rightarrow> activity_floor \<Rightarrow> 'w sidecar
   \<Rightarrow> route_data call \<times> 'w sidecar" where
  "sidecar_put_preserving_activity env st key data fl s =
     (case put_envelope env st ''put'' ''put_preserving_activity'' key data (Some fl) s of
        (r, s) \<Rightarrow> (Ret r, s))"

definition activity_body :: "'w sidecar_env \<Rightarrow> timestamp \<Rightarrow> string option" where
  "activity_body env at =
     se_print env (JObject [(''version'', JString ''v1''), (''lastActivity'', JString (chp_timestamp env at))])"

definition sidecar_update_activity ::
  "'w sidecar_env \<Rightarrow> sidecar_store \<Rightarrow> route_key \<Rightarrow> timestamp \<Rightarrow> 'w sidecar \<Rightarrow> unit call \<times> 'w sidecar" where
  "sidecar_update_activity env st key at s =
     (case activity_body env at of
        None \<Rightarrow> (Ret (Err (corrupt ''update_activity'' ''<outgoing>'')), s)
      | Some body \<Rightarrow>
          (case route_endpoint env st key ''/activity'' of
             Err e \<Rightarrow> (Ret (Err e), s)
           | Ok url \<Rightarrow>
               (case mutation_request env st ''update_activity'' ''PATCH'' url AckEmpty
                       (\<lambda>u. (Ok (Some body), u)) () s of
                  (Err e, s) \<Rightarrow> (Ret (Err e), s)
                | (Ok _, s) \<Rightarrow> (Ret (Ok ()), s))))"

definition sidecar_delete ::
  "'w sidecar_env \<Rightarrow> sidecar_store \<Rightarrow> route_key \<Rightarrow> 'w sidecar \<Rightarrow> route_data option call \<times> 'w sidecar" where
  "sidecar_delete env st key s =
     (case route_endpoint env st key [] of
        Err e \<Rightarrow> (Ret (Err e), s)
      | Ok url \<Rightarrow>
          (case mutation_request env st ''delete'' ''DELETE'' url AckDelete (\<lambda>u. (Ok None, u)) () s of
             (Err e, s) \<Rightarrow> (Ret (Err e), s)
           | (Ok reply, s) \<Rightarrow>
               if reply_status reply = 404 then (Ret (Ok None), s)
               else if reply_status reply = 200 then
                 (case decode_route env (reply_body reply) of
                    None \<Rightarrow> (Ret (Err (indeterminate ''delete'')), s)
                  | Some d \<Rightarrow> (Ret (Ok (Some d)), s))
               else (Ret (Err (indeterminate ''delete'')), s)))"

definition sidecar_ops :: "'w sidecar_env \<Rightarrow> sidecar_store \<Rightarrow> 'w sidecar store_ops" where
  "sidecar_ops env st =
     \<lparr>store_snapshot = sidecar_snapshot env st,
      store_add = sidecar_add env st,
      store_put = sidecar_put env st,
      store_put_preserving_activity = sidecar_put_preserving_activity env st,
      store_update_activity = sidecar_update_activity env st,
      store_delete = sidecar_delete env st\<rparr>"

section \<open>The handshake\<close>

definition health_ok :: "(string \<times> json) list \<Rightarrow> bool" where
  "health_ok ms \<longleftrightarrow>
     distinct (map fst ms) \<and> set (map fst ms) = {''version'', ''status''}
     \<and> map_of ms ''version'' = Some (JString ''v1'') \<and> map_of ms ''status'' = Some (JString ''ok'')"

definition sidecar_connect ::
  "'w sidecar_env \<Rightarrow> sidecar_config \<Rightarrow> 'w sidecar \<Rightarrow> (store_error, sidecar_store) result \<times> 'w sidecar" where
  "sidecar_connect env config s =
     (case validate_base_url env (sc_base_url config) of
        Err e \<Rightarrow> (Err e, s)
      | Ok base_url \<Rightarrow>
          (let headers = hm_insert ''x-store-protocol'' ''v1'' [];
               authorized =
                 (case sc_bearer_token config of
                    None \<Rightarrow> Ok headers
                  | Some token \<Rightarrow>
                      if se_header_value env (''Bearer '' @ token)
                      then Ok (hm_insert ''authorization'' (''Bearer '' @ token) headers)
                      else Err (backend ''connect''))
           in (case authorized of
                 Err e \<Rightarrow> (Err e, s)
               | Ok headers \<Rightarrow>
                   if \<not> se_client env then (Err (backend ''connect''), s)
                   else
                     (let st = \<lparr>ss_headers = headers, ss_base_url = base_url,
                                ss_max_attempts = sc_max_attempts config,
                                ss_initial_backoff = sc_initial_backoff config,
                                ss_max_backoff = sc_max_backoff config\<rparr>
                      in (case endpoint env st ''v1/health'' of
                            Err e \<Rightarrow> (Err e, s)
                          | Ok url \<Rightarrow>
                              (case get_request env st ''connect'' url s of
                                 (Err e, s) \<Rightarrow> (Err e, s)
                               | (Ok reply, s) \<Rightarrow>
                                   if reply_status reply \<noteq> 200 then (Err (backend ''connect''), s)
                                   else
                                     (case se_members env (reply_body reply) of
                                        None \<Rightarrow> (Err (backend ''connect''), s)
                                      | Some ms \<Rightarrow>
                                          if health_ok ms then (Ok st, s)
                                          else (Err (backend ''connect''), s))))))))"

end
