(* ===== verification/Sidecar_Contract.thy ===== *)
theory Sidecar_Contract
  imports Sidecar_Store
begin

text \<open>
  The sidecar client against its contract: the strict decoders accept exactly the documents of a
  route, and what every operation does on top of the published protocol
  (\<open>docs/sidecar-store.md\<close>), which is stated here as a predicate on the sidecar.
\<close>

section \<open>The strict record decoder\<close>

definition clock_ok :: "'w sidecar_env \<Rightarrow> bool" where
  "clock_ok env \<longleftrightarrow> (\<forall>t. se_rfc3339 env (se_nanos env t) = Some t)"

lemma parse_timestamp_iff:
  "clock_ok env \<Longrightarrow> parse_timestamp env raw = Some t \<longleftrightarrow> raw = se_nanos env t"
  by (auto simp: parse_timestamp_def chp_timestamp_def clock_ok_def split: option.splits)

text \<open>
  The members of a JSON object as a map: a list of members without duplicates adds exactly what an
  accumulator does not have yet.
\<close>

definition joined :: "(string \<Rightarrow> json option) \<Rightarrow> (string \<times> json) list \<Rightarrow> (string \<Rightarrow> json option) \<Rightarrow> bool" where
  "joined acc ms D \<longleftrightarrow> distinct (map fst ms) \<and> dom acc \<inter> fst ` set ms = {} \<and> D = acc ++ map_of ms"

lemma joined_Nil: "joined acc [] D \<longleftrightarrow> D = acc"
  by (simp add: joined_def)

lemma joined_value: "joined acc ((n, v) # ms) D \<Longrightarrow> acc n = None \<and> D n = Some v"
  by (auto simp: joined_def)

lemma joined_Cons: "joined acc ((n, v) # ms) D \<longleftrightarrow> acc n = None \<and> joined (acc(n \<mapsto> v)) ms D"
proof -
  have "acc(n \<mapsto> v) ++ map_of ms = (acc ++ map_of ms)(n \<mapsto> v)" if "n \<notin> fst ` set ms"
    using that by (intro map_add_upd_left) (simp add: dom_map_of_conv_image_fst)
  then show ?thesis by (auto simp: joined_def)
qed

definition document :: "'w sidecar_env \<Rightarrow> route_data \<Rightarrow> string \<Rightarrow> json option" where
  "document env d n =
     (if n = ''target'' then Some (JString (target d))
      else if n = ''last_activity'' then Some (JString (se_nanos env (last_activity d)))
      else bt_get n (extra d))"

definition seen ::
  "'w sidecar_env \<Rightarrow> string option \<Rightarrow> timestamp option \<Rightarrow> json_map \<Rightarrow> string \<Rightarrow> json option" where
  "seen env t a x n =
     (if n = ''target'' then map_option JString t
      else if n = ''last_activity'' then map_option (\<lambda>a. JString (se_nanos env a)) a
      else bt_get n x)"

lemma extra_ok_eq:
  assumes "extra_ok x" "extra_ok y"
    and "\<And>n. n \<noteq> ''target'' \<Longrightarrow> n \<noteq> ''last_activity'' \<Longrightarrow> bt_get n x = bt_get n y"
  shows "x = y"
proof (rule bt_ext)
  show "bt_wf x" "bt_wf y" using assms(1,2) by (simp_all add: extra_ok_def)
  show "bt_get n x = bt_get n y" for n
  proof (cases "n = ''target'' \<or> n = ''last_activity''")
    case True
    then show ?thesis using assms(1,2) by (auto simp: extra_ok_def clean_extra_def bt_contains_def)
  next
    case False
    then show ?thesis using assms(3)[of n] by blast
  qed
qed

lemma extra_ok_insert:
  "extra_ok x \<Longrightarrow> n \<noteq> ''target'' \<Longrightarrow> n \<noteq> ''last_activity'' \<Longrightarrow> extra_ok (bt_insert n v x)"
  by (simp add: extra_ok_def clean_extra_def bt_contains_def map_laws wf_intros)

lemma nanos_inj: "clock_ok env \<Longrightarrow> se_nanos env t = se_nanos env u \<longleftrightarrow> t = u"
  unfolding clock_ok_def by (metis option.inject)

lemma document_seen:
  assumes "clock_ok env" "extra_ok x" "extra_ok (extra d)"
  shows "document env d = seen env t a x \<longleftrightarrow> t = Some (target d) \<and> a = Some (last_activity d) \<and> extra d = x"
proof
  assume eq: "document env d = seen env t a x"
  have "t = Some (target d)"
    using fun_cong[OF eq, of "''target''"] by (cases t) (simp_all add: document_def seen_def)
  moreover have "a = Some (last_activity d)"
    using fun_cong[OF eq, of "''last_activity''"]
    by (cases a) (simp_all add: document_def seen_def nanos_inj[OF assms(1)])
  moreover have "extra d = x"
  proof (rule extra_ok_eq[OF assms(3,2)])
    show "bt_get n (extra d) = bt_get n x" if "n \<noteq> ''target''" "n \<noteq> ''last_activity''" for n
      using fun_cong[OF eq, of n] that by (simp add: document_def seen_def)
  qed
  ultimately show "t = Some (target d) \<and> a = Some (last_activity d) \<and> extra d = x" by blast
qed (simp add: document_def seen_def fun_eq_iff)

lemma seen_upd:
  "(seen env None a x)(''target'' \<mapsto> JString s) = seen env (Some s) a x"
  "(seen env t None x)(''last_activity'' \<mapsto> JString (se_nanos env at)) = seen env t (Some at) x"
  "n \<noteq> ''target'' \<Longrightarrow> n \<noteq> ''last_activity'' \<Longrightarrow> (seen env t a x)(n \<mapsto> v) = seen env t a (bt_insert n v x)"
  by (auto simp: seen_def fun_eq_iff map_laws)

lemma seen_at:
  "seen env t a x ''target'' = map_option JString t"
  "seen env t a x ''last_activity'' = map_option (\<lambda>a. JString (se_nanos env a)) a"
  "n \<noteq> ''target'' \<Longrightarrow> n \<noteq> ''last_activity'' \<Longrightarrow> seen env t a x n = bt_get n x"
  by (simp_all add: seen_def)

lemma joined_activity:
  assumes "clock_ok env" "joined (seen env t (Some at) x) ms (document env d)"
  shows "last_activity d = at"
proof -
  have "''last_activity'' \<in> dom (seen env t (Some at) x)" by (simp add: dom_def seen_at)
  then have "''last_activity'' \<notin> fst ` set ms" using assms(2) unfolding joined_def by blast
  then have "map_of ms ''last_activity'' = None" by (simp add: map_of_eq_None_iff)
  then have "document env d ''last_activity'' = seen env t (Some at) x ''last_activity''"
    using assms(2) by (simp add: joined_def map_add_def)
  then show ?thesis by (simp add: document_def seen_at nanos_inj[OF assms(1)])
qed

text \<open>The loop of the visitor accepts exactly the members of a route, each once, in any order.\<close>

lemma visit_route_iff:
  assumes "clock_ok env"
  shows "extra_ok x \<Longrightarrow> visit_route env ms t a x = Some d \<longleftrightarrow>
    extra_ok (extra d) \<and> joined (seen env t a x) ms (document env d)"
proof (induction ms arbitrary: t a x)
  case Nil
  then show ?case
    using document_seen[OF assms Nil, of d t a] by (cases d) (auto simp: joined_Nil split: option.splits)
next
  case (Cons m ms)
  obtain n v where m: "m = (n, v)" by (rule prod.exhaust)
  let ?J = "joined (seen env t a x) (m # ms) (document env d)"
  consider "n = ''target''" | "n = ''last_activity''" | "n \<noteq> ''target''" "n \<noteq> ''last_activity''" by blast
  then show ?case
  proof cases
    case 1
    have "t = None \<and> v = JString (target d)" if ?J
      using joined_value[OF that[unfolded m 1]] by (simp add: seen_at document_def)
    then show ?thesis using 1 m Cons.IH[OF Cons.prems, of "Some (target d)" a]
      by (cases t; cases v) (auto simp: joined_Cons seen_at seen_upd Cons.IH[OF Cons.prems])
  next
    case 2
    have "a = None \<and> v = JString (se_nanos env (last_activity d))" if ?J
      using joined_value[OF that[unfolded m 2]] by (simp add: seen_at document_def)
    then have J: "?J \<longleftrightarrow> a = None \<and> v = JString (se_nanos env (last_activity d))
        \<and> joined (seen env t (Some (last_activity d)) x) ms (document env d)"
      using m 2 by (auto simp: joined_Cons seen_at seen_upd)
    show ?thesis
    proof (cases "a = None \<and> (\<exists>at. v = JString (se_nanos env at))")
      case True
      then obtain at where at: "a = None" "v = JString (se_nanos env at)" by blast
      have "parse_timestamp env (se_nanos env at) = Some at" by (simp add: parse_timestamp_iff[OF assms])
      then have "visit_route env (m # ms) t a x = visit_route env ms t (Some at) x" using m 2 at by simp
      then have "visit_route env (m # ms) t a x = Some d \<longleftrightarrow>
          extra_ok (extra d) \<and> joined (seen env t (Some at) x) ms (document env d)"
        using Cons.IH[OF Cons.prems, of t "Some at"] by simp
      then show ?thesis unfolding J using at nanos_inj[OF assms] joined_activity[OF assms] by auto
    next
      case False
      then have "visit_route env (m # ms) t a x = None"
        using m 2 parse_timestamp_iff[OF assms] by (cases v) (auto split: option.splits)
      then show ?thesis unfolding J using False by auto
    qed
  next
    case 3
    then show ?thesis using Cons.IH[OF extra_ok_insert[OF Cons.prems 3]] m
      by (auto simp: joined_Cons seen_at seen_upd bt_contains_def)
  qed
qed

text \<open>The members of a JSON object, in any order, are those of a route.\<close>

definition describes :: "'w sidecar_env \<Rightarrow> route_data \<Rightarrow> (string \<times> json) list \<Rightarrow> bool" where
  "describes env d ms \<longleftrightarrow> distinct (map fst ms) \<and> map_of ms = document env d"

lemma seen_empty: "seen env None None [] = Map.empty"
  by (simp add: seen_def fun_eq_iff)

lemma decode_members:
  assumes "clock_ok env"
  shows "visit_route env ms None None [] = Some d \<longleftrightarrow> extra_ok (extra d) \<and> describes env d ms"
proof -
  have "joined Map.empty ms (document env d) \<longleftrightarrow> describes env d ms"
    by (auto simp: joined_def describes_def)
  moreover have "extra_ok []" by (simp add: extra_ok_def clean_extra_def bt_contains_def)
  ultimately show ?thesis using visit_route_iff[OF assms] by (simp add: seen_empty)
qed

lemma encode_route_describes:
  assumes "extra_ok (extra d)" "encode_route env op d = Ok j"
  obtains ms where "j = JObject ms" "describes env d ms"
proof -
  let ?ms = "bt_insert ''last_activity'' (JString (chp_timestamp env (last_activity d)))
      (bt_insert ''target'' (JString (target d)) (extra d))"
  have "bt_wf ?ms" using assms(1) by (intro wf_intros) (simp add: extra_ok_def)
  then have "distinct (map fst ?ms)" using bt_wf_distinct unfolding bt_keys_def by blast
  moreover have "map_of ?ms n = document env d n" for n
    unfolding bt_get_def[symmetric] document_def chp_timestamp_def by (simp add: map_laws)
  ultimately show thesis
    using assms(2) by (intro that[of ?ms]) (auto simp: encode_route_def describes_def split: if_splits)
qed

section \<open>The strict snapshot decoder\<close>

lemma sidecar_decode_key_exact:
  assumes "starts_with_char CHR ''/'' f"
  shows "sidecar_decode_key f = Ok (RouteKey f)"
proof (cases "1 < length f \<and> ends_with_char CHR ''/'' f")
  case True
  then show ?thesis using assms normalize_extra_slash[of "RouteKey f"]
    by (simp add: sidecar_decode_key_def route_key_parse_def key_wf_def)
next
  case False
  then show ?thesis using assms normalize_fixed[of "RouteKey f"]
    by (auto simp: sidecar_decode_key_def route_key_parse_def key_wf_def)
qed

definition snapshot_document ::
  "'w sidecar_env \<Rightarrow> (route_key \<Rightarrow> route_data option) \<Rightarrow> (string \<times> (string \<times> json) list) list \<Rightarrow> bool" where
  "snapshot_document env rs es \<longleftrightarrow> distinct (map fst es)
     \<and> (\<forall>f. rs (RouteKey f) = None \<longleftrightarrow> f \<notin> fst ` set es)
     \<and> (\<forall>f ms. (f, ms) \<in> set es \<longrightarrow> (\<exists>d. rs (RouteKey f) = Some d \<and> describes env d ms))"

definition routes_ok :: "(route_key \<Rightarrow> route_data option) \<Rightarrow> bool" where
  "routes_ok rs \<longleftrightarrow> (\<forall>k d. rs k = Some d \<longrightarrow> key_wf k \<and> extra_ok (extra d))"

lemma visit_snapshot_reads:
  assumes "clock_ok env" "routes_ok rs"
  shows "distinct (map fst es) \<Longrightarrow> (\<And>f ms. (f, ms) \<in> set es \<Longrightarrow> \<exists>d. rs (RouteKey f) = Some d \<and> describes env d ms) \<Longrightarrow>
    bt_wf acc \<Longrightarrow> (\<And>f. f \<in> fst ` set es \<Longrightarrow> bt_get (RouteKey f) acc = None) \<Longrightarrow>
    \<exists>m. visit_snapshot env es acc = Some m \<and> bt_wf m
      \<and> (\<forall>f. bt_get (RouteKey f) m = (if f \<in> fst ` set es then rs (RouteKey f) else bt_get (RouteKey f) acc))"
proof (induction es arbitrary: acc)
  case (Cons e es)
  obtain f ms where e: "e = (f, ms)" by (rule prod.exhaust)
  obtain d where d: "rs (RouteKey f) = Some d" "describes env d ms" using Cons.prems(2)[of f ms] e by auto
  have ok: "starts_with_char CHR ''/'' f" "extra_ok (extra d)"
    using assms(2) d(1) unfolding routes_ok_def key_wf_def by force+
  have rec: "visit_route env ms None None [] = Some d" using decode_members[OF assms(1)] d(2) ok(2) by blast
  have fresh: "bt_get (RouteKey f) acc = None" using Cons.prems(4)[of f] e by simp
  let ?acc = "bt_insert (RouteKey f) d acc"
  have "\<exists>m. visit_snapshot env es ?acc = Some m \<and> bt_wf m
      \<and> (\<forall>g. bt_get (RouteKey g) m = (if g \<in> fst ` set es then rs (RouteKey g) else bt_get (RouteKey g) ?acc))"
  proof (rule Cons.IH)
    show "distinct (map fst es)" using Cons.prems(1) by simp
    show "\<exists>d. rs (RouteKey g) = Some d \<and> describes env d ms'" if "(g, ms') \<in> set es" for g ms'
      using Cons.prems(2)[of g ms'] that by simp
    show "bt_wf ?acc" using Cons.prems(3) by (rule wf_intros)
    show "bt_get (RouteKey g) ?acc = None" if "g \<in> fst ` set es" for g
      using Cons.prems(1) Cons.prems(4)[of g] that e by (auto simp: map_laws)
  qed
  then obtain m where m: "visit_snapshot env es ?acc = Some m" "bt_wf m"
    "\<And>g. bt_get (RouteKey g) m = (if g \<in> fst ` set es then rs (RouteKey g) else bt_get (RouteKey g) ?acc)"
    by blast
  have "visit_snapshot env (e # es) acc = Some m"
    using e rec fresh sidecar_decode_key_exact[OF ok(1)] m(1) by (simp add: bt_contains_def)
  moreover have "bt_get (RouteKey g) m = (if g \<in> fst ` set (e # es) then rs (RouteKey g) else bt_get (RouteKey g) acc)" for g
    unfolding m(3) using d(1) e by (simp add: map_laws)
  ultimately show ?case using m(2) by blast
qed simp

lemma decode_snapshot_document:
  assumes "clock_ok env" "routes_ok rs" "snapshot_document env rs es" "se_entries env body = Some es"
  obtains m where "decode_snapshot env body = Ok m" "bt_wf m" "\<And>k. bt_get k m = rs k"
proof -
  obtain m where m: "visit_snapshot env es [] = Some m" "bt_wf m"
    "\<forall>f. bt_get (RouteKey f) m = (if f \<in> fst ` set es then rs (RouteKey f) else None)"
    using visit_snapshot_reads[OF assms(1,2), of es "[]"] assms(3)
    by (auto simp: snapshot_document_def)
  have "bt_get k m = rs k" for k
  proof (cases k)
    case (RouteKey f)
    have "rs (RouteKey f) = None \<longleftrightarrow> f \<notin> fst ` set es"
      using assms(3) unfolding snapshot_document_def by blast
    then show ?thesis using m(3) RouteKey by (cases "rs (RouteKey f)") simp_all
  qed
  then show thesis using m assms(4) by (intro that[of m]) (simp_all add: decode_snapshot_def)
qed

section \<open>The published protocol\<close>

text \<open>
  What \<open>docs/sidecar-store.md\<close> requires of a sidecar, for the requests that the client sends:
  reading changes nothing and a complete snapshot reply holds every route; a mutation answered
  with a server error, or rejected, did not commit; an acknowledged \<open>PUT\<close> committed the record
  with the greatest of the candidate, the floor sent and the stored activity, and names that
  activity in its header; an acknowledged \<open>PATCH\<close> changed only the activity; a deletion is
  atomic and returns the record it removed.
\<close>

definition wire :: "sidecar_store \<Rightarrow> string \<Rightarrow> string \<Rightarrow> string option \<Rightarrow> http_request" where
  "wire st verb url body =
     \<lparr>hq_method = verb, hq_url = url,
      hq_headers = (case body of None \<Rightarrow> ss_headers st
                    | Some _ \<Rightarrow> hm_insert ''content-type'' ''application/json'' (ss_headers st)),
      hq_body = body\<rparr>"

lemma wire_method [simp]: "hq_method (wire st verb url body) = verb"
  by (simp add: wire_def)

definition rejected :: "http_request \<Rightarrow> http_response \<Rightarrow> bool" where
  "rejected rq r \<longleftrightarrow> is_server_error (hr_status r)
     \<or> is_client_error (hr_status r) \<and> \<not> (hq_method rq = ''DELETE'' \<and> hr_status r = 404)"

definition selected_activity :: "route_data \<Rightarrow> timestamp \<Rightarrow> route_data option \<Rightarrow> timestamp" where
  "selected_activity d fl old =
     max (max (last_activity d) fl) (case old of None \<Rightarrow> last_activity d | Some e \<Rightarrow> last_activity e)"

definition reads_ok :: "'w sidecar_env \<Rightarrow> sidecar_store \<Rightarrow> ('w \<Rightarrow> route_key \<Rightarrow> route_data option) \<Rightarrow> bool" where
  "reads_ok env st routes \<longleftrightarrow>
     (\<forall>url w x w'. se_serve env (wire st ''GET'' url None) w = (x, w') \<longrightarrow> routes w' = routes w
        \<and> (\<forall>r body. endpoint env st ''v1/routes'' = Ok url \<and> x = Reply r \<and> hr_status r = 200
             \<and> bounded_body r = Ok body \<longrightarrow>
             (\<exists>es. se_entries env body = Some es \<and> snapshot_document env (routes w) es)))"

definition rejections_ok :: "'w sidecar_env \<Rightarrow> ('w \<Rightarrow> route_key \<Rightarrow> route_data option) \<Rightarrow> bool" where
  "rejections_ok env routes \<longleftrightarrow>
     (\<forall>rq w r w'. se_serve env rq w = (Reply r, w') \<and> rejected rq r \<longrightarrow> routes w' = routes w)"

definition put_protocol :: "'w sidecar_env \<Rightarrow> sidecar_store \<Rightarrow> ('w \<Rightarrow> route_key \<Rightarrow> route_data option) \<Rightarrow> bool" where
  "put_protocol env st routes \<longleftrightarrow>
     (\<forall>k d e op j fl url body w r w'.
        key_wf k \<and> extra_ok (extra d) \<and> op \<in> {''add'', ''put_preserving_activity''}
        \<and> route_endpoint env st k [] = Ok url \<and> encode_route env e d = Ok j
        \<and> put_body env op j fl = Some body
        \<and> se_serve env (wire st ''PUT'' url (Some body)) w = (Reply r, w') \<and> hr_status r = 204 \<longrightarrow>
        (let at = selected_activity d fl (routes w k)
         in routes w' = (routes w)(k \<mapsto> touch at d)
            \<and> hm_get_all ''x-store-last-activity'' (hr_headers r) = [se_nanos env at]))"

definition patch_protocol :: "'w sidecar_env \<Rightarrow> sidecar_store \<Rightarrow> ('w \<Rightarrow> route_key \<Rightarrow> route_data option) \<Rightarrow> bool" where
  "patch_protocol env st routes \<longleftrightarrow>
     (\<forall>k at url body w r w'.
        key_wf k \<and> route_endpoint env st k ''/activity'' = Ok url \<and> activity_body env at = Some body
        \<and> se_serve env (wire st ''PATCH'' url (Some body)) w = (Reply r, w') \<and> hr_status r = 204 \<longrightarrow>
        routes w' = (routes w)(k := map_option (touch at) (routes w k)))"

definition delete_protocol :: "'w sidecar_env \<Rightarrow> sidecar_store \<Rightarrow> ('w \<Rightarrow> route_key \<Rightarrow> route_data option) \<Rightarrow> bool" where
  "delete_protocol env st routes \<longleftrightarrow>
     (\<forall>k url w r w'.
        key_wf k \<and> route_endpoint env st k [] = Ok url
        \<and> se_serve env (wire st ''DELETE'' url None) w = (Reply r, w') \<longrightarrow>
        (hr_status r = 404 \<longrightarrow> routes w k = None \<and> routes w' = routes w)
        \<and> (hr_status r = 200 \<longrightarrow>
             (\<exists>d. routes w k = Some d \<and> routes w' = (routes w)(k := None)
                \<and> (\<forall>body. bounded_body r = Ok body \<longrightarrow>
                     (\<exists>ms. se_members env body = Some ms \<and> describes env d ms)))))"

definition protocol_ok :: "'w sidecar_env \<Rightarrow> sidecar_store \<Rightarrow> ('w \<Rightarrow> route_key \<Rightarrow> route_data option) \<Rightarrow> bool" where
  "protocol_ok env st routes \<longleftrightarrow> clock_ok env \<and> reads_ok env st routes \<and> rejections_ok env routes
     \<and> put_protocol env st routes \<and> patch_protocol env st routes \<and> delete_protocol env st routes"

section \<open>The loops\<close>

lemma send_wire:
  "send env st verb url body s =
     (fst (se_serve env (wire st verb url body) (sd_world s)),
      s\<lparr>sd_world := snd (se_serve env (wire st verb url body) (sd_world s))\<rparr>)"
  by (simp add: send_def wire_def Let_def split: prod.split)

lemma sleep_world [simp]: "sd_world (sleep_before_retry st n s) = sd_world s"
  by (simp add: sleep_before_retry_def)

lemma get_loop_reads:
  assumes "reads_ok env st routes"
  shows "get_loop env st op url as s = (r, s') \<Longrightarrow> routes (sd_world s') = routes (sd_world s)
    \<and> (\<forall>reply. r = Ok reply \<and> reply_status reply = 200 \<longrightarrow>
        (\<exists>x w w'. routes w = routes (sd_world s) \<and> se_serve env (wire st ''GET'' url None) w = (Reply x, w')
           \<and> hr_status x = 200 \<and> bounded_body x = Ok (reply_body reply)))"
proof (induction as arbitrary: s)
  case (Cons a as)
  obtain x w' where x: "se_serve env (wire st ''GET'' url None) (sd_world s) = (x, w')" by (rule prod.exhaust)
  have keep: "routes w' = routes (sd_world s)" using assms x unfolding reads_ok_def by blast
  let ?s1 = "s\<lparr>sd_world := w'\<rparr>"
  have again: ?case if "get_loop env st op url as (sleep_before_retry st a ?s1) = (r, s')"
    using Cons.IH[OF that] keep by simp
  have "get_loop env st op url as (sleep_before_retry st a ?s1) = (r, s')
    \<or> s' = ?s1 \<and> ((\<exists>e. r = Err e) \<or> (\<exists>y reply. x = Reply y \<and> r = Ok reply \<and> reply_status reply = hr_status y
        \<and> (hr_status y = 200 \<longrightarrow> bounded_body y = Ok (reply_body reply))))"
    using Cons.prems
    by (auto simp: send_wire x split: exchange.splits if_splits result.splits body_read_error.splits)
  then show ?case
  proof (elim disjE conjE exE)
    fix y reply
    assume y: "s' = ?s1" "x = Reply y" "r = Ok reply" "reply_status reply = hr_status y"
      "hr_status y = 200 \<longrightarrow> bounded_body y = Ok (reply_body reply)"
    then have "se_serve env (wire st ''GET'' url None) (sd_world s) = (Reply y, w')" using x by simp
    then show ?thesis using y keep by (intro conjI allI impI) (simp_all, blast)
  qed (use again keep in simp_all)
qed auto

lemma acknowledge_Err: "acknowledge env op ack r = Err e \<Longrightarrow> \<not> ordinary e"
proof -
  have body: "read_mutation_body r op = Err e \<Longrightarrow> e = indeterminate op" for e
    by (cases "bounded_body r") (simp_all add: read_mutation_body_def)
  assume "acknowledge env op ack r = Err e"
  then have "e = indeterminate op"
    unfolding acknowledge_def ok_or_def
    by (auto simp: and_then_eq_Err dest: body split: if_splits option.splits)
  then show ?thesis by simp
qed

lemma mutation_loop_cases:
  assumes "rejections_ok env routes" "ack = AckDelete \<longleftrightarrow> verb = ''DELETE''"
  shows "mutation_loop env st op verb url ack mk as f s = (r, s') \<Longrightarrow>
    (case r of
       Err e \<Rightarrow> ordinary e \<longrightarrow> routes (sd_world s') = routes (sd_world s)
     | Ok reply \<Rightarrow> \<exists>f body f' w x. mk f = (Ok body, f') \<and> routes w = routes (sd_world s)
         \<and> se_serve env (wire st verb url body) w = (Reply x, sd_world s')
         \<and> acknowledge env op ack x = Ok reply)"
proof (induction as arbitrary: f s)
  case (Cons a as)
  obtain b f' where b: "mk f = (b, f')" by (rule prod.exhaust)
  show ?case
  proof (cases b)
    case (Err e)
    then have "r = Err e" "s' = s" using Cons.prems b by simp_all
    then show ?thesis by simp
  next
    case (Ok body)
    obtain x w' where x: "se_serve env (wire st verb url body) (sd_world s) = (x, w')" by (rule prod.exhaust)
    let ?s1 = "s\<lparr>sd_world := w'\<rparr>"
    have keep: "routes w' = routes (sd_world s)" if "x = Reply y" "rejected (wire st verb url body) y" for y
      using assms(1) x that unfolding rejections_ok_def by blast
    have "mutation_loop env st op verb url ack mk as f' (sleep_before_retry st a ?s1) = (r, s')
          \<and> (\<exists>y. x = Reply y \<and> is_server_error (hr_status y))
      \<or> s' = s \<and> (\<exists>e. r = Err e) \<or> s' = ?s1 \<and> r = Err (indeterminate op)
      \<or> s' = ?s1 \<and> r = Err (backend op) \<and> (\<exists>y. x = Reply y \<and> rejected (wire st verb url body) y)
      \<or> s' = ?s1 \<and> (\<exists>y. x = Reply y \<and> r = acknowledge env op ack y)"
      using Cons.prems b Ok assms(2)
      by (auto simp: send_wire x rejected_def split: exchange.splits if_splits)
    then show ?thesis
    proof (elim disjE conjE exE)
      fix y
      assume l: "mutation_loop env st op verb url ack mk as f' (sleep_before_retry st a ?s1) = (r, s')"
        and y: "x = Reply y" "is_server_error (hr_status y)"
      have "routes (sd_world (sleep_before_retry st a ?s1)) = routes (sd_world s)"
        using keep[OF y(1)] y(2) by (simp add: rejected_def)
      from Cons.IH[OF l, unfolded this] show ?thesis .
    next
      fix y
      assume y: "s' = ?s1" "x = Reply y" "r = acknowledge env op ack y"
      show ?thesis
      proof (cases r)
        case reply: (Ok reply)
        have "mk f = (Ok body, f')" "se_serve env (wire st verb url body) (sd_world s) = (Reply y, sd_world s')"
          "acknowledge env op ack y = Ok reply"
          using b Ok x y reply by simp_all
        then show ?thesis unfolding reply result.case by blast
      qed (use y acknowledge_Err[of env op ack y] in auto)
    qed (use keep in \<open>simp_all\<close>)
  qed
qed auto

section \<open>The operations\<close>

definition sidecar_routes :: "('w \<Rightarrow> route_key \<Rightarrow> route_data option) \<Rightarrow> 'w sidecar \<Rightarrow> route_key \<Rightarrow> route_data option" where
  "sidecar_routes routes s = routes (sd_world s)"

definition sidecar_ready :: "('w \<Rightarrow> route_key \<Rightarrow> route_data option) \<Rightarrow> 'w sidecar \<Rightarrow> bool" where
  "sidecar_ready routes s \<longleftrightarrow> routes_ok (sidecar_routes routes s)"

lemma routes_ok_upd: "routes_ok rs \<Longrightarrow> key_wf k \<Longrightarrow> extra_ok (extra d) \<Longrightarrow> routes_ok (rs(k \<mapsto> d))"
  by (simp add: routes_ok_def)

lemma routes_ok_remove: "routes_ok rs \<Longrightarrow> routes_ok (rs(k := None))"
  by (simp add: routes_ok_def)

lemma routes_ok_touch: "routes_ok rs \<Longrightarrow> routes_ok (rs(k := map_option (touch at) (rs k)))"
  by (auto simp: routes_ok_def)

lemma acknowledge_put:
  assumes "acknowledge env op AckPut x = Ok reply" "clock_ok env"
    and "hr_status x = 204 \<Longrightarrow> hm_get_all ''x-store-last-activity'' (hr_headers x) = [se_nanos env at]"
  shows "hr_status x = 204 \<and> reply_last_activity reply = Some at"
proof -
  have 204: "hr_status x = 204" using assms(1) by (simp add: acknowledge_def split: if_splits)
  have "single_header (hr_headers x) ''x-store-last-activity'' = Some v \<Longrightarrow> v = se_nanos env at" for v
    using assms(3)[OF 204] by (auto simp: single_header_def header_to_str_def split: if_splits)
  then show ?thesis using assms(1) 204 parse_timestamp_iff[OF assms(2)] nanos_inj[OF assms(2)]
    by (auto simp: acknowledge_def ok_or_def split: if_splits option.splits Option.bind_splits)
qed

lemma put_attempt_Ok:
  assumes "put_attempt env eop op j (Some fl) f = (Ok body, f')"
  obtains b sent where "body = Some b" "put_body env op j sent = Some b"
    "\<exists>n. \<forall>t. fl n = Some t \<longrightarrow> t \<le> sent"
proof -
  obtain last n where f: "f = (last, n)" by (rule prod.exhaust)
  let ?sent = "case floor_current fl n of Some at \<Rightarrow> max last at | None \<Rightarrow> last"
  obtain b where b: "put_body env op j ?sent = Some b" "body = Some b"
    using assms f by (auto simp: put_attempt_def Let_def split: option.splits)
  have "\<forall>t. fl n = Some t \<longrightarrow> t \<le> ?sent" by (simp add: floor_current_def)
  then show thesis using that[OF b(2,1)] by blast
qed

definition put_done ::
  "('w \<Rightarrow> route_key \<Rightarrow> route_data option) \<Rightarrow> route_key \<Rightarrow> route_data \<Rightarrow> activity_floor \<Rightarrow> 'w sidecar
   \<Rightarrow> route_data \<Rightarrow> 'w sidecar \<Rightarrow> bool" where
  "put_done routes k data fl s d s' \<longleftrightarrow>
     sidecar_routes routes s' = (sidecar_routes routes s)(k \<mapsto> d) \<and> target d = target data \<and> extra d = extra data
     \<and> (\<exists>n. \<forall>t. fl n = Some t \<longrightarrow> t \<le> last_activity d)"

lemma put_protocolD:
  assumes "protocol_ok env st routes" "key_wf k" "extra_ok (extra d)" "op \<in> {''add'', ''put_preserving_activity''}"
    and "route_endpoint env st k [] = Ok url" "encode_route env e d = Ok j" "put_body env op j fl = Some body"
    and "se_serve env (wire st ''PUT'' url (Some body)) w = (Reply r, w')"
  shows "hr_status r = 204 \<Longrightarrow> routes w' = (routes w)(k \<mapsto> touch (selected_activity d fl (routes w k)) d)"
    and "hr_status r = 204 \<Longrightarrow>
      hm_get_all ''x-store-last-activity'' (hr_headers r) = [se_nanos env (selected_activity d fl (routes w k))]"
proof -
  have "put_protocol env st routes" using assms(1) by (simp add: protocol_ok_def)
  note p = this[unfolded put_protocol_def, rule_format, of k d op url e j fl body w r w', unfolded Let_def]
  show "hr_status r = 204 \<Longrightarrow> routes w' = (routes w)(k \<mapsto> touch (selected_activity d fl (routes w k)) d)"
    "hr_status r = 204 \<Longrightarrow>
      hm_get_all ''x-store-last-activity'' (hr_headers r) = [se_nanos env (selected_activity d fl (routes w k))]"
    using p assms(2-) by blast+
qed

lemma put_envelope_Ok:
  assumes "protocol_ok env st routes" "key_wf k" "extra_ok (extra data)" "op \<in> {''add'', ''put_preserving_activity''}"
    and "put_envelope env st eop op k data (Some fl) s = (Ok d, s')"
  shows "put_done routes k data fl s d s'"
proof -
  obtain j url reply at where j: "encode_route env eop data = Ok j" "route_endpoint env st k [] = Ok url"
    and m: "mutation_request env st eop ''PUT'' url AckPut (put_attempt env eop op j (Some fl)) (last_activity data, 0) s
      = (Ok reply, s')" and at: "reply_last_activity reply = Some at" "d = data\<lparr>last_activity := at\<rparr>"
    using assms(5) by (auto simp: put_envelope_def split: result.splits prod.splits option.splits)
  have rej: "rejections_ok env routes" "AckPut = AckDelete \<longleftrightarrow> ''PUT'' = ''DELETE''"
    using assms(1) by (simp_all add: protocol_ok_def)
  from mutation_loop_cases[OF rej m[unfolded mutation_request_def], unfolded result.case]
  obtain f body f' w x where x: "put_attempt env eop op j (Some fl) f = (Ok body, f')" "routes w = routes (sd_world s)"
      "se_serve env (wire st ''PUT'' url body) w = (Reply x, sd_world s')" "acknowledge env eop AckPut x = Ok reply"
    by blast
  obtain b sent where b: "body = Some b" "put_body env op j sent = Some b"
    and fl: "\<exists>n. \<forall>t. fl n = Some t \<longrightarrow> t \<le> sent" by (rule put_attempt_Ok[OF x(1)])
  let ?at = "selected_activity data sent (routes w k)"
  note p = put_protocolD[OF assms(1-4) j(2,1) b(2) x(3)[unfolded b(1)]]
  have ack: "hr_status x = 204 \<and> reply_last_activity reply = Some ?at"
    using acknowledge_put[OF x(4) _ p(2)] assms(1) by (simp add: protocol_ok_def)
  then have d: "d = touch ?at data" using at by (simp add: touch_def)
  obtain n where n: "\<forall>t. fl n = Some t \<longrightarrow> t \<le> sent" using fl by blast
  have "sent \<le> ?at" by (simp add: selected_activity_def)
  then have "\<forall>t. fl n = Some t \<longrightarrow> t \<le> last_activity d" using n d by fastforce
  then show ?thesis using p(1) ack x(2) unfolding put_done_def sidecar_routes_def d by auto
qed

lemma put_envelope_Err:
  assumes "protocol_ok env st routes" "put_envelope env st eop op k data fl s = (Err e, s')" "ordinary e"
  shows "sidecar_routes routes s' = sidecar_routes routes s"
proof (cases "encode_route env eop data")
  case j: (Ok j)
  show ?thesis
  proof (cases "route_endpoint env st k []")
    case url: (Ok url)
    obtain r t where m: "mutation_request env st eop ''PUT'' url AckPut (put_attempt env eop op j fl) (last_activity data, 0) s
      = (r, t)" by (rule prod.exhaust)
    from mutation_loop_cases[OF _ _ m[unfolded mutation_request_def], of routes]
    show ?thesis using assms j url m
      by (auto simp: protocol_ok_def put_envelope_def sidecar_routes_def split: result.splits option.splits)
  qed (use assms j in \<open>auto simp: put_envelope_def\<close>)
qed (use assms in \<open>auto simp: put_envelope_def\<close>)

lemma snapshot_reads:
  assumes "protocol_ok env st routes" "sidecar_ready routes s" "sidecar_snapshot env st s = (Ret (Ok m), s')"
  shows "bt_wf m \<and> (\<forall>k. bt_get k m = sidecar_routes routes s k)
    \<and> sidecar_routes routes s' = sidecar_routes routes s"
proof -
  obtain url reply where url: "endpoint env st ''v1/routes'' = Ok url"
    and g: "get_request env st ''snapshot'' url s = (Ok reply, s')" "reply_status reply = 200"
      "decode_snapshot env (reply_body reply) = Ok m"
    using assms(3) by (auto simp: sidecar_snapshot_def split: result.splits prod.splits if_splits)
  have reads: "reads_ok env st routes" and clock: "clock_ok env" using assms(1) by (simp_all add: protocol_ok_def)
  from get_loop_reads[OF reads g(1)[unfolded get_request_def]] g(2)
  obtain x w w' where same: "routes (sd_world s') = routes (sd_world s)" "routes w = routes (sd_world s)"
    and x: "se_serve env (wire st ''GET'' url None) w = (Reply x, w')" "hr_status x = 200"
      "bounded_body x = Ok (reply_body reply)" by blast
  obtain es where "se_entries env (reply_body reply) = Some es" "snapshot_document env (routes w) es"
    using reads x url unfolding reads_ok_def by blast
  then obtain m' where "decode_snapshot env (reply_body reply) = Ok m'" "bt_wf m'" "\<And>k. bt_get k m' = routes w k"
    using decode_snapshot_document[OF clock, of "routes w" es] assms(2) same
    by (auto simp: sidecar_ready_def sidecar_routes_def)
  then show ?thesis using g(3) same by (simp add: sidecar_routes_def)
qed

lemma acknowledge_empty: "acknowledge env op AckEmpty x = Ok reply \<Longrightarrow> hr_status x = 204"
  by (simp add: acknowledge_def split: if_splits)

lemma acknowledge_delete:
  "acknowledge env op AckDelete x = Ok reply \<Longrightarrow>
   reply_status reply = hr_status x \<and> (hr_status x = 200 \<longrightarrow> bounded_body x = Ok (reply_body reply))"
  by (cases "bounded_body x") (auto simp: acknowledge_def read_mutation_body_def split: if_splits)

lemma update_done:
  assumes "protocol_ok env st routes" "sidecar_update_activity env st k at s = (Ret r, s')"
  shows "case r of
      Ok _ \<Rightarrow> key_wf k \<longrightarrow> sidecar_routes routes s' = (sidecar_routes routes s)(k := map_option (touch at) (sidecar_routes routes s k))
    | Err e \<Rightarrow> ordinary e \<longrightarrow> sidecar_routes routes s' = sidecar_routes routes s"
proof (cases "activity_body env at")
  case body: (Some body)
  show ?thesis
  proof (cases "route_endpoint env st k ''/activity''")
    case url: (Ok url)
    obtain q t where m: "mutation_request env st ''update_activity'' ''PATCH'' url AckEmpty (\<lambda>u. (Ok (Some body), u)) () s
      = (q, t)" by (rule prod.exhaust)
    note c = mutation_loop_cases[OF _ _ m[unfolded mutation_request_def], of routes]
    show ?thesis
    proof (cases q)
      case (Ok reply)
      with c assms(1) obtain w x where "routes w = routes (sd_world s)"
        "se_serve env (wire st ''PATCH'' url (Some body)) w = (Reply x, sd_world t)" "hr_status x = 204"
        by (auto simp: protocol_ok_def dest: acknowledge_empty)
      then have "key_wf k \<longrightarrow> routes (sd_world t) = (routes (sd_world s))(k := map_option (touch at) (routes (sd_world s) k))"
        using assms(1) body url unfolding protocol_ok_def patch_protocol_def by metis
      moreover have "r = Ok ()" "s' = t"
        using assms(2) body url m Ok by (simp_all add: sidecar_update_activity_def)
      ultimately show ?thesis by (simp only: sidecar_routes_def result.case)
    next
      case (Err e)
      then have "r = Err e" "s' = t"
        using assms(2) body url m by (simp_all add: sidecar_update_activity_def)
      then show ?thesis using c assms(1) Err by (simp add: sidecar_routes_def protocol_ok_def)
    qed
  qed (use assms body in \<open>auto simp: sidecar_update_activity_def\<close>)
qed (use assms in \<open>auto simp: sidecar_update_activity_def\<close>)

lemma delete_protocolD:
  assumes "protocol_ok env st routes" "key_wf k" "route_endpoint env st k [] = Ok url"
    and "se_serve env (wire st ''DELETE'' url None) w = (Reply r, w')"
  shows "hr_status r = 404 \<Longrightarrow> routes w k = None \<and> routes w' = routes w"
    and "hr_status r = 200 \<Longrightarrow> \<exists>d. routes w k = Some d \<and> routes w' = (routes w)(k := None)
      \<and> (\<forall>body. bounded_body r = Ok body \<longrightarrow> (\<exists>ms. se_members env body = Some ms \<and> describes env d ms))"
proof -
  have "delete_protocol env st routes" using assms(1) by (simp add: protocol_ok_def)
  note p = this[unfolded delete_protocol_def, rule_format, of k url w r w']
  show "hr_status r = 404 \<Longrightarrow> routes w k = None \<and> routes w' = routes w"
    "hr_status r = 200 \<Longrightarrow> \<exists>d. routes w k = Some d \<and> routes w' = (routes w)(k := None)
      \<and> (\<forall>body. bounded_body r = Ok body \<longrightarrow> (\<exists>ms. se_members env body = Some ms \<and> describes env d ms))"
    using p assms(2-) by blast+
qed

definition delete_done ::
  "('w \<Rightarrow> route_key \<Rightarrow> route_data option) \<Rightarrow> route_key \<Rightarrow> 'w sidecar \<Rightarrow> (store_error, route_data option) result
   \<Rightarrow> 'w sidecar \<Rightarrow> bool" where
  "delete_done routes k s r s' \<longleftrightarrow>
     (case r of
        Ok old \<Rightarrow> sidecar_routes routes s' = (sidecar_routes routes s)(k := None) \<and> old = sidecar_routes routes s k
      | Err e \<Rightarrow> ordinary e \<longrightarrow> sidecar_routes routes s' = sidecar_routes routes s)"

lemma delete_reply:
  assumes "protocol_ok env st routes" "key_wf k" "sidecar_ready routes s" "route_endpoint env st k [] = Ok url"
    and "routes w = routes (sd_world s)"
    and "se_serve env (wire st ''DELETE'' url None) w = (Reply x, sd_world t)"
    and "acknowledge env ''delete'' AckDelete x = Ok reply"
  shows "delete_done routes k s
    (if reply_status reply = 404 then Ok None
     else if reply_status reply = 200
     then (case decode_route env (reply_body reply) of None \<Rightarrow> Err (indeterminate ''delete'') | Some d \<Rightarrow> Ok (Some d))
     else Err (indeterminate ''delete'')) t"
proof -
  note p = delete_protocolD[OF assms(1,2,4,6)]
  note a = acknowledge_delete[OF assms(7)]
  consider "hr_status x = 404" | "hr_status x = 200" | "hr_status x \<noteq> 404" "hr_status x \<noteq> 200" by blast
  then show ?thesis
  proof cases
    case 1
    then have "(routes (sd_world s))(k := None) = routes (sd_world s)" using p(1) assms(5) by (simp add: fun_upd_idem)
    then show ?thesis using 1 p(1) a assms(5) by (simp add: delete_done_def sidecar_routes_def)
  next
    case 2
    then obtain d ms where d: "routes w k = Some d" "routes (sd_world t) = (routes w)(k := None)"
      and ms: "se_members env (reply_body reply) = Some ms" "describes env d ms" using p(2) a by blast
    have "extra_ok (extra d)"
      using assms(3,5) d(1) by (simp add: sidecar_ready_def routes_ok_def sidecar_routes_def)
    then have "visit_route env ms None None [] = Some d"
      using ms(2) decode_members[of env ms d] assms(1) by (simp add: protocol_ok_def)
    then have "decode_route env (reply_body reply) = Some d" using ms(1) by (simp add: decode_route_def)
    then show ?thesis using 2 a d assms(5) by (simp add: delete_done_def sidecar_routes_def fun_upd_def)
  next
    case 3
    then show ?thesis using a by (simp add: delete_done_def)
  qed
qed

lemma delete_done_ok:
  assumes "protocol_ok env st routes" "sidecar_ready routes s" "sidecar_delete env st k s = (Ret r, s')"
    and "key_wf k \<or> (\<exists>e. r = Err e)"
  shows "delete_done routes k s r s'"
proof (cases "route_endpoint env st k []")
  case url: (Ok url)
  obtain q t where m: "mutation_request env st ''delete'' ''DELETE'' url AckDelete (\<lambda>u. (Ok None, u)) () s = (q, t)"
    by (rule prod.exhaust)
  have rej: "rejections_ok env routes" "AckDelete = AckDelete \<longleftrightarrow> ''DELETE'' = ''DELETE''"
    using assms(1) by (simp_all add: protocol_ok_def)
  note c = mutation_loop_cases[OF rej m[unfolded mutation_request_def]]
  show ?thesis
  proof (cases q)
    case (Ok reply)
    with c obtain w x where x: "routes w = routes (sd_world s)"
      "se_serve env (wire st ''DELETE'' url None) w = (Reply x, sd_world t)"
      "acknowledge env ''delete'' AckDelete x = Ok reply" by auto
    have r: "r = (if reply_status reply = 404 then Ok None
       else if reply_status reply = 200
       then (case decode_route env (reply_body reply) of None \<Rightarrow> Err (indeterminate ''delete'') | Some d \<Rightarrow> Ok (Some d))
       else Err (indeterminate ''delete''))" "s' = t"
      using assms(3) url m Ok by (auto simp: sidecar_delete_def split: if_splits option.splits)
    show ?thesis
    proof (cases "key_wf k")
      case True
      show ?thesis unfolding r by (rule delete_reply[OF assms(1) True assms(2) url x])
    next
      case False
      then have "r = Err (indeterminate ''delete'')" using assms(4) r(1) by (auto split: if_splits option.splits)
      then show ?thesis by (simp add: delete_done_def)
    qed
  next
    case (Err e)
    then have "r = Err e" "s' = t" using assms(3) url m by (simp_all add: sidecar_delete_def)
    then show ?thesis using c Err by (simp add: delete_done_def sidecar_routes_def)
  qed
qed (use assms in \<open>auto simp: sidecar_delete_def delete_done_def\<close>)

end
