(* ===== verification/Sidecar_Safety.thy ===== *)
theory Sidecar_Safety
  imports Sidecar_Contract Unary_Text
begin

text \<open>
  The theorems about the sidecar client, with a sidecar that follows the protocol as their
  instance.
\<close>

section \<open>The shape of the trait operations\<close>

lemma sidecar_add_cases:
  "sidecar_add env st now k t x fl s = (Ret r, s') \<longleftrightarrow>
   put_envelope env st ''add'' ''add'' k \<lparr>target = t, last_activity = now, extra = x\<rparr> (Some fl) s = (r, s')"
  by (simp add: sidecar_add_def split: prod.split)

lemma sidecar_put_cases:
  "sidecar_put_preserving_activity env st k d fl s = (Ret r, s') \<longleftrightarrow>
   put_envelope env st ''put'' ''put_preserving_activity'' k d (Some fl) s = (r, s')"
  by (simp add: sidecar_put_preserving_activity_def split: prod.split)

lemmas sidecar_ops_simps = sidecar_ops_def store_ops.simps

lemma put_done_ready:
  "put_done routes k data fl s d s' \<Longrightarrow> sidecar_ready routes s \<Longrightarrow> key_wf k \<Longrightarrow> extra_ok (extra data) \<Longrightarrow>
   sidecar_ready routes s'"
  by (simp add: put_done_def sidecar_ready_def routes_ok_upd)

section \<open>A conforming sidecar\<close>

text \<open>
  A sidecar that follows the protocol: its world is the map, requests are read back from their
  text, and nothing is ever lost.
\<close>

definition plain_reply :: "nat \<Rightarrow> header_map \<Rightarrow> string \<Rightarrow> exchange" where
  "plain_reply status headers body =
     Reply \<lparr>hr_status = status, hr_headers = (''x-store-protocol'', ''v1'') # headers,
       hr_content_length = None, hr_chunks = [Bytes body]\<rparr>"

definition base_env :: "(route_key, route_data) btree sidecar_env" where
  "base_env =
     \<lparr>se_parse_url = (\<lambda>_. None), se_join = (\<lambda>_ relative. Some relative), se_header_value = (\<lambda>_. True),
      se_client = True, se_print = (\<lambda>j. Some (unary j)),
      se_members = (\<lambda>s. Some (unary_read s)), se_entries = (\<lambda>s. Some (unary_read s)),
      se_nanos = unary, se_rfc3339 = (\<lambda>s. Some (unary_read s)), se_serve = (\<lambda>_ w. (NoReply, w))\<rparr>"

definition members_of :: "route_data \<Rightarrow> (string \<times> json) list" where
  "members_of d =
     bt_insert ''last_activity'' (JString (unary (last_activity d))) (bt_insert ''target'' (JString (target d)) (extra d))"

definition key_of_url :: "string \<Rightarrow> route_key option" where
  "key_of_url url = map_option RouteKey (percent_bytes (drop 10 url))"

fun put_of_body :: "json \<Rightarrow> (route_data \<times> timestamp) option" where
  "put_of_body (JObject [_, (_, JString op), (_, JObject ms), (_, JString fl)]) =
     map_option (\<lambda>d. (d, unary_read fl)) (visit_route base_env ms None None [])"
| "put_of_body _ = None"

fun activity_of_body :: "json \<Rightarrow> timestamp option" where
  "activity_of_body (JObject [_, (_, JString at)]) = Some (unary_read at)"
| "activity_of_body _ = None"

definition world_ok :: "(route_key, route_data) btree \<Rightarrow> bool" where
  "world_ok w \<longleftrightarrow> bt_wf w \<and> (\<forall>k d. bt_get k w = Some d \<longrightarrow> key_wf k \<and> extra_ok (extra d))"

definition reference_put ::
  "string \<Rightarrow> string option \<Rightarrow> (route_key, route_data) btree \<Rightarrow> exchange \<times> (route_key, route_data) btree" where
  "reference_put url body w =
     (case (key_of_url url, Option.bind body (\<lambda>b. put_of_body (unary_read b))) of
        (Some k, Some (d, fl)) \<Rightarrow>
          if key_wf k then
            (let at = selected_activity d fl (bt_get k w)
             in (plain_reply 204 [(''x-store-last-activity'', unary at)] [], bt_insert k (touch at d) w))
          else (plain_reply 400 [] [], w)
      | _ \<Rightarrow> (plain_reply 400 [] [], w))"

definition reference_patch ::
  "string \<Rightarrow> string option \<Rightarrow> (route_key, route_data) btree \<Rightarrow> exchange \<times> (route_key, route_data) btree" where
  "reference_patch url body w =
     (case (key_of_url (take (length url - 9) url), Option.bind body (\<lambda>b. activity_of_body (unary_read b))) of
        (Some k, Some at) \<Rightarrow>
          (plain_reply 204 [] [], case bt_get k w of None \<Rightarrow> w | Some d \<Rightarrow> bt_insert k (touch at d) w)
      | _ \<Rightarrow> (plain_reply 400 [] [], w))"

definition reference_delete ::
  "string \<Rightarrow> (route_key, route_data) btree \<Rightarrow> exchange \<times> (route_key, route_data) btree" where
  "reference_delete url w =
     (case key_of_url url of
        None \<Rightarrow> (plain_reply 400 [] [], w)
      | Some k \<Rightarrow>
          (case bt_get k w of
             None \<Rightarrow> (plain_reply 404 [] [], w)
           | Some d \<Rightarrow>
               (plain_reply 200 [(''content-type'', ''application/json'')] (unary (members_of d)), bt_remove k w)))"

definition reference_serve ::
  "http_request \<Rightarrow> (route_key, route_data) btree \<Rightarrow> exchange \<times> (route_key, route_data) btree" where
  "reference_serve rq w =
     (if \<not> world_ok w then (NoReply, w)
      else if hq_method rq = ''GET'' then
        (plain_reply 200 [(''content-type'', ''application/json'')]
           (unary (map (\<lambda>(k, d). (as_str k, members_of d)) w)), w)
      else if hq_method rq = ''PUT'' then reference_put (hq_url rq) (hq_body rq) w
      else if hq_method rq = ''PATCH'' then reference_patch (hq_url rq) (hq_body rq) w
      else if hq_method rq = ''DELETE'' then reference_delete (hq_url rq) w
      else (plain_reply 405 [] [], w))"

definition reference_env :: "(route_key, route_data) btree sidecar_env" where
  "reference_env = base_env\<lparr>se_serve := reference_serve\<rparr>"

definition reference_store :: sidecar_store where
  "reference_store =
     \<lparr>ss_headers = [(''x-store-protocol'', ''v1'')],
      ss_base_url = \<lparr>url_scheme = ''http'', url_username = [], url_password = None, url_host = Some ''sidecar'',
        url_port = None, url_known_port = Some 80, url_host_port_text = ''sidecar'', url_path_of = ''/'',
        url_query_of = None, url_fragment = None, url_text = ''http://sidecar/''\<rparr>,
      ss_max_attempts = 3, ss_initial_backoff = from_millis 25, ss_max_backoff = from_millis 200\<rparr>"

definition reference_routes :: "(route_key, route_data) btree \<Rightarrow> route_key \<Rightarrow> route_data option" where
  "reference_routes w = (if world_ok w then (\<lambda>k. bt_get k w) else (\<lambda>k. None))"

lemma reference_fields [simp]:
  "se_join reference_env u r = Some r" "se_print reference_env j = Some (unary j)"
  "se_members reference_env s = Some (unary_read s)" "se_entries reference_env s = Some (unary_read s)"
  "se_nanos reference_env = unary" "se_rfc3339 reference_env s = Some (unary_read s)"
  "se_serve reference_env = reference_serve"
  by (simp_all add: reference_env_def base_env_def)

lemma reference_clock: "clock_ok reference_env" "clock_ok base_env"
  by (simp_all add: clock_ok_def base_env_def)

lemma describes_base: "describes base_env d ms \<longleftrightarrow> describes reference_env d ms"
  by (simp add: describes_def document_def fun_eq_iff base_env_def)

lemma members_describe: "extra_ok (extra d) \<Longrightarrow> describes reference_env d (members_of d)"
proof -
  assume x: "extra_ok (extra d)"
  then have "encode_route reference_env [] d = Ok (JObject (members_of d))"
    by (simp add: encode_route_def members_of_def chp_timestamp_def extra_ok_def clean_extra_def)
  then show ?thesis using encode_route_describes[OF x] by (metis json.inject(5))
qed

lemma reference_url:
  "route_endpoint reference_env st k tail = Ok url \<longleftrightarrow> url = ''v1/routes/'' @ encode_segment (as_str k) @ tail"
  by (auto simp: route_endpoint_def endpoint_def)

lemma key_of_route_url: "key_of_url (''v1/routes/'' @ encode_segment (as_str k)) = Some k"
  using percent_bytes_encode[of "\<lambda>c. is_ascii_alphanumeric c \<or> c \<in> set ''-._~''" "as_str k" "[]"] percent_keep
  by (simp add: key_of_url_def encode_segment_def)

lemma put_of_put_body:
  assumes "extra_ok (extra d)" "encode_route reference_env e d = Ok j" "put_body reference_env op j fl = Some body"
  shows "put_of_body (unary_read body) = Some (d, fl)"
proof -
  obtain ms where ms: "j = JObject ms" "describes reference_env d ms"
    using encode_route_describes[OF assms(1,2)] by blast
  then have "visit_route base_env ms None None [] = Some d"
    using decode_members[OF reference_clock(2)] describes_base assms(1) by blast
  then show ?thesis using assms(3) ms(1) by (auto simp: put_body_def chp_timestamp_def)
qed

lemma world_ok_insert: "world_ok w \<Longrightarrow> key_wf k \<Longrightarrow> extra_ok (extra d) \<Longrightarrow> world_ok (bt_insert k d w)"
  by (simp add: world_ok_def wf_intros map_laws)

lemma world_ok_remove: "world_ok w \<Longrightarrow> world_ok (bt_remove k w)"
  by (simp add: world_ok_def wf_intros map_laws)

lemma reference_document:
  assumes "world_ok w"
  shows "snapshot_document reference_env (\<lambda>k. bt_get k w) (map (\<lambda>(k, d). (as_str k, members_of d)) w)"
proof -
  have dist: "distinct (map fst w)" using assms bt_wf_distinct[of w] by (simp add: world_ok_def bt_keys_def)
  have keys: "map fst (map (\<lambda>(k, d). (as_str k, members_of d)) w) = map as_str (map fst w)" by auto
  have "inj as_str" by (simp add: inj_def route_key.expand)
  then have "distinct (map as_str (map fst w))"
    unfolding distinct_map[of as_str "map fst w"] using dist by (blast intro: inj_on_subset)
  moreover have "bt_get (RouteKey f) w = None \<longleftrightarrow> f \<notin> as_str ` fst ` set w" for f
    by (force simp: bt_get_def map_of_eq_None_iff image_iff)
  moreover have "\<exists>d. bt_get (RouteKey f) w = Some d \<and> describes reference_env d ms"
    if fm: "(f, ms) \<in> set (map (\<lambda>(k, d). (as_str k, members_of d)) w)" for f ms
  proof -
    obtain k d where kd: "(k, d) \<in> set w" "f = as_str k" "ms = members_of d" using fm by auto
    then have "bt_get k w = Some d" using dist by (simp add: bt_get_def)
    moreover have "extra_ok (extra d)" using calculation assms by (auto simp: world_ok_def)
    ultimately show ?thesis using kd members_describe[of d] by (cases k) auto
  qed
  ultimately show ?thesis unfolding snapshot_document_def keys by (simp add: image_image image_comp case_prod_unfold)
qed

lemma reference_reply [simp]:
  "plain_reply status hs b = Reply r \<longleftrightarrow> r = \<lparr>hr_status = status, hr_headers = (''x-store-protocol'', ''v1'') # hs,
     hr_content_length = None, hr_chunks = [Bytes b]\<rparr>"
  by (auto simp: plain_reply_def)

lemma bounded_plain:
  "bounded_body \<lparr>hr_status = n, hr_headers = h, hr_content_length = None, hr_chunks = [Bytes b]\<rparr> = Ok body \<Longrightarrow> body = b"
  by (simp add: bounded_body_def split: if_splits)

lemma wire_fields: "hq_url (wire st verb url body) = url" "hq_body (wire st verb url body) = body"
  by (simp_all add: wire_def)

lemma reference_world:
  assumes "reference_serve rq w = (x, w')" "world_ok w"
  shows "world_ok w'"
proof -
  have "extra_ok (extra d)" if "put_of_body j = Some (d, fl)" for j d fl
    using that decode_members[OF reference_clock(2)] by (cases j rule: put_of_body.cases) auto
  then show ?thesis
    using assms
    by (auto simp: reference_serve_def reference_put_def reference_patch_def reference_delete_def Let_def
        world_ok_remove bind_eq_Some_conv split: if_splits option.splits intro!: world_ok_insert)
      (auto simp: world_ok_def)
qed

lemma reference_reads: "reads_ok reference_env reference_store reference_routes"
  unfolding reads_ok_def
proof (intro allI impI conjI)
  fix url w x w'
  assume "se_serve reference_env (wire reference_store ''GET'' url None) w = (x, w')"
  then have serve: "reference_serve (wire reference_store ''GET'' url None) w = (x, w')" by simp
  then have "w' = w" by (auto simp: reference_serve_def split: if_splits)
  then show "reference_routes w' = reference_routes w" by simp
  fix r body
  assume r: "endpoint reference_env reference_store ''v1/routes'' = Ok url \<and> x = Reply r \<and> hr_status r = 200
    \<and> bounded_body r = Ok body"
  then have ok: "world_ok w" and body: "body = unary (map (\<lambda>(k, d). (as_str k, members_of d)) w)"
    using serve by (auto simp: reference_serve_def dest!: bounded_plain split: if_splits)
  then show "\<exists>es. se_entries reference_env body = Some es \<and> snapshot_document reference_env (reference_routes w) es"
    using reference_document[OF ok] by (simp add: reference_routes_def)
qed

lemma reference_rejections: "rejections_ok reference_env reference_routes"
  unfolding rejections_ok_def
proof (intro allI impI)
  fix rq w r w'
  assume "se_serve reference_env rq w = (Reply r, w') \<and> rejected rq r"
  then have "w' = w"
    by (auto simp: reference_serve_def reference_put_def reference_patch_def reference_delete_def Let_def rejected_def
        is_server_error_def is_client_error_def split: if_splits option.splits)
  then show "reference_routes w' = reference_routes w" by simp
qed

lemma reference_put_protocol: "put_protocol reference_env reference_store reference_routes"
  unfolding put_protocol_def Let_def
proof (intro allI impI)
  fix k d e op j fl url body w r w'
  let ?at = "selected_activity d fl (reference_routes w k)"
  assume a: "key_wf k \<and> extra_ok (extra d) \<and> op \<in> {''add'', ''put_preserving_activity''}
    \<and> route_endpoint reference_env reference_store k [] = Ok url \<and> encode_route reference_env e d = Ok j
    \<and> put_body reference_env op j fl = Some body
    \<and> se_serve reference_env (wire reference_store ''PUT'' url (Some body)) w = (Reply r, w') \<and> hr_status r = 204"
  then have serve: "reference_serve (wire reference_store ''PUT'' url (Some body)) w = (Reply r, w')" by simp
  have ok: "world_ok w" using serve by (simp add: reference_serve_def split: if_splits)
  have url: "key_of_url url = Some k" using a key_of_route_url by (simp add: reference_url)
  have "put_of_body (unary_read body) = Some (d, fl)" using a put_of_put_body by blast
  then have w': "w' = bt_insert k (touch ?at d) w" "hm_get_all ''x-store-last-activity'' (hr_headers r) = [unary ?at]"
    using serve ok a url
    by (auto simp: reference_serve_def reference_put_def wire_fields reference_routes_def Let_def hm_get_all_def)
  have "world_ok w'" using reference_world[OF serve ok] .
  then show "reference_routes w' = (reference_routes w)(k \<mapsto> touch ?at d)
      \<and> hm_get_all ''x-store-last-activity'' (hr_headers r) = [se_nanos reference_env ?at]"
    using w' ok by (auto simp: reference_routes_def fun_eq_iff map_laws)
qed

lemma reference_patch_protocol: "patch_protocol reference_env reference_store reference_routes"
  unfolding patch_protocol_def
proof (intro allI impI)
  fix k at url body w r w'
  assume a: "key_wf k \<and> route_endpoint reference_env reference_store k ''/activity'' = Ok url
    \<and> activity_body reference_env at = Some body
    \<and> se_serve reference_env (wire reference_store ''PATCH'' url (Some body)) w = (Reply r, w') \<and> hr_status r = 204"
  then have serve: "reference_serve (wire reference_store ''PATCH'' url (Some body)) w = (Reply r, w')" by simp
  have ok: "world_ok w" using serve by (simp add: reference_serve_def split: if_splits)
  have "take (length url - 9) url = ''v1/routes/'' @ encode_segment (as_str k)" using a by (simp add: reference_url)
  then have url: "key_of_url (take (length url - 9) url) = Some k" using key_of_route_url by simp
  have "activity_of_body (unary_read body) = Some at"
    using a by (auto simp: activity_body_def chp_timestamp_def)
  then have w': "w' = (case bt_get k w of None \<Rightarrow> w | Some d \<Rightarrow> bt_insert k (touch at d) w)"
    using serve ok url by (simp add: reference_serve_def reference_patch_def wire_fields)
  have "world_ok w'" using reference_world[OF serve ok] .
  then show "reference_routes w' = (reference_routes w)(k := map_option (touch at) (reference_routes w k))"
    using w' ok by (cases "bt_get k w") (auto simp: reference_routes_def fun_eq_iff map_laws)
qed

lemma reference_delete_protocol: "delete_protocol reference_env reference_store reference_routes"
  unfolding delete_protocol_def
proof (intro allI impI)
  fix k url w r w'
  assume a: "key_wf k \<and> route_endpoint reference_env reference_store k [] = Ok url
    \<and> se_serve reference_env (wire reference_store ''DELETE'' url None) w = (Reply r, w')"
  then have serve: "reference_serve (wire reference_store ''DELETE'' url None) w = (Reply r, w')" by simp
  have ok: "world_ok w" using serve by (simp add: reference_serve_def split: if_splits)
  have url: "key_of_url url = Some k" using a key_of_route_url by (simp add: reference_url)
  have ok': "world_ok w'" using reference_world[OF serve ok] .
  have del: "reference_delete url w = (Reply r, w')" using serve ok by (simp add: reference_serve_def wire_fields)
  show "(hr_status r = 404 \<longrightarrow> reference_routes w k = None \<and> reference_routes w' = reference_routes w)
    \<and> (hr_status r = 200 \<longrightarrow> (\<exists>d. reference_routes w k = Some d \<and> reference_routes w' = (reference_routes w)(k := None)
       \<and> (\<forall>body. bounded_body r = Ok body \<longrightarrow>
            (\<exists>ms. se_members reference_env body = Some ms \<and> describes reference_env d ms))))"
  proof (cases "bt_get k w")
    case None
    then show ?thesis using del url ok by (auto simp: reference_delete_def reference_routes_def)
  next
    case (Some d)
    then have "extra_ok (extra d)" using ok by (auto simp: world_ok_def)
    then show ?thesis using del url ok ok' Some members_describe[of d]
      by (auto simp: reference_delete_def reference_routes_def fun_eq_iff map_laws dest!: bounded_plain)
  qed
qed

lemma reference_protocol: "protocol_ok reference_env reference_store reference_routes"
  by (simp add: protocol_ok_def reference_clock reference_reads reference_rejections reference_put_protocol
      reference_patch_protocol reference_delete_protocol)

section \<open>Bounded retries\<close>

definition pauses_bounded :: "sidecar_store \<Rightarrow> nat \<Rightarrow> 'w sidecar \<Rightarrow> 'w sidecar \<Rightarrow> bool" where
  "pauses_bounded st n s s' \<longleftrightarrow>
     (\<exists>ps. sd_pauses s' = sd_pauses s @ ps \<and> length ps \<le> n \<and> list_all (\<lambda>p. p \<le> ss_max_backoff st) ps)"

lemma retry_delay_le: "retry_delay st n \<le> ss_max_backoff st"
  by (simp add: retry_delay_def Let_def)

lemma pauses_refl: "pauses_bounded st n s s" "pauses_bounded st n s (s\<lparr>sd_world := w\<rparr>)"
  by (simp_all add: pauses_bounded_def)

lemma pauses_step:
  assumes "pauses_bounded st n (sleep_before_retry st a (s\<lparr>sd_world := w\<rparr>)) s'"
  shows "pauses_bounded st (Suc n) s s'"
proof -
  obtain ps where ps: "sd_pauses s' = sd_pauses s @ retry_delay st a # ps" "length ps \<le> n"
    "list_all (\<lambda>p. p \<le> ss_max_backoff st) ps"
    using assms by (auto simp: pauses_bounded_def sleep_before_retry_def)
  then show ?thesis unfolding pauses_bounded_def
    by (intro exI[of _ "retry_delay st a # ps"]) (simp add: retry_delay_le)
qed

lemma get_loop_pauses:
  "get_loop env st op url [i..<ss_max_attempts st] s = (r, s') \<Longrightarrow> pauses_bounded st (ss_max_attempts st - Suc i) s s'"
proof (induction "ss_max_attempts st - i" arbitrary: i s)
  case 0
  then show ?case by (simp add: pauses_refl)
next
  case (Suc n)
  then have up: "[i..<ss_max_attempts st] = i # [Suc i..<ss_max_attempts st]" by (simp add: upt_rec)
  obtain x w where x: "se_serve env (wire st ''GET'' url None) (sd_world s) = (x, w)" by (rule prod.exhaust)
  let ?s1 = "s\<lparr>sd_world := w\<rparr>"
  have "s' = ?s1 \<or> i + 1 < ss_max_attempts st
      \<and> get_loop env st op url [Suc i..<ss_max_attempts st] (sleep_before_retry st i ?s1) = (r, s')"
    using Suc.prems unfolding up
    by (auto simp: send_wire x split: exchange.splits if_splits result.splits body_read_error.splits)
  then show ?case
  proof (elim disjE conjE)
    assume more: "i + 1 < ss_max_attempts st"
      and l: "get_loop env st op url [Suc i..<ss_max_attempts st] (sleep_before_retry st i ?s1) = (r, s')"
    have "pauses_bounded st (ss_max_attempts st - Suc (Suc i)) (sleep_before_retry st i ?s1) s'"
      using Suc.hyps(1)[OF _ l] Suc.hyps(2) by simp
    from pauses_step[OF this] show ?thesis using more by (simp add: Suc_diff_Suc)
  qed (simp add: pauses_refl)
qed

lemma mutation_loop_pauses:
  "mutation_loop env st op verb url ack mk [i..<ss_max_attempts st] f s = (r, s') \<Longrightarrow>
   pauses_bounded st (ss_max_attempts st - Suc i) s s'"
proof (induction "ss_max_attempts st - i" arbitrary: i f s)
  case 0
  then show ?case by (simp add: pauses_refl)
next
  case (Suc n)
  then have up: "[i..<ss_max_attempts st] = i # [Suc i..<ss_max_attempts st]" by (simp add: upt_rec)
  obtain b f' where b: "mk f = (b, f')" by (rule prod.exhaust)
  have "s' = s \<or> (\<exists>w. s' = s\<lparr>sd_world := w\<rparr>) \<or> (\<exists>w. i + 1 < ss_max_attempts st
      \<and> mutation_loop env st op verb url ack mk [Suc i..<ss_max_attempts st] f'
          (sleep_before_retry st i (s\<lparr>sd_world := w\<rparr>)) = (r, s'))"
    using Suc.prems b unfolding up
    by (auto simp: send_wire split: exchange.splits if_splits result.splits)
  then show ?case
  proof (elim disjE conjE exE)
    fix w
    assume more: "i + 1 < ss_max_attempts st"
      and l: "mutation_loop env st op verb url ack mk [Suc i..<ss_max_attempts st] f'
        (sleep_before_retry st i (s\<lparr>sd_world := w\<rparr>)) = (r, s')"
    have "pauses_bounded st (ss_max_attempts st - Suc (Suc i)) (sleep_before_retry st i (s\<lparr>sd_world := w\<rparr>)) s'"
      using Suc.hyps(1)[OF _ l] Suc.hyps(2) by simp
    from pauses_step[OF this] show ?thesis using more by (simp add: Suc_diff_Suc)
  qed (simp_all add: pauses_refl)
qed

section \<open>Theorems\<close>

text \<open>C26.
  On top of the published protocol the sidecar client implements the contract of the store trait:
  a snapshot is the sidecar's map, success commits exactly the record that is returned, an
  ordinary error (rejection, exhausted server errors, oversized request, corrupt data) changed
  nothing, and a replacement never commits an activity below a floor sampled for its last attempt.\<close>

theorem sidecar_keeps_contract:
  assumes "protocol_ok env st routes"
  shows "floor_store (sidecar_ops env st) (sidecar_routes routes) (sidecar_ready routes)"
proof (unfold_locales, unfold sidecar_ops_simps, goal_cases)
  case (1 s m s')
  then show ?case using snapshot_reads[OF assms 1] by (simp add: sidecar_ready_def)
next
  case (2 s k x now t fl d s')
  then show ?case
    using put_envelope_Ok[OF assms 2(2) _ _ 2(4)[unfolded sidecar_add_cases]] put_done_ready[of routes k _ fl s d s']
    by (force simp: put_done_def)
next
  case (3 s now k t x fl e s')
  then show ?case using put_envelope_Err[OF assms 3(2)[unfolded sidecar_add_cases]] by (simp add: sidecar_ready_def)
next
  case (4 s k r fl d s')
  then show ?case
    using put_envelope_Ok[OF assms 4(2,3) _ 4(4)[unfolded sidecar_put_cases]] put_done_ready[of routes k _ fl s d s']
    by (force simp: put_done_def)
next
  case (5 s k r fl e s')
  then show ?case using put_envelope_Err[OF assms 5(2)[unfolded sidecar_put_cases]] by (simp add: sidecar_ready_def)
next
  case (6 s k at u s')
  then show ?case using update_done[OF assms 6(3)] by (simp add: sidecar_ready_def routes_ok_touch)
next
  case (7 s k at e s')
  then show ?case using update_done[OF assms 7(2)] by (simp add: sidecar_ready_def)
next
  case (8 s k old s')
  then show ?case using delete_done_ok[OF assms 8(1,3)]
    by (simp add: delete_done_def sidecar_ready_def routes_ok_remove)
next
  case (9 s k e s')
  then show ?case using delete_done_ok[OF assms 9(1,2)] by (simp add: delete_done_def sidecar_ready_def)
next
  case (10 s k x now t fl d s')
  then show ?case
    using put_envelope_Ok[OF assms 10(2) _ _ 10(4)[unfolded sidecar_add_cases]] by (force simp: put_done_def)
next
  case (11 s k r fl d s')
  then show ?case
    using put_envelope_Ok[OF assms 11(2,3) _ 11(4)[unfolded sidecar_put_cases]] by (force simp: put_done_def)
qed

theorem sidecar_keeps_contract_witness:
  "floor_store (sidecar_ops reference_env reference_store) (sidecar_routes reference_routes) (sidecar_ready reference_routes)
   \<and> sidecar_ready reference_routes
       \<lparr>sd_world = [(RouteKey ''/'', \<lparr>target = ''http://hub'', last_activity = 0, extra = []\<rparr>)], sd_pauses = []\<rparr>"
  using sidecar_keeps_contract[OF reference_protocol]
  by (simp add: sidecar_ready_def sidecar_routes_def routes_ok_def reference_routes_def world_ok_def
      extra_ok_def clean_extra_def bt_contains_def key_wf_def bt_wf_def)

text \<open>C28.
  A configured client pauses at most nine times, never longer than its backoff
  limit, and a request is therefore sent at most ten times, whatever the sidecar answers.\<close>

theorem sidecar_retries_bounded:
  assumes "ss_max_attempts st = sc_max_attempts (with_retry_policy n initial maximum config)"
    and "ss_max_backoff st = sc_max_backoff (with_retry_policy n initial maximum config)"
    and "get_request env st op url s = (r, s') \<or> mutation_request env st op verb url ack mk f s = (r, s')"
  shows "\<exists>ps. sd_pauses s' = sd_pauses s @ ps \<and> length ps < 10 \<and> length ps < max 1 n
    \<and> (\<forall>p \<in> set ps. p \<le> maximum)"
proof -
  have "pauses_bounded st (ss_max_attempts st - 1) s s'"
    using assms(3) get_loop_pauses[of env st op url 0 s r s'] mutation_loop_pauses[of env st op verb url ack mk 0 f s r s']
    by (auto simp: get_request_def mutation_request_def)
  then obtain ps where ps: "sd_pauses s' = sd_pauses s @ ps" "length ps \<le> ss_max_attempts st - 1"
    "\<forall>p \<in> set ps. p \<le> ss_max_backoff st" by (auto simp: pauses_bounded_def list_all_iff)
  have "ss_max_attempts st = max 1 (min n 10)" "ss_max_backoff st = maximum"
    using assms(1,2) by (simp_all add: with_retry_policy_def MAX_ATTEMPTS_def)
  then show ?thesis using ps by (intro exI[of _ ps]) auto
qed

definition failing_env :: "unit sidecar_env" where
  "failing_env =
     \<lparr>se_parse_url = (\<lambda>_. None), se_join = (\<lambda>_ relative. Some relative), se_header_value = (\<lambda>_. True),
      se_client = True, se_print = (\<lambda>_. None), se_members = (\<lambda>_. None), se_entries = (\<lambda>_. None),
      se_nanos = (\<lambda>_. []), se_rfc3339 = (\<lambda>_. None), se_serve = (\<lambda>_ w. (NoReply, w))\<rparr>"

theorem sidecar_retries_bounded_witness:
  "get_request failing_env reference_store ''snapshot'' ''v1/routes'' \<lparr>sd_world = (), sd_pauses = []\<rparr>
     = (Err (Backend ''snapshot''), \<lparr>sd_world = (), sd_pauses = [25000000, 50000000]\<rparr>)
   \<and> (\<exists>ps. [25000000, 50000000] = [] @ ps \<and> length ps < 10 \<and> length ps < max 1 (3 :: nat)
        \<and> (\<forall>p \<in> set ps. p \<le> (200000000 :: nat)))"
proof -
  have run: "get_request failing_env reference_store ''snapshot'' ''v1/routes'' \<lparr>sd_world = (), sd_pauses = []\<rparr>
     = (Err (Backend ''snapshot''), \<lparr>sd_world = (), sd_pauses = [25000000, 50000000]\<rparr>)"
    by (simp add: get_request_def reference_store_def failing_env_def send_def upt_rec sleep_before_retry_def
        retry_delay_def from_millis_def DURATION_MAX_def backend_def)
  then show ?thesis
    using sidecar_retries_bounded[of reference_store 3 "from_millis 25" "from_millis 200" "sidecar_config_new []" failing_env
        "''snapshot''" "''v1/routes''" "\<lparr>sd_world = (), sd_pauses = []\<rparr>" "Err (Backend ''snapshot'')"
        "\<lparr>sd_world = (), sd_pauses = [25000000, 50000000]\<rparr>" "[]" AckPut "\<lambda>u. (Ok None, u)" "()"]
    by (simp add: reference_store_def with_retry_policy_def MAX_ATTEMPTS_def from_millis_def sidecar_config_new_def)
qed

text \<open>C27.
  The strict decoder of a route record accepts exactly the objects in which every member occurs
  once, the target is a string, and the activity is the canonical text of a timestamp; what it
  returns is the record that the object describes, in whatever order the members come.\<close>

theorem strict_decoder_exact:
  assumes "clock_ok env" "se_members env body = Some ms"
  shows "decode_route env body = Some d \<longleftrightarrow>
    distinct (map fst ms) \<and> extra_ok (extra d)
    \<and> map_of ms = (map_of (extra d))(''target'' \<mapsto> JString (target d),
                      ''last_activity'' \<mapsto> JString (chp_timestamp env (last_activity d)))"
proof -
  have "document env d = (map_of (extra d))(''target'' \<mapsto> JString (target d),
      ''last_activity'' \<mapsto> JString (chp_timestamp env (last_activity d)))"
    by (auto simp: document_def chp_timestamp_def bt_get_def fun_eq_iff)
  then show ?thesis using decode_members[OF assms(1), of ms d] assms(2)
    by (auto simp: decode_route_def describes_def)
qed

theorem strict_decoder_exact_witness:
  "decode_route reference_env (unary [(''target'', JString ''http://hub''), (''last_activity'', JString (unary (0 :: int)))])
     = Some \<lparr>target = ''http://hub'', last_activity = 0, extra = []\<rparr>"
proof -
  let ?ms = "[(''target'', JString ''http://hub''), (''last_activity'', JString (unary (0 :: int)))]"
  have "se_members reference_env (unary ?ms) = Some ?ms" by simp
  from strict_decoder_exact[OF reference_clock(1) this, of "\<lparr>target = ''http://hub'', last_activity = 0, extra = []\<rparr>"]
  show ?thesis
    by (auto simp: extra_ok_def clean_extra_def bt_contains_def chp_timestamp_def fun_eq_iff)
qed

end
