(* ===== verification/Traffic.thy ===== *)
theory Traffic
  imports Main
begin

text \<open>
  \<open>TrafficLifecycle\<close> of \<open>src/src/api_server.rs\<close>: the counter of admitted public requests that
  shutdown waits on. Requests run concurrently, so besides the operations run without interference
  there is a step relation in which every atomic access is a step of its own. The counter is a
  natural number: a \<open>usize\<close> overflows only with \<open>2^64\<close> simultaneous requests.
\<close>

section \<open>The lifecycle\<close>

record traffic =
  tr_accepting :: bool
  tr_active :: nat
  tr_accepts_stopped :: bool

definition traffic_new :: traffic where
  "traffic_new = \<lparr>tr_accepting = True, tr_active = 0, tr_accepts_stopped = False\<rparr>"

definition traffic_finish :: "traffic \<Rightarrow> traffic" where
  "traffic_finish t = (if tr_active t \<noteq> 0 then t\<lparr>tr_active := tr_active t - 1\<rparr> else t)"

definition try_admit :: "traffic \<Rightarrow> bool \<times> traffic" where
  "try_admit t =
     (if \<not> tr_accepting t then (False, t)
      else
        (let t = t\<lparr>tr_active := tr_active t + 1\<rparr>
         in if tr_accepting t then (True, t) else (False, traffic_finish t)))"

definition acknowledge_accepts_stopped :: "traffic \<Rightarrow> traffic" where
  "acknowledge_accepts_stopped t = t\<lparr>tr_accepting := False, tr_accepts_stopped := True\<rparr>"

section \<open>Interleavings\<close>

text \<open>
  Where a request is: before its first load, after a load that allowed it, after the increment,
  admitted, in the compare-and-exchange loop of \<open>finish\<close> with the value it saw last, or done.
\<close>

datatype traffic_pc = Arrived | Allowed | Counted | Admitted | Releasing nat | Left | OverReleased

definition holds_slot :: "traffic_pc \<Rightarrow> bool" where
  "holds_slot pc \<longleftrightarrow> (case pc of Counted \<Rightarrow> True | Admitted \<Rightarrow> True | Releasing _ \<Rightarrow> True | _ \<Rightarrow> False)"

record traffic_sys =
  ts_traffic :: traffic
  ts_requests :: "traffic_pc list"

definition traffic_start :: traffic_sys where
  "traffic_start = \<lparr>ts_traffic = traffic_new, ts_requests = []\<rparr>"

definition set_pc :: "nat \<Rightarrow> traffic_pc \<Rightarrow> traffic_sys \<Rightarrow> traffic_sys" where
  "set_pc i pc s = s\<lparr>ts_requests := (ts_requests s)[i := pc]\<rparr>"

definition set_active :: "nat \<Rightarrow> traffic_sys \<Rightarrow> traffic_sys" where
  "set_active n s = s\<lparr>ts_traffic := (ts_traffic s)\<lparr>tr_active := n\<rparr>\<rparr>"

definition at :: "traffic_sys \<Rightarrow> nat \<Rightarrow> traffic_pc \<Rightarrow> bool" where
  "at s i pc \<longleftrightarrow> i < length (ts_requests s) \<and> ts_requests s ! i = pc"

inductive traffic_step :: "traffic_sys \<Rightarrow> traffic_sys \<Rightarrow> bool" where
  arrive: "traffic_step s (s\<lparr>ts_requests := ts_requests s @ [Arrived]\<rparr>)"
| first_load:
    "at s i Arrived
     \<Longrightarrow> traffic_step s (set_pc i (if tr_accepting (ts_traffic s) then Allowed else Left) s)"
| increment:
    "at s i Allowed
     \<Longrightarrow> traffic_step s (set_active (Suc (tr_active (ts_traffic s))) (set_pc i Counted s))"
| second_load:
    "at s i Counted
     \<Longrightarrow> traffic_step s
           (set_pc i (if tr_accepting (ts_traffic s) then Admitted else Releasing (tr_active (ts_traffic s))) s)"
| finish_load:
    "at s i Admitted \<Longrightarrow> traffic_step s (set_pc i (Releasing (tr_active (ts_traffic s))) s)"
| finish_none:
    "at s i (Releasing 0) \<Longrightarrow> traffic_step s (set_pc i OverReleased s)"
| finish_exchange:
    "at s i (Releasing n) \<Longrightarrow> n \<noteq> 0 \<Longrightarrow> tr_active (ts_traffic s) = n
     \<Longrightarrow> traffic_step s (set_active (n - 1) (set_pc i Left s))"
| finish_retry:
    "at s i (Releasing n) \<Longrightarrow> n \<noteq> 0
     \<Longrightarrow> traffic_step s (set_pc i (Releasing (tr_active (ts_traffic s))) s)"
| stop_accepting: "traffic_step s (s\<lparr>ts_traffic := (ts_traffic s)\<lparr>tr_accepting := False\<rparr>\<rparr>)"
| stop_acknowledged:
    "\<not> tr_accepting (ts_traffic s)
     \<Longrightarrow> traffic_step s (s\<lparr>ts_traffic := (ts_traffic s)\<lparr>tr_accepts_stopped := True\<rparr>\<rparr>)"

inductive traffic_run :: "traffic_sys \<Rightarrow> traffic_sys \<Rightarrow> bool" where
  stay: "traffic_run s s"
| move: "traffic_run s t \<Longrightarrow> traffic_step t u \<Longrightarrow> traffic_run s u"

section \<open>The count is exact\<close>

definition slots :: "traffic_sys \<Rightarrow> nat" where
  "slots s = length (filter holds_slot (ts_requests s))"

definition traffic_inv :: "traffic_sys \<Rightarrow> bool" where
  "traffic_inv s \<longleftrightarrow>
     tr_active (ts_traffic s) = slots s \<and> Releasing 0 \<notin> set (ts_requests s) \<and> OverReleased \<notin> set (ts_requests s)
     \<and> (tr_accepts_stopped (ts_traffic s) \<longrightarrow> \<not> tr_accepting (ts_traffic s))"

lemma holds_slot_simps [simp]:
  "\<not> holds_slot Arrived" "\<not> holds_slot Allowed" "holds_slot Counted" "holds_slot Admitted"
  "holds_slot (Releasing n)" "\<not> holds_slot Left" "\<not> holds_slot OverReleased"
  by (simp_all add: holds_slot_def)

lemma filter_update_count:
  assumes "i < length xs"
  shows "length (filter P (xs[i := y])) + (if P (xs ! i) then 1 else 0) = length (filter P xs) + (if P y then 1 else 0)"
  using assms
proof (induction xs arbitrary: i)
  case (Cons x xs)
  then show ?case by (cases i) auto
qed simp

lemma slots_set_pc:
  assumes "at s i pc"
  shows "slots (set_pc i pc' s) + (if holds_slot pc then 1 else 0) = slots s + (if holds_slot pc' then 1 else 0)"
  using assms filter_update_count[of i "ts_requests s" holds_slot pc'] by (auto simp: slots_def set_pc_def at_def)

lemma set_pc_fields [simp]:
  "ts_traffic (set_pc i pc s) = ts_traffic s" "ts_requests (set_active n s) = ts_requests s"
  "tr_active (ts_traffic (set_active n s)) = n"
  "tr_accepting (ts_traffic (set_active n s)) = tr_accepting (ts_traffic s)"
  "tr_accepts_stopped (ts_traffic (set_active n s)) = tr_accepts_stopped (ts_traffic s)"
  "slots (set_active n s) = slots s"
  by (simp_all add: set_pc_def set_active_def slots_def)

lemma set_pc_set: "set (ts_requests (set_pc i pc s)) \<subseteq> insert pc (set (ts_requests s))"
  by (simp add: set_pc_def set_update_subset_insert)

lemma slot_positive: "at s i pc \<Longrightarrow> holds_slot pc \<Longrightarrow> 0 < slots s"
  unfolding at_def slots_def by (metis filter_empty_conv length_greater_0_conv nth_mem)

lemma traffic_inv_update:
  assumes "traffic_inv s" and "at s i pc" and "pc' \<noteq> Releasing 0" and "pc' \<noteq> OverReleased"
    and "n + (if holds_slot pc then 1 else 0) = tr_active (ts_traffic s) + (if holds_slot pc' then 1 else 0)"
  shows "traffic_inv (set_active n (set_pc i pc' s))"
proof -
  have "Releasing 0 \<notin> set (ts_requests (set_pc i pc' s))" "OverReleased \<notin> set (ts_requests (set_pc i pc' s))"
    using assms(1,3,4) set_pc_set[of i pc' s] by (auto simp: traffic_inv_def)
  moreover have "n = slots (set_pc i pc' s)"
    using assms(1,5) slots_set_pc[OF assms(2), of pc'] by (auto simp: traffic_inv_def split: if_splits)
  ultimately show ?thesis using assms(1) by (simp add: traffic_inv_def)
qed

lemma set_active_same: "set_active (tr_active (ts_traffic s)) (set_pc i pc s) = set_pc i pc s"
  by (simp add: set_active_def set_pc_def)

lemma traffic_inv_set_pc:
  assumes "traffic_inv s" and "at s i pc" and "pc' \<noteq> Releasing 0" and "pc' \<noteq> OverReleased"
    and "holds_slot pc = holds_slot pc'"
  shows "traffic_inv (set_pc i pc' s)"
  using traffic_inv_update[OF assms(1-4), of "tr_active (ts_traffic s)"] assms(5) by (simp add: set_active_same)

lemma active_positive: "traffic_inv s \<Longrightarrow> at s i pc \<Longrightarrow> holds_slot pc \<Longrightarrow> tr_active (ts_traffic s) \<noteq> 0"
  using slot_positive[of s i pc] by (simp add: traffic_inv_def)

lemma traffic_step_inv:
  assumes "traffic_step s s'" and "traffic_inv s"
  shows "traffic_inv s'"
  using assms
proof cases
  case (first_load i)
  then show ?thesis using traffic_inv_set_pc[OF assms(2) first_load(2)] by simp
next
  case (increment i)
  then show ?thesis using traffic_inv_update[OF assms(2) increment(2), of Counted "Suc (tr_active (ts_traffic s))"] by simp
next
  case (second_load i)
  then show ?thesis
    using traffic_inv_set_pc[OF assms(2) second_load(2)] active_positive[OF assms(2) second_load(2)] by simp
next
  case (finish_load i)
  then show ?thesis
    using traffic_inv_set_pc[OF assms(2) finish_load(2)] active_positive[OF assms(2) finish_load(2)] by simp
next
  case (finish_none i)
  then have "Releasing 0 \<in> set (ts_requests s)" by (metis at_def nth_mem)
  then show ?thesis using assms(2) by (simp add: traffic_inv_def)
next
  case (finish_exchange i n)
  then show ?thesis using traffic_inv_update[OF assms(2) finish_exchange(2), of Left "n - 1"] by simp
next
  case (finish_retry i n)
  then show ?thesis
    using traffic_inv_set_pc[OF assms(2) finish_retry(2)] active_positive[OF assms(2) finish_retry(2)] by simp
qed (simp_all add: traffic_inv_def slots_def)

lemma traffic_run_inv: "traffic_run s t \<Longrightarrow> traffic_inv s \<Longrightarrow> traffic_inv t"
  by (induction rule: traffic_run.induct) (auto intro: traffic_step_inv)

lemma traffic_start_inv: "traffic_inv traffic_start"
  by (simp add: traffic_inv_def traffic_start_def traffic_new_def slots_def)

text \<open>No request is admitted any more once accepting has stopped.\<close>

definition closed_empty :: "traffic_sys \<Rightarrow> bool" where
  "closed_empty s \<longleftrightarrow> \<not> tr_accepting (ts_traffic s) \<and> Admitted \<notin> set (ts_requests s)"

lemma closed_empty_set_pc: "closed_empty s \<Longrightarrow> pc \<noteq> Admitted \<Longrightarrow> closed_empty (set_pc i pc s)"
  using set_pc_set[of i pc s] by (auto simp: closed_empty_def)

lemma closed_empty_set_active: "closed_empty (set_active n s) = closed_empty s"
  by (simp add: closed_empty_def)

lemma closed_empty_step:
  assumes "traffic_step s s'" and "closed_empty s"
  shows "closed_empty s'"
proof -
  have closed: "\<not> tr_accepting (ts_traffic s)" using assms(2) by (simp add: closed_empty_def)
  show ?thesis
    using assms(1)
  proof cases
    case arrive
    then show ?thesis using assms(2) by (simp add: closed_empty_def)
  next
    case stop_accepting
    then show ?thesis using assms(2) by (simp add: closed_empty_def)
  next
    case stop_acknowledged
    then show ?thesis using assms(2) by (simp add: closed_empty_def)
  qed (simp_all add: closed closed_empty_set_active closed_empty_set_pc assms(2))
qed

lemma closed_empty_run: "traffic_run s t \<Longrightarrow> closed_empty s \<Longrightarrow> closed_empty t"
  by (induction rule: traffic_run.induct) (auto intro: closed_empty_step)


text \<open>A request that was allowed before the stop arrives at the counter after the drain.\<close>

definition late_request :: traffic_sys where
  "late_request =
     \<lparr>ts_traffic = \<lparr>tr_accepting = False, tr_active = 0, tr_accepts_stopped = False\<rparr>, ts_requests = [Allowed]\<rparr>"

definition late_counted :: traffic_sys where
  "late_counted =
     \<lparr>ts_traffic = \<lparr>tr_accepting = False, tr_active = 1, tr_accepts_stopped = False\<rparr>, ts_requests = [Counted]\<rparr>"

lemma late_request_reachable: "traffic_run traffic_start late_request"
proof -
  let ?s1 = "traffic_start\<lparr>ts_requests := [Arrived]\<rparr>"
  have "traffic_step traffic_start ?s1"
    using arrive[of traffic_start] by (simp add: traffic_start_def)
  moreover have "traffic_step ?s1 (?s1\<lparr>ts_requests := [Allowed]\<rparr>)"
    using first_load[of ?s1 0] by (simp add: at_def set_pc_def traffic_start_def traffic_new_def)
  moreover have "traffic_step (?s1\<lparr>ts_requests := [Allowed]\<rparr>) late_request"
    using stop_accepting[of "?s1\<lparr>ts_requests := [Allowed]\<rparr>"]
    by (simp add: late_request_def traffic_start_def traffic_new_def)
  ultimately show ?thesis by (meson stay move)
qed


end
