(* ===== verification/Resolver.thy ===== *)
theory Resolver
  imports Rust_Strings
begin

text \<open>
  The bounded name resolver of \<open>src/src/errors.rs\<close>: a cache of one set of addresses, a queue of
  at most eight requests, one worker task that answers them, and leases that pin the cached
  addresses while one custom-error request uses them. The name lookup itself and the clock are
  inputs of the steps.
\<close>

section \<open>The cache\<close>

definition MAX_RESOLVED_ADDRESSES :: nat where
  "MAX_RESOLVED_ADDRESSES = 16"

definition RESOLVER_QUEUE_CAPACITY :: nat where
  "RESOLVER_QUEUE_CAPACITY = 8"

definition RESOLVER_CACHE_TTL :: nat where
  "RESOLVER_CACHE_TTL = 30000"

datatype io_error_kind = WouldBlock | BrokenPipe | Interrupted | NotFound | InvalidInput | LookupFailed

record 'addr cached_addresses =
  ca_addresses :: "'addr list"
  ca_generation :: u64
  ca_expires_at :: nat

record 'addr resolver_cache =
  rc_current :: "'addr cached_addresses option"
  rc_generation :: u64
  rc_leased :: "u64 option"

definition cache_default :: "'addr resolver_cache" where
  "cache_default = \<lparr>rc_current = None, rc_generation = 0, rc_leased = None\<rparr>"

definition fresh ::
  "nat \<Rightarrow> 'addr resolver_cache \<Rightarrow> 'addr resolver_cache \<times> 'addr cached_addresses option" where
  "fresh now cache =
     (let cache =
            (case rc_current cache of
               Some cached \<Rightarrow>
                 if ca_expires_at cached \<le> now \<and> rc_leased cache \<noteq> Some (ca_generation cached)
                 then cache\<lparr>rc_current := None\<rparr> else cache
             | None \<Rightarrow> cache)
      in (cache, rc_current cache))"

definition lease :: "u64 \<Rightarrow> 'addr resolver_cache \<Rightarrow> 'addr resolver_cache \<times> bool" where
  "lease generation cache =
     (if (case rc_current cache of Some cached \<Rightarrow> ca_generation cached = generation | None \<Rightarrow> False)
         \<and> rc_leased cache = None
      then (cache\<lparr>rc_leased := Some generation\<rparr>, True)
      else (cache, False))"

definition finish_lease :: "u64 \<Rightarrow> bool \<Rightarrow> 'addr resolver_cache \<Rightarrow> 'addr resolver_cache" where
  "finish_lease generation succeeded cache =
     (let cache = (if rc_leased cache = Some generation then cache\<lparr>rc_leased := None\<rparr> else cache)
      in if \<not> succeeded
            \<and> (case rc_current cache of Some cached \<Rightarrow> ca_generation cached = generation | None \<Rightarrow> False)
         then cache\<lparr>rc_current := None\<rparr> else cache)"

section \<open>The worker\<close>

text \<open>\<open>Vec::dedup\<close> removes consecutive repetitions; the result of a lookup becomes the cached set.\<close>

definition accept_lookup ::
  "nat \<Rightarrow> (io_error_kind, 'addr list) result \<Rightarrow> 'addr resolver_cache
   \<Rightarrow> 'addr resolver_cache \<times> (io_error_kind, 'addr cached_addresses) result" where
  "accept_lookup now found cache =
     (case found of
        Err e \<Rightarrow> (cache, Err e)
      | Ok addresses \<Rightarrow>
          (let addresses = remdups_adj (take MAX_RESOLVED_ADDRESSES addresses)
           in if addresses = [] then (cache, Err NotFound)
              else
                (let generation = rc_generation cache + 1;
                     cached = \<lparr>ca_addresses = addresses, ca_generation = generation,
                               ca_expires_at = now + RESOLVER_CACHE_TTL\<rparr>
                 in (cache\<lparr>rc_generation := generation, rc_current := Some cached\<rparr>, Ok cached))))"

definition resolver_batch_count :: "'r list \<Rightarrow> nat" where
  "resolver_batch_count queue = min (length queue) (RESOLVER_QUEUE_CAPACITY - 1)"

definition take_resolver_batch :: "'r \<Rightarrow> 'r list \<Rightarrow> nat \<Rightarrow> 'r list \<times> 'r list" where
  "take_resolver_batch first queue waiting = (first # take waiting queue, drop waiting queue)"

section \<open>Clients\<close>

datatype send_result = Sent | Full | Closed

definition try_send :: "bool \<Rightarrow> 'r \<Rightarrow> 'r list \<Rightarrow> 'r list \<times> send_result" where
  "try_send worker_alive request queue =
     (if \<not> worker_alive then (queue, Closed)
      else if RESOLVER_QUEUE_CAPACITY \<le> length queue then (queue, Full)
      else (queue @ [request], Sent))"

text \<open>\<open>ensure_cached\<close> up to the point where it waits: a result, or the request it has queued.\<close>

datatype 'a outcome = Returns 'a | Waits

definition ensure_begin ::
  "nat \<Rightarrow> bool \<Rightarrow> 'r \<Rightarrow> 'addr resolver_cache \<Rightarrow> 'r list
   \<Rightarrow> 'addr resolver_cache \<times> 'r list \<times> (io_error_kind, u64) result outcome" where
  "ensure_begin now worker_alive request cache queue =
     (case fresh now cache of
        (cache, Some cached) \<Rightarrow>
          (case lease (ca_generation cached) cache of
             (cache, True) \<Rightarrow> (cache, queue, Returns (Ok (ca_generation cached)))
           | (cache, False) \<Rightarrow> (cache, queue, Returns (Err WouldBlock)))
      | (cache, None) \<Rightarrow>
          (case try_send worker_alive request queue of
             (queue, Sent) \<Rightarrow> (cache, queue, Waits)
           | (queue, Full) \<Rightarrow> (cache, queue, Returns (Err WouldBlock))
           | (queue, Closed) \<Rightarrow> (cache, queue, Returns (Err BrokenPipe))))"

text \<open>The rest of it, once the reply is there; no reply means the worker dropped the request.\<close>

definition ensure_end ::
  "(io_error_kind, 'addr cached_addresses) result option \<Rightarrow> 'addr resolver_cache
   \<Rightarrow> 'addr resolver_cache \<times> (io_error_kind, u64) result" where
  "ensure_end reply cache =
     (case reply of
        None \<Rightarrow> (cache, Err BrokenPipe)
      | Some (Err e) \<Rightarrow> (cache, Err e)
      | Some (Ok cached) \<Rightarrow>
          (case lease (ca_generation cached) cache of
             (cache, True) \<Rightarrow> (cache, Ok (ca_generation cached))
           | (cache, False) \<Rightarrow> (cache, Err Interrupted)))"

text \<open>\<open>Service::call\<close>, with which the connector asks for the addresses of a host.\<close>

definition call_begin ::
  "nat \<Rightarrow> bool \<Rightarrow> string \<Rightarrow> string \<Rightarrow> 'r \<Rightarrow> 'addr resolver_cache \<Rightarrow> 'r list
   \<Rightarrow> 'addr resolver_cache \<times> 'r list \<times> (io_error_kind, 'addr list) result outcome" where
  "call_begin now worker_alive host name request cache queue =
     (if name \<noteq> host then (cache, queue, Returns (Err InvalidInput))
      else
        (case fresh now cache of
           (cache, Some cached) \<Rightarrow> (cache, queue, Returns (Ok (ca_addresses cached)))
         | (cache, None) \<Rightarrow>
             (case try_send worker_alive request queue of
                (queue, Sent) \<Rightarrow> (cache, queue, Waits)
              | (queue, Full) \<Rightarrow> (cache, queue, Returns (Err WouldBlock))
              | (queue, Closed) \<Rightarrow> (cache, queue, Returns (Err BrokenPipe)))))"

definition call_end ::
  "(io_error_kind, 'addr cached_addresses) result option \<Rightarrow> (io_error_kind, 'addr list) result" where
  "call_end reply =
     (case reply of
        None \<Rightarrow> Err BrokenPipe
      | Some r \<Rightarrow> and_then r (\<lambda>cached. Ok (ca_addresses cached)))"

section \<open>Interleavings\<close>

text \<open>
  One custom-error request at a time holds the serialization mutex: \<open>phase\<close> is where it is. The
  worker is idle, or waits for a lookup on behalf of the request it received first.
\<close>

datatype phase = Idle | Awaiting nat | Holding u64

record 'addr resolver_state =
  rs_cache :: "'addr resolver_cache"
  rs_queue :: "nat list"
  rs_worker :: "nat option"
  rs_replies :: "nat \<Rightarrow> (io_error_kind, 'addr cached_addresses) result option"
  rs_phase :: phase

definition resolver_start :: "'addr resolver_state" where
  "resolver_start =
     \<lparr>rs_cache = cache_default, rs_queue = [], rs_worker = None, rs_replies = (\<lambda>_. None), rs_phase = Idle\<rparr>"

definition answer ::
  "nat \<Rightarrow> (io_error_kind, 'addr cached_addresses) result \<Rightarrow> 'addr resolver_state \<Rightarrow> 'addr resolver_state" where
  "answer first r s =
     (let (batch, queue) = take_resolver_batch first (rs_queue s) (resolver_batch_count (rs_queue s))
      in s\<lparr>rs_queue := queue, rs_worker := None,
           rs_replies := (\<lambda>i. if i \<in> set batch then Some r else rs_replies s i)\<rparr>)"

definition phase_after :: "(io_error_kind, u64) result \<Rightarrow> phase" where
  "phase_after r = (case r of Ok g \<Rightarrow> Holding g | Err _ \<Rightarrow> Idle)"

inductive resolver_step :: "'addr resolver_state \<Rightarrow> 'addr resolver_state \<Rightarrow> bool" where
  begin_returns:
    "rs_phase s = Idle \<Longrightarrow> ensure_begin now alive i (rs_cache s) (rs_queue s) = (c, q, Returns r)
     \<Longrightarrow> resolver_step s (s\<lparr>rs_cache := c, rs_queue := q, rs_phase := phase_after r\<rparr>)"
| begin_waits:
    "rs_phase s = Idle \<Longrightarrow> ensure_begin now alive i (rs_cache s) (rs_queue s) = (c, q, Waits)
     \<Longrightarrow> resolver_step s (s\<lparr>rs_cache := c, rs_queue := q, rs_phase := Awaiting i\<rparr>)"
| reply_received:
    "rs_phase s = Awaiting i \<Longrightarrow> ensure_end (rs_replies s i) (rs_cache s) = (c, r)
     \<Longrightarrow> resolver_step s (s\<lparr>rs_cache := c, rs_phase := phase_after r\<rparr>)"
| wait_abandoned:
    "rs_phase s = Awaiting i \<Longrightarrow> resolver_step s (s\<lparr>rs_phase := Idle\<rparr>)"
| attempt_dropped:
    "rs_phase s = Holding g
     \<Longrightarrow> resolver_step s (s\<lparr>rs_cache := finish_lease g succeeded (rs_cache s), rs_phase := Idle\<rparr>)"
| connector_call:
    "call_begin now alive host name i (rs_cache s) (rs_queue s) = (c, q, out)
     \<Longrightarrow> resolver_step s (s\<lparr>rs_cache := c, rs_queue := q\<rparr>)"
| worker_hit:
    "rs_worker s = None \<Longrightarrow> rs_queue s = i # q \<Longrightarrow> fresh now (rs_cache s) = (c, Some cached)
     \<Longrightarrow> resolver_step s (answer i (Ok cached) (s\<lparr>rs_cache := c, rs_queue := q\<rparr>))"
| worker_miss:
    "rs_worker s = None \<Longrightarrow> rs_queue s = i # q \<Longrightarrow> fresh now (rs_cache s) = (c, None)
     \<Longrightarrow> resolver_step s (s\<lparr>rs_cache := c, rs_queue := q, rs_worker := Some i\<rparr>)"
| worker_lookup:
    "rs_worker s = Some i \<Longrightarrow> accept_lookup now found (rs_cache s) = (c, r)
     \<Longrightarrow> resolver_step s (answer i r (s\<lparr>rs_cache := c\<rparr>))"

inductive resolver_reachable :: "'addr resolver_state \<Rightarrow> bool" where
  start: "resolver_reachable resolver_start"
| step: "resolver_reachable s \<Longrightarrow> resolver_step s s' \<Longrightarrow> resolver_reachable s'"

section \<open>Invariant\<close>

definition resolver_inv :: "'addr resolver_state \<Rightarrow> bool" where
  "resolver_inv s \<longleftrightarrow>
     length (rs_queue s) \<le> RESOLVER_QUEUE_CAPACITY
     \<and> (\<forall>g. rs_phase s = Holding g \<longleftrightarrow> rc_leased (rs_cache s) = Some g)
     \<and> (\<forall>g. rc_leased (rs_cache s) = Some g \<longrightarrow>
          (\<exists>c. rc_current (rs_cache s) = Some c \<and> ca_generation c = g))
     \<and> (rs_worker s \<noteq> None \<longrightarrow> rc_current (rs_cache s) = None)
     \<and> (\<forall>c. rc_current (rs_cache s) = Some c \<longrightarrow>
          ca_addresses c \<noteq> [] \<and> length (ca_addresses c) \<le> MAX_RESOLVED_ADDRESSES)"

text \<open>The part of it that speaks of the cache alone, and what each operation keeps of it.\<close>

definition cache_inv :: "'addr resolver_cache \<Rightarrow> bool" where
  "cache_inv c \<longleftrightarrow>
     (\<forall>g. rc_leased c = Some g \<longrightarrow> (\<exists>d. rc_current c = Some d \<and> ca_generation d = g))
     \<and> (\<forall>d. rc_current c = Some d \<longrightarrow> ca_addresses d \<noteq> [] \<and> length (ca_addresses d) \<le> MAX_RESOLVED_ADDRESSES)"

lemma fresh_cache:
  assumes "fresh now c = (c', d)" and "cache_inv c"
  shows "cache_inv c'" and "rc_leased c' = rc_leased c" and "rc_current c' = d"
    and "rc_current c = None \<Longrightarrow> d = None"
  using assms by (auto simp: fresh_def Let_def cache_inv_def split: option.splits if_splits)

lemma lease_cache:
  assumes "lease g c = (c', b)" and "cache_inv c"
  shows "cache_inv c'" and "rc_current c' = rc_current c"
    and "rc_leased c' = (if b then Some g else rc_leased c)" and "b \<Longrightarrow> rc_leased c = None"
    and "b \<Longrightarrow> rc_current c \<noteq> None"
  using assms by (auto simp: lease_def cache_inv_def split: option.splits if_splits)

lemma finish_cache:
  assumes "cache_inv c" and "rc_leased c = Some g"
  shows "cache_inv (finish_lease g b c)" and "rc_leased (finish_lease g b c) = None"
    and "rc_current c = None \<Longrightarrow> rc_current (finish_lease g b c) = None"
  using assms by (auto simp: finish_lease_def Let_def cache_inv_def split: option.splits)

lemma remdups_adj_length_le: "length (remdups_adj xs) \<le> length xs"
  by (induction xs rule: remdups_adj.induct) auto

lemma accept_cache:
  assumes "accept_lookup now found c = (c', r)" and "cache_inv c" and "rc_current c = None"
  shows "cache_inv c'" and "rc_leased c' = None"
  using assms remdups_adj_length_le[of "take MAX_RESOLVED_ADDRESSES (case found of Ok a \<Rightarrow> a | Err _ \<Rightarrow> [])"]
  by (auto simp: accept_lookup_def Let_def cache_inv_def split: result.splits if_splits)

lemma resolver_inv_cache:
  "resolver_inv s \<longleftrightarrow>
     length (rs_queue s) \<le> RESOLVER_QUEUE_CAPACITY \<and> cache_inv (rs_cache s)
     \<and> (\<forall>g. rs_phase s = Holding g \<longleftrightarrow> rc_leased (rs_cache s) = Some g)
     \<and> (rs_worker s \<noteq> None \<longrightarrow> rc_current (rs_cache s) = None)"
  by (auto simp: resolver_inv_def cache_inv_def)

lemma try_send_queue:
  "try_send alive i q = (q', r) \<Longrightarrow> length q \<le> RESOLVER_QUEUE_CAPACITY \<Longrightarrow> length q' \<le> RESOLVER_QUEUE_CAPACITY"
  by (auto simp: try_send_def split: if_splits)

lemma ensure_begin_cache:
  assumes "ensure_begin now alive i c q = (c', q', out)" and "cache_inv c" and "rc_leased c = None"
    and "length q \<le> RESOLVER_QUEUE_CAPACITY"
  shows "cache_inv c'" and "length q' \<le> RESOLVER_QUEUE_CAPACITY" and "rc_current c = None \<Longrightarrow> rc_current c' = None"
    and "rc_leased c' = (case out of Returns (Ok g) \<Rightarrow> Some g | _ \<Rightarrow> None)"
proof -
  obtain c1 d where f: "fresh now c = (c1, d)" by (cases "fresh now c")
  note F = fresh_cache[OF f assms(2)]
  have "cache_inv c' \<and> length q' \<le> RESOLVER_QUEUE_CAPACITY \<and> (rc_current c = None \<longrightarrow> rc_current c' = None)
        \<and> rc_leased c' = (case out of Returns (Ok g) \<Rightarrow> Some g | _ \<Rightarrow> None)"
  proof (cases d)
    case None
    obtain q1 r where t: "try_send alive i q = (q1, r)" by (cases "try_send alive i q")
    show ?thesis
      using assms(1,3) F None try_send_queue[OF t assms(4)]
      by (cases r) (auto simp: ensure_begin_def f t)
  next
    case (Some cached)
    obtain c2 b where l: "lease (ca_generation cached) c1 = (c2, b)" by (cases "lease (ca_generation cached) c1")
    show ?thesis
      using assms(1,3,4) F Some lease_cache[OF l F(1)] by (cases b) (auto simp: ensure_begin_def f l)
  qed
  then show "cache_inv c'" "length q' \<le> RESOLVER_QUEUE_CAPACITY" "rc_current c = None \<Longrightarrow> rc_current c' = None"
    "rc_leased c' = (case out of Returns (Ok g) \<Rightarrow> Some g | _ \<Rightarrow> None)" by auto
qed

lemma ensure_end_cache:
  assumes "ensure_end reply c = (c', r)" and "cache_inv c" and "rc_leased c = None"
  shows "cache_inv c'" and "rc_current c' = rc_current c"
    and "rc_leased c' = (case r of Ok g \<Rightarrow> Some g | Err _ \<Rightarrow> None)"
  using assms lease_cache[OF _ assms(2)]
  by (auto simp: ensure_end_def split: option.splits result.splits prod.splits bool.splits)

lemma call_begin_cache:
  assumes "call_begin now alive host name i c q = (c', q', out)" and "cache_inv c"
    and "length q \<le> RESOLVER_QUEUE_CAPACITY"
  shows "cache_inv c'" and "rc_leased c' = rc_leased c" and "length q' \<le> RESOLVER_QUEUE_CAPACITY"
    and "rc_current c = None \<Longrightarrow> rc_current c' = None"
  using assms fresh_cache[of now c _ _, OF _ assms(2)] try_send_queue[OF _ assms(3)]
  by (auto simp: call_begin_def split: if_splits prod.splits option.splits send_result.splits)

lemma answer_fields [simp]:
  "rs_cache (answer i r s) = rs_cache s" "rs_phase (answer i r s) = rs_phase s" "rs_worker (answer i r s) = None"
  "length (rs_queue (answer i r s)) \<le> length (rs_queue s)"
  by (simp_all add: answer_def take_resolver_batch_def)

lemma phase_after_simps [simp]: "phase_after r = Holding g \<longleftrightarrow> r = Ok g" "phase_after r \<noteq> Awaiting i"
  by (auto simp: phase_after_def split: result.splits)

lemma resolver_step_inv:
  assumes "resolver_step s s'" and "resolver_inv s"
  shows "resolver_inv s'"
  using assms
proof cases
  case (begin_returns now alive i c q r)
  have "rc_leased (rs_cache s) = None"
    using assms(2) begin_returns(2) by (cases "rc_leased (rs_cache s)") (auto simp: resolver_inv_cache)
  then show ?thesis
    using begin_returns(1) assms(2) ensure_begin_cache[OF begin_returns(3)]
    by (auto simp: resolver_inv_cache split: result.splits)
next
  case (begin_waits now alive i c q)
  have "rc_leased (rs_cache s) = None"
    using assms(2) begin_waits(2) by (cases "rc_leased (rs_cache s)") (auto simp: resolver_inv_cache)
  then show ?thesis
    using begin_waits(1) assms(2) ensure_begin_cache[OF begin_waits(3)] by (auto simp: resolver_inv_cache)
next
  case (reply_received i c r)
  have "rc_leased (rs_cache s) = None"
    using assms(2) reply_received(2) by (cases "rc_leased (rs_cache s)") (auto simp: resolver_inv_cache)
  then show ?thesis
    using reply_received(1) assms(2) ensure_end_cache[OF reply_received(3)]
    by (auto simp: resolver_inv_cache split: result.splits)
next
  case (attempt_dropped g succeeded)
  then show ?thesis
    using assms(2) finish_cache[of "rs_cache s" g succeeded] by (auto simp: resolver_inv_cache)
next
  case (connector_call now alive host name i c q out)
  then show ?thesis
    using assms(2) call_begin_cache[OF connector_call(2)] by (auto simp: resolver_inv_cache)
next
  case (worker_hit i q now c cached)
  then show ?thesis
    using assms(2) fresh_cache[OF worker_hit(4)]
      le_trans[OF answer_fields(4)[of i "Ok cached" "s\<lparr>rs_cache := c, rs_queue := q\<rparr>"]]
    by (auto simp: resolver_inv_cache)
next
  case (worker_miss i q now c)
  then show ?thesis
    using assms(2) fresh_cache[OF worker_miss(4)] by (auto simp: resolver_inv_cache)
next
  case (worker_lookup i now found c r)
  have "rc_leased (rs_cache s) = None" "rc_current (rs_cache s) = None"
    using assms(2) worker_lookup(2) by (cases "rc_leased (rs_cache s)"; auto simp: resolver_inv_def)+
  then show ?thesis
    using worker_lookup assms(2) accept_cache[OF worker_lookup(3)]
      le_trans[OF answer_fields(4)[of i r "s\<lparr>rs_cache := c\<rparr>"]]
    by (auto simp: resolver_inv_cache)
qed (auto simp: resolver_inv_cache)

text \<open>C34.
  In every interleaving of custom-error requests, connector calls and the resolver's worker: the
  queue never exceeds its capacity; a generation is leased exactly while a request holds it, so no
  lease outlives its request; a leased generation is the cached one and is not replaced by the
  worker; and cached address sets are non-empty and bounded.
\<close>

theorem resolver_leases_pinned:
  assumes "resolver_reachable s"
  shows "resolver_inv s"
  using assms
proof induction
  case start
  show ?case by (simp add: resolver_inv_def resolver_start_def cache_default_def)
next
  case (step s s')
  then show ?case using resolver_step_inv by blast
qed

text \<open>A request that misses the cache, is answered by a lookup and takes the lease.\<close>

definition sample_holding :: "nat resolver_state" where
  "sample_holding =
     \<lparr>rs_cache = \<lparr>rc_current = Some \<lparr>ca_addresses = [7], ca_generation = 1, ca_expires_at = 30000\<rparr>,
                  rc_generation = 1, rc_leased = Some 1\<rparr>,
      rs_queue = [], rs_worker = None,
      rs_replies = (\<lambda>i. if i = 3 then Some (Ok \<lparr>ca_addresses = [7], ca_generation = 1, ca_expires_at = 30000\<rparr>) else None),
      rs_phase = Holding 1\<rparr>"

lemma sample_holding_reachable: "resolver_reachable sample_holding"
proof -
  let ?d = "\<lparr>ca_addresses = [7 :: nat], ca_generation = 1, ca_expires_at = 30000\<rparr>"
  let ?c = "\<lparr>rc_current = Some ?d, rc_generation = 1, rc_leased = None\<rparr>"
  let ?s1 = "resolver_start\<lparr>rs_cache := cache_default, rs_queue := [3], rs_phase := Awaiting 3\<rparr>"
  let ?s2 = "?s1\<lparr>rs_cache := cache_default, rs_queue := [], rs_worker := Some 3\<rparr>"
  let ?s3 = "answer 3 (Ok ?d) (?s2\<lparr>rs_cache := ?c\<rparr>)"
  let ?s4 = "?s3\<lparr>rs_cache := ?c\<lparr>rc_leased := Some 1\<rparr>, rs_phase := phase_after (Ok 1)\<rparr>"
  note evaluate = ensure_begin_def ensure_end_def fresh_def lease_def try_send_def accept_lookup_def cache_default_def
    resolver_start_def answer_def take_resolver_batch_def resolver_batch_count_def RESOLVER_QUEUE_CAPACITY_def
    MAX_RESOLVED_ADDRESSES_def RESOLVER_CACHE_TTL_def phase_after_def Let_def
  have "resolver_reachable ?s1"
    by (rule step[OF start], rule begin_waits[where now = 0 and alive = True and i = 3]) (simp_all add: evaluate)
  then have "resolver_reachable ?s2"
    by (rule step, intro worker_miss[where now = 0 and i = 3]) (simp_all add: evaluate)
  then have "resolver_reachable ?s3"
    by (rule step, intro worker_lookup[where now = 0 and found = "Ok [7]"]) (simp_all add: evaluate)
  then have "resolver_reachable ?s4"
    by (rule step, intro reply_received[where i = 3]) (simp_all add: evaluate)
  also have "?s4 = sample_holding"
    by (simp add: evaluate sample_holding_def fun_eq_iff)
  finally show ?thesis .
qed

theorem resolver_leases_pinned_witness:
  "resolver_inv sample_holding \<and> rs_phase sample_holding = Holding 1"
  using resolver_leases_pinned[OF sample_holding_reachable] by (simp add: sample_holding_def)

end
