(* ===== verification/Rust_Paths.thy ===== *)
theory Rust_Paths
  imports Rust_Strings
begin

text \<open>
  What the sources use of \<open>std::path\<close> on Unix: the components of a path, its file name, its parent
  and joining. A path is its byte sequence; the parent is given by the components it consists of.
\<close>

type_synonym path = string

datatype component = RootDir | CurDir | ParentDir | Normal string

text \<open>\<open>Path::components\<close> on Unix: repeated separators and inner dots disappear, a leading dot stays.\<close>

definition path_components :: "path \<Rightarrow> component list" where
  "path_components p =
     (let parts = filter (\<lambda>s. s \<noteq> []) (split_char CHR ''/'' p);
          inner = (\<lambda>s. if s = ''..'' then ParentDir else Normal s)
      in if starts_with_char CHR ''/'' p then RootDir # map inner (filter (\<lambda>s. s \<noteq> ''.'') parts)
         else
           (case parts of
              [] \<Rightarrow> []
            | s # ss \<Rightarrow> (if s = ''.'' then CurDir else inner s) # map inner (filter (\<lambda>s. s \<noteq> ''.'') ss)))"

fun normal_components :: "component list \<Rightarrow> string list" where
  "normal_components [] = []"
| "normal_components (Normal s # cs) = s # normal_components cs"
| "normal_components (_ # cs) = normal_components cs"

definition path_file_name :: "path \<Rightarrow> string option" where
  "path_file_name p = (case rev (path_components p) of Normal s # _ \<Rightarrow> Some s | _ \<Rightarrow> None)"

definition path_parent :: "path \<Rightarrow> component list option" where
  "path_parent p =
     (case rev (path_components p) of
        [] \<Rightarrow> None
      | RootDir # _ \<Rightarrow> None
      | _ # rest \<Rightarrow> Some (rev rest))"

definition path_join :: "path \<Rightarrow> path \<Rightarrow> path" where
  "path_join p q =
     (if starts_with_char CHR ''/'' q then q
      else if p = [] \<or> ends_with_char CHR ''/'' p then p @ q
      else p @ ''/'' @ q)"

end
