(* ===== verification/Config.thy ===== *)
theory Config
  imports Url_Library Percent_Coding Rust_Paths
begin

text \<open>
  \<open>src/src/config.rs\<close>: the command line as its parser (\<open>clap\<close>) delivers it, and its
  validation into the typed configuration. Environment variables, URL parsing and the Redis URL
  check are in the record \<open>config_env\<close>.
\<close>

section \<open>Data\<close>

record cli =
  cli_ip :: "string option"
  cli_port :: "u16 option"
  cli_socket :: "path option"
  cli_ssl_key :: "path option"
  cli_ssl_cert :: "path option"
  cli_ssl_ca :: "path option"
  cli_ssl_request_cert :: bool
  cli_ssl_reject_unauthorized :: bool
  cli_ssl_protocol :: "string option"
  cli_ssl_ciphers :: "string option"
  cli_ssl_allow_rc4 :: bool
  cli_ssl_dhparam :: "path option"
  cli_api_ip :: "string option"
  cli_api_port :: "u16 option"
  cli_api_socket :: "path option"
  cli_api_ssl_key :: "path option"
  cli_api_ssl_cert :: "path option"
  cli_api_ssl_ca :: "path option"
  cli_api_ssl_request_cert :: bool
  cli_api_ssl_reject_unauthorized :: bool
  cli_client_ssl_key :: "path option"
  cli_client_ssl_cert :: "path option"
  cli_client_ssl_ca :: "path option"
  cli_client_ssl_request_cert :: bool
  cli_client_ssl_reject_unauthorized :: bool
  cli_default_target :: "string option"
  cli_error_target :: "string option"
  cli_error_path :: "path option"
  cli_redirect_port :: "u16 option"
  cli_redirect_to :: "u16 option"
  cli_pid_file :: "path option"
  cli_x_forward :: bool
  cli_prepend_path :: bool
  cli_include_prefix :: bool
  cli_auto_rewrite :: bool
  cli_change_origin :: bool
  cli_protocol_rewrite :: "string option"
  cli_custom_header :: "string list"
  cli_insecure :: bool
  cli_host_routing :: bool
  cli_metrics_ip :: "string option"
  cli_metrics_port :: "u16 option"
  cli_metrics_socket :: "path option"
  cli_log_level :: string
  cli_timeout :: "u64 option"
  cli_proxy_timeout :: "u64 option"
  cli_storage_backend :: "string option"
  cli_keep_alive_timeout :: "u64 option"

datatype listener_config = Tcp string | Unix path

record tls_config =
  tls_key :: "path option"
  tls_cert :: "path option"
  tls_ca :: "path option"
  tls_key_passphrase :: "string option"
  tls_request_cert :: bool
  tls_reject_unauthorized :: bool
  tls_protocol :: "string option"
  tls_ciphers :: "string option"
  tls_dhparam :: "path option"

datatype store_config = StoreMemory | StoreRedis | StoreSidecar

record redis_runtime_config =
  rr_url :: string
  rr_route_key :: string
  rr_operation_timeout :: nat

record sidecar_runtime_config =
  sr_url :: string
  sr_bearer_token :: string
  sr_connect_timeout :: nat
  sr_request_timeout :: nat

datatype log_level = LogDebug | LogInfo | LogWarn | LogError

record proxy_options =
  x_forward :: bool
  prepend_path :: bool
  include_prefix :: bool
  auto_rewrite :: bool
  change_origin :: bool
  protocol_rewrite :: "string option"
  custom_headers :: "(string, string) btree"
  verify_upstream_tls :: bool
  host_routing :: bool
  timeout_ms :: "u64 option"
  proxy_timeout_ms :: "u64 option"
  keep_alive_timeout_ms :: "u64 option"

record app_config =
  public_listener :: listener_config
  api_listener :: listener_config
  metrics_listener :: "listener_config option"
  public_tls :: "tls_config option"
  api_tls :: "tls_config option"
  client_tls :: "tls_config option"
  default_target :: "url_view option"
  error_target :: "url_view option"
  error_path :: "path option"
  redirect_port :: "u16 option"
  redirect_to :: "u16 option"
  pid_file :: "path option"
  app_auth_token :: "string option"
  app_log_level :: log_level
  app_store :: store_config
  app_redis :: "redis_runtime_config option"
  app_sidecar :: "sidecar_runtime_config option"
  app_proxy :: proxy_options

datatype config_error =
    ConflictingErrorHandlers
  | RedirectWithoutTls
  | IncompleteKeyPair string
  | InvalidLogLevel string
  | InvalidTarget string string
  | UnknownStorageBackend string
  | Rc4Unsupported
  | InvalidCustomHeader string
  | ApiPortOverflow
  | UnsupportedClientTlsFlag string
  | MissingRedisUrl
  | InvalidRedisUrl
  | InvalidRedisRouteKey
  | InvalidRedisOperationTimeout
  | MissingSidecarUrl
  | InvalidSidecarUrl
  | MissingSidecarBearerToken
  | InvalidSidecarConnectTimeout
  | InvalidSidecarRequestTimeout
  | InvalidListenerTlsPolicy string string string
  | InvalidRequiredAuthPolicy
  | MissingRequiredAuthToken

section \<open>The environment\<close>

datatype var_result = Present string | NotPresent | NotUnicode

record config_env =
  ce_var :: "string \<Rightarrow> var_result"
  ce_url :: "string \<Rightarrow> (string, url_view) result"
  ce_redis_url :: "string \<Rightarrow> bool"

definition env_nonempty :: "config_env \<Rightarrow> string \<Rightarrow> string option" where
  "env_nonempty env name =
     (case ce_var env name of
        Present value \<Rightarrow> if value \<noteq> [] then Some value else None
      | _ \<Rightarrow> None)"

section \<open>Validation\<close>

definition validate_listener_tls_policy ::
  "bool \<Rightarrow> bool \<Rightarrow> path option \<Rightarrow> string \<Rightarrow> string \<Rightarrow> string \<Rightarrow> (config_error, unit) result" where
  "validate_listener_tls_policy reject_unauthorized request_cert ca reject_flag request_flag ca_flag =
     (if reject_unauthorized \<and> (\<not> request_cert \<or> (case ca of None \<Rightarrow> True | Some p \<Rightarrow> p = []))
      then Err (InvalidListenerTlsPolicy reject_flag request_flag ca_flag)
      else Ok ())"

definition parse_required_auth_policy :: "config_env \<Rightarrow> (config_error, bool) result" where
  "parse_required_auth_policy env =
     (case ce_var env ''PINGORA_REQUIRE_AUTH_TOKEN'' of
        NotPresent \<Rightarrow> Ok False
      | Present value \<Rightarrow>
          if value = ''true'' then Ok True
          else if value = ''false'' then Ok False
          else Err InvalidRequiredAuthPolicy
      | NotUnicode \<Rightarrow> Err InvalidRequiredAuthPolicy)"

definition validate_pair :: "'a option \<Rightarrow> 'a option \<Rightarrow> string \<Rightarrow> (config_error, unit) result" where
  "validate_pair key cert names =
     (if (key \<noteq> None) \<noteq> (cert \<noteq> None) then Err (IncompleteKeyPair names) else Ok ())"

definition nonzero_port :: "u16 option \<Rightarrow> u16 option" where
  "nonzero_port value = (case value of Some p \<Rightarrow> if p \<noteq> 0 then Some p else None | None \<Rightarrow> None)"

definition tcp_address :: "string \<Rightarrow> u16 \<Rightarrow> string" where
  "tcp_address host port =
     (let host = (if host = ''*'' then [] else host)
      in if CHR '':'' \<in> set host \<and> \<not> starts_with_char CHR ''['' host
         then ''['' @ host @ '']:'' @ decimal (unat port)
         else host @ '':'' @ decimal (unat port))"

record inherited_tls =
  inh_protocol :: "string option"
  inh_ciphers :: "string option"
  inh_dhparam :: "path option"

definition make_tls_config ::
  "path option \<Rightarrow> path option \<Rightarrow> path option \<Rightarrow> string option \<Rightarrow> bool \<Rightarrow> bool \<Rightarrow> inherited_tls \<Rightarrow> bool
   \<Rightarrow> tls_config option" where
  "make_tls_config key cert ca key_passphrase request_cert reject_unauthorized inherited ca_activates =
     (if key = None \<and> cert = None \<and> (\<not> ca_activates \<or> ca = None) then None
      else
        Some \<lparr>tls_key = key, tls_cert = cert, tls_ca = ca, tls_key_passphrase = key_passphrase,
              tls_request_cert = request_cert, tls_reject_unauthorized = reject_unauthorized,
              tls_protocol = inh_protocol inherited, tls_ciphers = inh_ciphers inherited,
              tls_dhparam = inh_dhparam inherited\<rparr>)"

section \<open>Targets\<close>

definition config_hex_value :: "char \<Rightarrow> nat" where
  "config_hex_value c =
     (let b = byte c
      in if 48 \<le> b \<and> b \<le> 57 then b - 48
         else if 97 \<le> b \<and> b \<le> 102 then b - 97 + 10
         else if 65 \<le> b \<and> b \<le> 70 then b - 65 + 10
         else 0)"

fun socket_host_bytes :: "string \<Rightarrow> bool \<Rightarrow> (bool \<times> string) option" where
  "socket_host_bytes [] has_percent_encoding = Some (has_percent_encoding, [])"
| "socket_host_bytes (c # s) has_percent_encoding =
     (if c = CHR ''%'' then
        (case s of
           h # l # rest \<Rightarrow>
             if \<not> is_ascii_hexdigit h \<or> \<not> is_ascii_hexdigit l then None
             else
               map_option (map_prod id (\<lambda>d. char_of (config_hex_value h * 16 + config_hex_value l) # d))
                 (socket_host_bytes rest True)
         | _ \<Rightarrow> None)
      else map_option (map_prod id (\<lambda>d. c # d)) (socket_host_bytes s has_percent_encoding))"

definition is_percent_encoded_socket_host :: "string \<Rightarrow> bool" where
  "is_percent_encoded_socket_host host =
     (case socket_host_bytes host False of
        None \<Rightarrow> False
      | Some (has_percent_encoding, decoded) \<Rightarrow>
          if \<not> utf8_valid decoded then False
          else has_percent_encoding \<and> decoded \<noteq> [] \<and> CHR 0x00 \<notin> set decoded
               \<and> starts_with_char CHR ''/'' decoded)"

definition parse_target :: "config_env \<Rightarrow> string option \<Rightarrow> string \<Rightarrow> (config_error, url_view option) result" where
  "parse_target env value kind =
     (case value of
        None \<Rightarrow> Ok None
      | Some value \<Rightarrow>
          (case ce_url env value of
             Err _ \<Rightarrow> Err (InvalidTarget kind value)
           | Ok url \<Rightarrow>
               (let valid =
                      (if url_scheme url \<in> {''http'', ''https''}
                       then (case url_host url of None \<Rightarrow> False | Some host \<Rightarrow> host \<noteq> [])
                       else if url_scheme url \<in> {''http+unix'', ''unix+http''}
                       then is_percent_encoded_socket_host (url_host_port_text url)
                       else False)
                in if \<not> valid then Err (InvalidTarget kind value) else Ok (Some url))))"

definition parse_error_target :: "config_env \<Rightarrow> string option \<Rightarrow> (config_error, url_view option) result" where
  "parse_error_target env value =
     parse_target env
       (map_option (\<lambda>t. if \<not> ends_with_char CHR ''/'' t then t @ ''/'' else t) value)
       ''error target''"

section \<open>Single options\<close>

definition parse_log_level :: "string \<Rightarrow> (config_error, log_level) result" where
  "parse_log_level value =
     (let v = to_ascii_lowercase value
      in if v = ''debug'' then Ok LogDebug
         else if v = ''info'' then Ok LogInfo
         else if v = ''warn'' then Ok LogWarn
         else if v = ''error'' then Ok LogError
         else Err (InvalidLogLevel value))"

definition parse_store :: "string option \<Rightarrow> (config_error, store_config) result" where
  "parse_store value =
     (let v = (case value of Some v \<Rightarrow> v | None \<Rightarrow> ''memory'')
      in if v = ''memory'' then Ok StoreMemory
         else if v = ''redis'' then Ok StoreRedis
         else if v = ''sidecar'' then Ok StoreSidecar
         else Err (UnknownStorageBackend (case value of Some v \<Rightarrow> v | None \<Rightarrow> [])))"

definition positive_millis :: "string \<Rightarrow> nat option" where
  "positive_millis value =
     (case parse_unsigned 64 value of
        None \<Rightarrow> None
      | Some n \<Rightarrow> if 0 < n then Some n else None)"

definition positive_duration_from_env ::
  "config_env \<Rightarrow> string \<Rightarrow> nat \<Rightarrow> config_error \<Rightarrow> (config_error, nat) result" where
  "positive_duration_from_env env name default_ms invalid =
     (case ce_var env name of
        Present value \<Rightarrow> ok_or invalid (positive_millis value)
      | NotPresent \<Rightarrow> Ok default_ms
      | NotUnicode \<Rightarrow> Err invalid)"

definition parse_redis_runtime ::
  "config_env \<Rightarrow> store_config \<Rightarrow> (config_error, redis_runtime_config option) result" where
  "parse_redis_runtime env store =
     (if store \<noteq> StoreRedis then Ok None
      else
        and_then (ok_or MissingRedisUrl (env_nonempty env ''PINGORA_REDIS_URL'')) (\<lambda>url.
        if \<not> ce_redis_url env url then Err InvalidRedisUrl
        else
          and_then
            (case ce_var env ''PINGORA_REDIS_ROUTE_KEY'' of
               Present value \<Rightarrow> if value \<noteq> [] then Ok value else Err InvalidRedisRouteKey
             | NotPresent \<Rightarrow> Ok ''pingora-reverse-proxy:routes:v1''
             | NotUnicode \<Rightarrow> Err InvalidRedisRouteKey) (\<lambda>route_key.
          and_then
            (case ce_var env ''PINGORA_REDIS_OPERATION_TIMEOUT_MS'' of
               Present value \<Rightarrow> ok_or InvalidRedisOperationTimeout (positive_millis value)
             | NotPresent \<Rightarrow> Ok 2000
             | NotUnicode \<Rightarrow> Err InvalidRedisOperationTimeout) (\<lambda>operation_timeout.
          Ok (Some \<lparr>rr_url = url, rr_route_key = route_key, rr_operation_timeout = operation_timeout\<rparr>)))))"

definition parse_sidecar_runtime ::
  "config_env \<Rightarrow> store_config \<Rightarrow> (config_error, sidecar_runtime_config option) result" where
  "parse_sidecar_runtime env store =
     (if store \<noteq> StoreSidecar then Ok None
      else
        and_then (ok_or MissingSidecarUrl (env_nonempty env ''PINGORA_SIDECAR_URL'')) (\<lambda>url.
        case ce_url env url of
          Err _ \<Rightarrow> Err InvalidSidecarUrl
        | Ok parsed \<Rightarrow>
            if url_scheme parsed \<notin> {''http'', ''https''}
               \<or> url_host parsed = None
               \<or> url_username parsed \<noteq> []
               \<or> url_password parsed \<noteq> None
               \<or> url_path_of parsed \<noteq> ''/''
               \<or> url_query_of parsed \<noteq> None
               \<or> url_fragment parsed \<noteq> None
            then Err InvalidSidecarUrl
            else
              and_then (ok_or MissingSidecarBearerToken (env_nonempty env ''PINGORA_SIDECAR_BEARER_TOKEN''))
                (\<lambda>bearer_token.
              and_then (positive_duration_from_env env ''PINGORA_SIDECAR_CONNECT_TIMEOUT_MS'' 1000
                          InvalidSidecarConnectTimeout) (\<lambda>connect_timeout.
              and_then (positive_duration_from_env env ''PINGORA_SIDECAR_REQUEST_TIMEOUT_MS'' 2000
                          InvalidSidecarRequestTimeout) (\<lambda>request_timeout.
              Ok (Some \<lparr>sr_url = url, sr_bearer_token = bearer_token,
                        sr_connect_timeout = connect_timeout, sr_request_timeout = request_timeout\<rparr>))))))"

fun parse_custom_headers ::
  "string list \<Rightarrow> (string, string) btree \<Rightarrow> (config_error, (string, string) btree) result" where
  "parse_custom_headers [] headers = Ok headers"
| "parse_custom_headers (value # values) headers =
     (case split_once CHR '':'' (str_trim value) of
        None \<Rightarrow> Err (InvalidCustomHeader value)
      | Some (name, header_value) \<Rightarrow>
          (let name = str_trim name
           in if name = [] then Err (InvalidCustomHeader value)
              else parse_custom_headers values (bt_insert name (str_trim header_value) headers)))"

section \<open>The whole configuration\<close>

definition DEFAULT_TLS_CIPHERS :: string where
  "DEFAULT_TLS_CIPHERS =
     ''ECDHE-RSA-AES128-GCM-SHA256:'' @ ''ECDHE-ECDSA-AES128-GCM-SHA256:''
     @ ''ECDHE-RSA-AES256-GCM-SHA384:'' @ ''ECDHE-ECDSA-AES256-GCM-SHA384:''
     @ ''DHE-RSA-AES128-GCM-SHA256:'' @ ''ECDHE-RSA-AES128-SHA256:'' @ ''DHE-RSA-AES128-SHA256:''
     @ ''ECDHE-RSA-AES256-SHA384:'' @ ''DHE-RSA-AES256-SHA384:'' @ ''ECDHE-RSA-AES256-SHA256:''
     @ ''DHE-RSA-AES256-SHA256:''
     @ ''HIGH:!RC4:!aNULL:!eNULL:!EXPORT:!DES:!RC4:!MD5:!PSK:!SRP:!CAMELLIA''"

definition validate_cli :: "cli \<Rightarrow> (config_error, unit) result" where
  "validate_cli cli =
     (if cli_client_ssl_request_cert cli
      then Err (UnsupportedClientTlsFlag ''--client-ssl-request-cert'')
      else if cli_client_ssl_reject_unauthorized cli
      then Err (UnsupportedClientTlsFlag ''--client-ssl-reject-unauthorized'')
      else if cli_ssl_allow_rc4 cli then Err Rc4Unsupported
      else if cli_error_target cli \<noteq> None \<and> cli_error_path cli \<noteq> None then Err ConflictingErrorHandlers
      else
        and_then (validate_pair (cli_ssl_key cli) (cli_ssl_cert cli) ''--ssl-key and --ssl-cert'') (\<lambda>_.
        and_then (validate_pair (cli_api_ssl_key cli) (cli_api_ssl_cert cli)
                    ''--api-ssl-key and --api-ssl-cert'') (\<lambda>_.
        and_then (validate_pair (cli_client_ssl_key cli) (cli_client_ssl_cert cli)
                    ''--client-ssl-key and --client-ssl-cert'') (\<lambda>_.
        and_then (validate_listener_tls_policy (cli_ssl_reject_unauthorized cli)
                    (cli_ssl_request_cert cli) (cli_ssl_ca cli)
                    ''--ssl-reject-unauthorized'' ''--ssl-request-cert'' ''--ssl-ca'') (\<lambda>_.
        validate_listener_tls_policy (cli_api_ssl_reject_unauthorized cli)
          (cli_api_ssl_request_cert cli) (cli_api_ssl_ca cli)
          ''--api-ssl-reject-unauthorized'' ''--api-ssl-request-cert'' ''--api-ssl-ca'')))))"

definition public_port_of :: "cli \<Rightarrow> u16" where
  "public_port_of cli = (case nonzero_port (cli_port cli) of Some p \<Rightarrow> p | None \<Rightarrow> 8000)"

definition make_public_listener :: "cli \<Rightarrow> listener_config" where
  "make_public_listener cli =
     (case cli_socket cli of
        Some p \<Rightarrow> Unix p
      | None \<Rightarrow> Tcp (tcp_address (case cli_ip cli of Some ip \<Rightarrow> ip | None \<Rightarrow> []) (public_port_of cli)))"

definition make_api_listener :: "cli \<Rightarrow> (config_error, listener_config) result" where
  "make_api_listener cli =
     (case cli_api_socket cli of
        Some p \<Rightarrow> Ok (Unix p)
      | None \<Rightarrow>
          and_then
            (case nonzero_port (cli_api_port cli) of
               Some api_port \<Rightarrow> Ok api_port
             | None \<Rightarrow>
                 if cli_socket cli \<noteq> None then Ok 8001
                 else if public_port_of cli = - 1 then Err ApiPortOverflow
                 else Ok (public_port_of cli + 1)) (\<lambda>api_port.
          Ok (Tcp (tcp_address (case cli_api_ip cli of Some ip \<Rightarrow> ip | None \<Rightarrow> ''localhost'') api_port))))"

definition make_metrics_listener :: "cli \<Rightarrow> listener_config option" where
  "make_metrics_listener cli =
     (case (cli_metrics_socket cli, nonzero_port (cli_metrics_port cli)) of
        (Some p, _) \<Rightarrow> Some (Unix p)
      | (None, Some port) \<Rightarrow>
          Some (Tcp (tcp_address (case cli_metrics_ip cli of Some ip \<Rightarrow> ip | None \<Rightarrow> []) port))
      | (None, None) \<Rightarrow> None)"

definition make_proxy_options :: "cli \<Rightarrow> (string, string) btree \<Rightarrow> proxy_options" where
  "make_proxy_options cli headers =
     \<lparr>x_forward = cli_x_forward cli, prepend_path = cli_prepend_path cli,
      include_prefix = cli_include_prefix cli, auto_rewrite = cli_auto_rewrite cli,
      change_origin = cli_change_origin cli, protocol_rewrite = cli_protocol_rewrite cli,
      custom_headers = headers, verify_upstream_tls = (\<not> cli_insecure cli),
      host_routing = cli_host_routing cli, timeout_ms = cli_timeout cli,
      proxy_timeout_ms = cli_proxy_timeout cli,
      keep_alive_timeout_ms =
        Some (case cli_keep_alive_timeout cli of
                Some t \<Rightarrow> if t \<noteq> 0 then t else 5000
              | None \<Rightarrow> 5000)\<rparr>"

definition make_inherited_tls :: "cli \<Rightarrow> inherited_tls" where
  "make_inherited_tls cli =
     \<lparr>inh_protocol = cli_ssl_protocol cli,
      inh_ciphers = Some (case cli_ssl_ciphers cli of Some c \<Rightarrow> c | None \<Rightarrow> DEFAULT_TLS_CIPHERS),
      inh_dhparam = cli_ssl_dhparam cli\<rparr>"

definition try_from :: "config_env \<Rightarrow> cli \<Rightarrow> (config_error, app_config) result" where
  "try_from env cli =
     and_then (validate_cli cli) (\<lambda>_.
     if nonzero_port (cli_redirect_port cli) \<noteq> None \<and> (cli_ssl_key cli = None \<or> cli_ssl_cert cli = None)
     then Err RedirectWithoutTls
     else
     and_then (make_api_listener cli) (\<lambda>api.
     and_then (parse_target env (cli_default_target cli) ''default target'') (\<lambda>dt.
     and_then (parse_error_target env (cli_error_target cli)) (\<lambda>et.
     and_then (parse_log_level (cli_log_level cli)) (\<lambda>level.
     and_then (parse_store (cli_storage_backend cli)) (\<lambda>store.
     and_then (parse_redis_runtime env store) (\<lambda>redis.
     and_then (parse_sidecar_runtime env store) (\<lambda>sidecar.
     and_then (parse_custom_headers (cli_custom_header cli) []) (\<lambda>headers.
     and_then (parse_required_auth_policy env) (\<lambda>require_auth_token.
     let token = env_nonempty env ''CONFIGPROXY_AUTH_TOKEN''
     in if require_auth_token \<and> token = None then Err MissingRequiredAuthToken
        else
          Ok \<lparr>public_listener = make_public_listener cli, api_listener = api,
              metrics_listener = make_metrics_listener cli,
              public_tls = make_tls_config (cli_ssl_key cli) (cli_ssl_cert cli) (cli_ssl_ca cli)
                (env_nonempty env ''CONFIGPROXY_SSL_KEY_PASSPHRASE'') (cli_ssl_request_cert cli)
                (cli_ssl_reject_unauthorized cli) (make_inherited_tls cli) False,
              api_tls = make_tls_config (cli_api_ssl_key cli) (cli_api_ssl_cert cli) (cli_api_ssl_ca cli)
                (env_nonempty env ''CONFIGPROXY_API_SSL_KEY_PASSPHRASE'') (cli_api_ssl_request_cert cli)
                (cli_api_ssl_reject_unauthorized cli) (make_inherited_tls cli) False,
              client_tls = make_tls_config (cli_client_ssl_key cli) (cli_client_ssl_cert cli)
                (cli_client_ssl_ca cli) None (cli_client_ssl_request_cert cli)
                (cli_client_ssl_reject_unauthorized cli) (make_inherited_tls cli) True,
              default_target = dt, error_target = et, error_path = cli_error_path cli,
              redirect_port = nonzero_port (cli_redirect_port cli),
              redirect_to = nonzero_port (cli_redirect_to cli), pid_file = cli_pid_file cli,
              app_auth_token = token, app_log_level = level, app_store = store, app_redis = redis,
              app_sidecar = sidecar, app_proxy = make_proxy_options cli headers\<rparr>))))))))))"

section \<open>What an accepted configuration guarantees\<close>

definition tls_complete :: "tls_config \<Rightarrow> bool" where
  "tls_complete t \<longleftrightarrow> tls_key t \<noteq> None \<and> tls_cert t \<noteq> None"

definition listener_tls_ok :: "tls_config option \<Rightarrow> bool" where
  "listener_tls_ok t \<longleftrightarrow>
     (case t of
        None \<Rightarrow> True
      | Some t \<Rightarrow> tls_complete t
          \<and> (tls_reject_unauthorized t \<longrightarrow> tls_request_cert t \<and> tls_ca t \<noteq> None \<and> tls_ca t \<noteq> Some []))"

definition target_ok :: "url_view \<Rightarrow> bool" where
  "target_ok u \<longleftrightarrow>
     url_scheme u \<in> {''http'', ''https''} \<and> url_host u \<noteq> None \<and> url_host u \<noteq> Some []
     \<or> url_scheme u \<in> {''http+unix'', ''unix+http''} \<and> is_percent_encoded_socket_host (url_host_port_text u)"

definition config_wf :: "app_config \<Rightarrow> bool" where
  "config_wf app \<longleftrightarrow>
     listener_tls_ok (public_tls app) \<and> listener_tls_ok (api_tls app)
     \<and> (\<forall>t. client_tls app = Some t \<longrightarrow> (tls_complete t \<or> tls_key t = None \<and> tls_cert t = None \<and> tls_ca t \<noteq> None)
          \<and> \<not> tls_request_cert t \<and> \<not> tls_reject_unauthorized t)
     \<and> (redirect_port app \<noteq> None \<longrightarrow> public_tls app \<noteq> None)
     \<and> redirect_port app \<noteq> Some 0 \<and> redirect_to app \<noteq> Some 0
     \<and> \<not> (error_target app \<noteq> None \<and> error_path app \<noteq> None)
     \<and> (\<forall>u. default_target app = Some u \<or> error_target app = Some u \<longrightarrow> target_ok u)
     \<and> app_auth_token app \<noteq> Some []
     \<and> (app_store app = StoreRedis \<longleftrightarrow> app_redis app \<noteq> None)
     \<and> (app_store app = StoreSidecar \<longleftrightarrow> app_sidecar app \<noteq> None)
     \<and> (\<forall>r. app_redis app = Some r \<longrightarrow> rr_url r \<noteq> [] \<and> rr_route_key r \<noteq> [] \<and> 0 < rr_operation_timeout r)
     \<and> (\<forall>r. app_sidecar app = Some r \<longrightarrow> sr_url r \<noteq> [] \<and> sr_bearer_token r \<noteq> []
          \<and> 0 < sr_connect_timeout r \<and> 0 < sr_request_timeout r)
     \<and> bt_wf (custom_headers (app_proxy app))
     \<and> (\<forall>n v. bt_get n (custom_headers (app_proxy app)) = Some v \<longrightarrow> n \<noteq> [])
     \<and> keep_alive_timeout_ms (app_proxy app) \<noteq> None \<and> keep_alive_timeout_ms (app_proxy app) \<noteq> Some 0"

lemma env_nonempty_Some: "env_nonempty env n = Some v \<Longrightarrow> v \<noteq> []"
  by (auto simp: env_nonempty_def split: var_result.splits if_splits)

lemma positive_millis_Some: "positive_millis v = Some n \<Longrightarrow> 0 < n"
  by (auto simp: positive_millis_def split: option.splits if_splits)

lemma ok_or_eq_Ok: "ok_or e x = Ok a \<longleftrightarrow> x = Some a"
  by (cases x) simp_all

lemma positive_duration_Ok:
  "positive_duration_from_env env n d e = Ok t \<Longrightarrow> 0 < d \<Longrightarrow> 0 < t"
  by (auto simp: positive_duration_from_env_def ok_or_eq_Ok dest: positive_millis_Some split: var_result.splits)

lemma parse_target_Ok: "parse_target env v kind = Ok (Some u) \<Longrightarrow> target_ok u"
  by (auto simp: parse_target_def Let_def target_ok_def split: option.splits result.splits if_splits)

lemma parse_error_target_Ok:
  "parse_error_target env v = Ok t \<Longrightarrow> (\<forall>u. t = Some u \<longrightarrow> target_ok u) \<and> (t \<noteq> None \<longrightarrow> v \<noteq> None)"
  by (cases v) (auto simp: parse_error_target_def parse_target_Ok, auto simp: parse_target_def)

lemma parse_redis_Ok:
  assumes "parse_redis_runtime env store = Ok r"
  shows "(store = StoreRedis \<longleftrightarrow> r \<noteq> None)
    \<and> (\<forall>c. r = Some c \<longrightarrow> rr_url c \<noteq> [] \<and> rr_route_key c \<noteq> [] \<and> 0 < rr_operation_timeout c)"
  using assms
  by (auto simp: parse_redis_runtime_def ok_or_eq_Ok dest: env_nonempty_Some positive_millis_Some
      split: if_splits var_result.splits)

lemma parse_sidecar_Ok:
  assumes "parse_sidecar_runtime env store = Ok r"
  shows "(store = StoreSidecar \<longleftrightarrow> r \<noteq> None)
    \<and> (\<forall>c. r = Some c \<longrightarrow> sr_url c \<noteq> [] \<and> sr_bearer_token c \<noteq> [] \<and> 0 < sr_connect_timeout c \<and> 0 < sr_request_timeout c)"
proof (cases "store = StoreSidecar")
  case True
  then obtain url where url: "env_nonempty env ''PINGORA_SIDECAR_URL'' = Some url"
    using assms by (auto simp: parse_sidecar_runtime_def ok_or_eq_Ok)
  with True obtain parsed where p: "ce_url env url = Ok parsed"
    using assms by (cases "ce_url env url") (auto simp: parse_sidecar_runtime_def)
  with True url obtain tok ct rt where r: "r = Some \<lparr>sr_url = url, sr_bearer_token = tok, sr_connect_timeout = ct, sr_request_timeout = rt\<rparr>"
    "env_nonempty env ''PINGORA_SIDECAR_BEARER_TOKEN'' = Some tok"
    "positive_duration_from_env env ''PINGORA_SIDECAR_CONNECT_TIMEOUT_MS'' 1000 InvalidSidecarConnectTimeout = Ok ct"
    "positive_duration_from_env env ''PINGORA_SIDECAR_REQUEST_TIMEOUT_MS'' 2000 InvalidSidecarRequestTimeout = Ok rt"
    using assms by (auto simp: parse_sidecar_runtime_def ok_or_eq_Ok split: if_splits)
  have "url \<noteq> []" "tok \<noteq> []" "0 < ct" "0 < rt"
    using env_nonempty_Some[OF url] env_nonempty_Some[OF r(2)] positive_duration_Ok[OF r(3)] positive_duration_Ok[OF r(4)]
    by simp_all
  then show ?thesis using True r(1) by simp
next
  case False
  then show ?thesis using assms by (simp add: parse_sidecar_runtime_def)
qed

lemma parse_custom_headers_Ok:
  "parse_custom_headers vs acc = Ok h \<Longrightarrow> bt_wf acc \<Longrightarrow> (\<forall>n v. bt_get n acc = Some v \<longrightarrow> n \<noteq> []) \<Longrightarrow>
   bt_wf h \<and> (\<forall>n v. bt_get n h = Some v \<longrightarrow> n \<noteq> [])"
proof (induction vs acc rule: parse_custom_headers.induct)
  case (2 raw vs acc)
  obtain name hv where s: "split_once CHR '':'' (str_trim raw) = Some (name, hv)" "str_trim name \<noteq> []"
    and r: "parse_custom_headers vs (bt_insert (str_trim name) (str_trim hv) acc) = Ok h"
    using "2.prems"(1) by (auto simp: Let_def split: option.splits if_splits)
  have "bt_wf (bt_insert (str_trim name) (str_trim hv) acc)"
    "\<forall>n v. bt_get n (bt_insert (str_trim name) (str_trim hv) acc) = Some v \<longrightarrow> n \<noteq> []"
    using "2.prems"(2,3) s(2) by (simp_all add: wf_intros map_laws)
  then show ?case using "2.IH"[OF s(1) refl refl s(2) r] by blast
qed simp

lemma make_tls_listener_ok:
  assumes "validate_pair key cert names = Ok u" "validate_listener_tls_policy rej req ca f1 f2 f3 = Ok u'"
  shows "listener_tls_ok (make_tls_config key cert ca pass req rej inh False)"
  using assms
  by (auto simp: listener_tls_ok_def make_tls_config_def tls_complete_def validate_pair_def
      validate_listener_tls_policy_def split: if_splits option.splits)

lemma validate_cli_Ok:
  assumes "validate_cli cli = Ok u"
  shows "\<not> cli_client_ssl_request_cert cli" "\<not> cli_client_ssl_reject_unauthorized cli"
    "cli_error_target cli = None \<or> cli_error_path cli = None"
    "(cli_client_ssl_key cli = None) = (cli_client_ssl_cert cli = None)"
    "listener_tls_ok (make_tls_config (cli_ssl_key cli) (cli_ssl_cert cli) (cli_ssl_ca cli) p1
       (cli_ssl_request_cert cli) (cli_ssl_reject_unauthorized cli) inh False)"
    "listener_tls_ok (make_tls_config (cli_api_ssl_key cli) (cli_api_ssl_cert cli) (cli_api_ssl_ca cli) p2
       (cli_api_ssl_request_cert cli) (cli_api_ssl_reject_unauthorized cli) inh False)"
  using assms make_tls_listener_ok
  by (auto simp: validate_cli_def split: if_splits) (auto simp: validate_pair_def split: if_splits)


text \<open>Which computation filled which field of an accepted configuration.\<close>

lemma try_from_fields:
  assumes "try_from env cli = Ok app"
  shows "validate_cli cli = Ok ()"
    and "nonzero_port (cli_redirect_port cli) \<noteq> None \<Longrightarrow> cli_ssl_key cli \<noteq> None"
    and "public_tls app = make_tls_config (cli_ssl_key cli) (cli_ssl_cert cli) (cli_ssl_ca cli)
           (env_nonempty env ''CONFIGPROXY_SSL_KEY_PASSPHRASE'') (cli_ssl_request_cert cli)
           (cli_ssl_reject_unauthorized cli) (make_inherited_tls cli) False"
    and "api_tls app = make_tls_config (cli_api_ssl_key cli) (cli_api_ssl_cert cli) (cli_api_ssl_ca cli)
           (env_nonempty env ''CONFIGPROXY_API_SSL_KEY_PASSPHRASE'') (cli_api_ssl_request_cert cli)
           (cli_api_ssl_reject_unauthorized cli) (make_inherited_tls cli) False"
    and "client_tls app = make_tls_config (cli_client_ssl_key cli) (cli_client_ssl_cert cli) (cli_client_ssl_ca cli)
           None (cli_client_ssl_request_cert cli) (cli_client_ssl_reject_unauthorized cli) (make_inherited_tls cli) True"
    and "parse_target env (cli_default_target cli) ''default target'' = Ok (default_target app)"
    and "parse_error_target env (cli_error_target cli) = Ok (error_target app)"
    and "parse_redis_runtime env (app_store app) = Ok (app_redis app)"
    and "parse_sidecar_runtime env (app_store app) = Ok (app_sidecar app)"
    and "parse_custom_headers (cli_custom_header cli) [] = Ok (custom_headers (app_proxy app))"
    and "app_proxy app = make_proxy_options cli (custom_headers (app_proxy app))"
    and "error_path app = cli_error_path cli"
    and "redirect_port app = nonzero_port (cli_redirect_port cli)" "redirect_to app = nonzero_port (cli_redirect_to cli)"
    and "app_auth_token app = env_nonempty env ''CONFIGPROXY_AUTH_TOKEN''"
    and "make_api_listener cli = Ok (api_listener app)"
    and "parse_required_auth_policy env = Ok True \<Longrightarrow> app_auth_token app \<noteq> None"
  using assms by (auto simp: try_from_def Let_def make_proxy_options_def split: if_splits)

lemma nonzero_port_nonzero: "nonzero_port p \<noteq> Some 0"
  by (simp add: nonzero_port_def split: option.splits)

text \<open>C29.
  A configuration that passes validation is well formed: listeners have complete key pairs and
  demand client certificates only with a CA, redirection has TLS, at most one error handler, valid
  targets, runtime settings exactly for the selected backend with positive timeouts, non-empty
  header names, no zero ports and no zero keep-alive.\<close>

theorem config_accepts_only_wf:
  assumes "try_from env cli = Ok app"
  shows "config_wf app"
proof -
  note f = try_from_fields[OF assms]
  note v = validate_cli_Ok[OF f(1)]
  have "listener_tls_ok (public_tls app)" "listener_tls_ok (api_tls app)" using v(5,6) unfolding f(3,4) .
  moreover have "\<forall>t. client_tls app = Some t \<longrightarrow>
      (tls_complete t \<or> tls_key t = None \<and> tls_cert t = None \<and> tls_ca t \<noteq> None)
      \<and> \<not> tls_request_cert t \<and> \<not> tls_reject_unauthorized t"
    using v(1,2,4) unfolding f(5) make_tls_config_def tls_complete_def by (auto split: if_splits)
  moreover have "redirect_port app \<noteq> None \<longrightarrow> public_tls app \<noteq> None"
  proof
    assume "redirect_port app \<noteq> None"
    then have "cli_ssl_key cli \<noteq> None" unfolding f(13) by (rule f(2))
    then show "public_tls app \<noteq> None" unfolding f(3) make_tls_config_def by simp
  qed
  moreover have "redirect_port app \<noteq> Some 0" "redirect_to app \<noteq> Some 0"
    unfolding f(13,14) by (rule nonzero_port_nonzero)+
  moreover have "\<not> (error_target app \<noteq> None \<and> error_path app \<noteq> None)"
    using v(3) conjunct2[OF parse_error_target_Ok[OF f(7)]] unfolding f(12) by auto
  moreover have "\<forall>u. default_target app = Some u \<or> error_target app = Some u \<longrightarrow> target_ok u"
  proof (intro allI impI, elim disjE)
    show "target_ok u" if "default_target app = Some u" for u by (rule parse_target_Ok[OF f(6)[unfolded that]])
    show "target_ok u" if "error_target app = Some u" for u
      using conjunct1[OF parse_error_target_Ok[OF f(7)]] that by blast
  qed
  moreover have "app_auth_token app \<noteq> Some []" unfolding f(15) using env_nonempty_Some by blast
  moreover note parse_redis_Ok[OF f(8)] parse_sidecar_Ok[OF f(9)]
  moreover have "bt_wf (custom_headers (app_proxy app))
      \<and> (\<forall>n v. bt_get n (custom_headers (app_proxy app)) = Some v \<longrightarrow> n \<noteq> [])"
    using parse_custom_headers_Ok[OF f(10)] by simp
  moreover have "keep_alive_timeout_ms (app_proxy app) \<noteq> None" "keep_alive_timeout_ms (app_proxy app) \<noteq> Some 0"
    by (subst f(11), simp add: make_proxy_options_def split: option.splits)+
  ultimately show ?thesis unfolding config_wf_def by blast
qed

definition sample_cli :: cli where
  "sample_cli =
     \<lparr>cli_ip = None, cli_port = Some 0, cli_socket = None, cli_ssl_key = Some ''k.pem'', cli_ssl_cert = Some ''c.pem'',
      cli_ssl_ca = None, cli_ssl_request_cert = False, cli_ssl_reject_unauthorized = False, cli_ssl_protocol = None,
      cli_ssl_ciphers = Some ''HIGH'', cli_ssl_allow_rc4 = False, cli_ssl_dhparam = None, cli_api_ip = None,
      cli_api_port = None, cli_api_socket = None, cli_api_ssl_key = None, cli_api_ssl_cert = None,
      cli_api_ssl_ca = None, cli_api_ssl_request_cert = False, cli_api_ssl_reject_unauthorized = False,
      cli_client_ssl_key = None, cli_client_ssl_cert = None, cli_client_ssl_ca = None,
      cli_client_ssl_request_cert = False, cli_client_ssl_reject_unauthorized = False,
      cli_default_target = Some ''http://hub:8081'', cli_error_target = None, cli_error_path = None,
      cli_redirect_port = Some 80, cli_redirect_to = None, cli_pid_file = None, cli_x_forward = True,
      cli_prepend_path = True, cli_include_prefix = True, cli_auto_rewrite = False, cli_change_origin = False,
      cli_protocol_rewrite = None, cli_custom_header = [], cli_insecure = False, cli_host_routing = False,
      cli_metrics_ip = None, cli_metrics_port = None, cli_metrics_socket = None, cli_log_level = ''info'',
      cli_timeout = None, cli_proxy_timeout = None, cli_storage_backend = None, cli_keep_alive_timeout = Some 0\<rparr>"

definition sample_url :: url_view where
  "sample_url =
     \<lparr>url_scheme = ''http'', url_username = [], url_password = None, url_host = Some ''hub'', url_port = Some 8081,
      url_known_port = Some 8081, url_host_port_text = ''hub:8081'', url_path_of = ''/'', url_query_of = None,
      url_fragment = None, url_text = ''http://hub:8081/''\<rparr>"

definition sample_config_env :: config_env where
  "sample_config_env =
     \<lparr>ce_var = (\<lambda>n. if n = ''CONFIGPROXY_AUTH_TOKEN'' then Present ''secret'' else NotPresent),
      ce_url = (\<lambda>_. Ok sample_url), ce_redis_url = (\<lambda>_. False)\<rparr>"

lemma sample_parts:
  "validate_cli sample_cli = Ok ()"
  "cli_ssl_key sample_cli = Some ''k.pem''" "cli_ssl_cert sample_cli = Some ''c.pem''"
  "make_api_listener sample_cli = Ok (Tcp (tcp_address ''localhost'' 8001))"
  "parse_target sample_config_env (cli_default_target sample_cli) ''default target'' = Ok (Some sample_url)"
  "parse_error_target sample_config_env (cli_error_target sample_cli) = Ok None"
  "parse_store (cli_storage_backend sample_cli) = Ok StoreMemory"
  "parse_custom_headers (cli_custom_header sample_cli) [] = Ok []"
  "parse_required_auth_policy sample_config_env = Ok False"
  by (simp_all add: sample_cli_def sample_config_env_def sample_url_def validate_cli_def validate_pair_def
      validate_listener_tls_policy_def make_api_listener_def nonzero_port_def public_port_of_def parse_target_def
      parse_error_target_def parse_store_def parse_required_auth_policy_def)

lemma sample_log_level: "parse_log_level (cli_log_level sample_cli) = Ok LogInfo"
  by (simp add: sample_cli_def parse_log_level_def to_ascii_lowercase_def byte_def Let_def)

lemma sample_accepted: "\<exists>app. try_from sample_config_env sample_cli = Ok app"
proof -
  have "parse_redis_runtime sample_config_env StoreMemory = Ok None"
    "parse_sidecar_runtime sample_config_env StoreMemory = Ok None"
    by (simp_all add: parse_redis_runtime_def parse_sidecar_runtime_def)
  then show ?thesis
    by (simp add: try_from_def sample_parts sample_log_level)
qed

theorem config_accepts_only_wf_witness:
  "case try_from sample_config_env sample_cli of
     Ok app \<Rightarrow> config_wf app \<and> app_auth_token app = Some ''secret'' \<and> redirect_port app = Some 80
       \<and> keep_alive_timeout_ms (app_proxy app) = Some 5000
   | Err _ \<Rightarrow> False"
proof -
  obtain app where Ok: "try_from sample_config_env sample_cli = Ok app" using sample_accepted by blast
  have "app_auth_token app = Some ''secret''" "redirect_port app = Some 80"
    "keep_alive_timeout_ms (app_proxy app) = Some 5000"
    using try_from_fields(13,15)[OF Ok] arg_cong[OF try_from_fields(11)[OF Ok], of keep_alive_timeout_ms]
    by (simp_all add: sample_cli_def sample_config_env_def nonzero_port_def env_nonempty_def make_proxy_options_def)
  then show ?thesis using Ok config_accepts_only_wf[OF Ok] by simp
qed

end
