(* ===== verification/Upstream.thy ===== *)
theory Upstream
  imports Config Headers Route
begin

text \<open>
  \<open>src/src/upstream.rs\<close>: upstream targets, the request URI and header policy, redirect
  rewriting, and the construction of a peer. The \<open>http\<close> and \<open>url\<close> packages, name resolution and
  certificate files are in the record \<open>upstream_env\<close>.
\<close>

section \<open>Data\<close>

record upstream_env =
  ue_url :: url_lib
  ue_uri :: "string \<Rightarrow> (string, string) result"
  ue_header_name :: "string \<Rightarrow> string option"
  ue_header_value :: "string \<Rightarrow> bool"

datatype target =
    TcpTarget (t_host: string) (t_port: u16) (t_authority: string) (t_path: string) (t_tls: bool)
  | UnixTarget (t_socket_path: path) (t_path: string)

record upstream_route =
  up_key :: route_key
  up_target :: target

record tls_client_config =
  tc_verify_cert :: bool
  tc_verify_hostname :: bool
  tc_connection_timeout :: "nat option"
  tc_total_connection_timeout :: "nat option"
  tc_read_timeout :: "nat option"
  tc_write_timeout :: "nat option"
  tc_idle_timeout :: "nat option"
  tc_ca_file :: "path option"
  tc_client_certificate :: "path option"
  tc_client_key :: "path option"

definition tls_client_default :: tls_client_config where
  "tls_client_default =
     \<lparr>tc_verify_cert = True, tc_verify_hostname = True, tc_connection_timeout = None,
      tc_total_connection_timeout = None, tc_read_timeout = None, tc_write_timeout = None,
      tc_idle_timeout = None, tc_ca_file = None, tc_client_certificate = None, tc_client_key = None\<rparr>"

record forwarded_context =
  fc_client_address :: string
  fc_port :: u16
  fc_protocol :: string

datatype target_error =
    UnsupportedScheme string
  | MissingHost
  | InvalidUnixSocket
  | AddressResolution string
  | NoResolvedAddress string
  | UnixPeer
  | PartialClientIdentity
  | TlsFile string path
  | InvalidCa path string
  | InvalidClientCertificate path string
  | InvalidClientKey path string

datatype proxy_request_error =
    RoutePrefixMismatch
  | InvalidUri string
  | InvalidCustomHeaderName string
  | InvalidCustomHeaderValue string
  | InvalidLocation
  | InvalidProtocolRewrite string

section \<open>Targets\<close>

definition upstream_hex :: "char \<Rightarrow> nat option" where
  "upstream_hex c = hex_value c"

definition upstream_percent_decode :: "string \<Rightarrow> string option" where
  "upstream_percent_decode encoded = percent_decode encoded"

definition target_path :: "url_view \<Rightarrow> string" where
  "target_path url =
     (let path = (if url_path_of url = [] then ''/'' else url_path_of url)
      in (case url_query_of url of None \<Rightarrow> path | Some query \<Rightarrow> path @ ''?'' @ query))"

definition url_authority :: "upstream_env \<Rightarrow> url_view \<Rightarrow> string \<Rightarrow> string" where
  "url_authority env url host =
     (let display_host = (if ul_is_ipv6 (ue_url env) host then ''['' @ host @ '']'' else host)
      in (case url_port url of
            Some port \<Rightarrow> display_host @ '':'' @ decimal (unat port)
          | None \<Rightarrow> display_host))"

definition url_host_of :: "upstream_env \<Rightarrow> url_view \<Rightarrow> string option" where
  "url_host_of env url = map_option (url_authority env url) (url_host url)"

definition strip_brackets :: "string \<Rightarrow> string" where
  "strip_brackets raw_host =
     (case strip_prefix ''['' raw_host of
        Some inner \<Rightarrow> if ends_with_char CHR '']'' inner then butlast inner else raw_host
      | None \<Rightarrow> raw_host)"

definition target_parse :: "upstream_env \<Rightarrow> url_view \<Rightarrow> (target_error, target) result" where
  "target_parse env url =
     (let path = target_path url
      in if url_scheme url \<in> {''http'', ''https''} then
           and_then (ok_or MissingHost (url_host url)) (\<lambda>raw_host.
             let host = strip_brackets raw_host
             in if host = [] then Err MissingHost
                else
                  and_then (ok_or MissingHost (url_known_port url)) (\<lambda>port.
                    Ok (TcpTarget host port (url_authority env url host) path (url_scheme url = ''https''))))
         else if url_scheme url \<in> {''http+unix'', ''unix+http''} then
           and_then (ok_or InvalidUnixSocket (upstream_percent_decode (url_host_port_text url))) (\<lambda>decoded.
             if decoded = [] \<or> CHR 0x00 \<in> set decoded \<or> \<not> starts_with_char CHR ''/'' decoded
             then Err InvalidUnixSocket
             else Ok (UnixTarget decoded path))
         else Err (UnsupportedScheme (url_scheme url)))"

definition target_authority :: "target \<Rightarrow> string" where
  "target_authority t = (case t of TcpTarget _ _ a _ _ \<Rightarrow> a | UnixTarget _ _ \<Rightarrow> ''localhost'')"

definition target_is_tls :: "target \<Rightarrow> bool" where
  "target_is_tls t = (case t of TcpTarget _ _ _ _ tls \<Rightarrow> tls | UnixTarget _ _ \<Rightarrow> False)"

definition target_unix_path :: "target \<Rightarrow> path option" where
  "target_unix_path t = (case t of UnixTarget p _ \<Rightarrow> Some p | TcpTarget _ _ _ _ _ \<Rightarrow> None)"

section \<open>Peers\<close>

text \<open>
  Name resolution, reading files and parsing certificates are functions of the host; a peer keeps
  what the construction stores in it.
\<close>

record ('cert, 'key) peer_env =
  pe_resolve :: "string \<Rightarrow> u16 \<Rightarrow> string list option"
  pe_uds_ok :: "path \<Rightarrow> bool"
  pe_utf8 :: "path \<Rightarrow> bool"
  pe_read :: "path \<Rightarrow> string option"
  pe_certs :: "string \<Rightarrow> (string, 'cert list) result"
  pe_key :: "string \<Rightarrow> (string, 'key) result"

datatype peer_address = PeerTcp string bool string | PeerUds path

record ('cert, 'key) http_peer =
  hp_address :: peer_address
  hp_verify_cert :: bool
  hp_verify_hostname :: bool
  hp_timeouts :: "nat option list"
  hp_ca :: "'cert list option"
  hp_client_cert_key :: "('cert list \<times> 'key) option"

definition resolve_one :: "('c, 'k) peer_env \<Rightarrow> string \<Rightarrow> u16 \<Rightarrow> (target_error, string) result" where
  "resolve_one env host port =
     (let display = host @ '':'' @ decimal (unat port)
      in (case pe_resolve env host port of
            None \<Rightarrow> Err (AddressResolution display)
          | Some [] \<Rightarrow> Err (NoResolvedAddress display)
          | Some (a # _) \<Rightarrow> Ok a))"

definition validate_identity_pair :: "tls_client_config \<Rightarrow> (target_error, unit) result" where
  "validate_identity_pair tls =
     (if (tc_client_certificate tls \<noteq> None) \<noteq> (tc_client_key tls \<noteq> None)
      then Err PartialClientIdentity else Ok ())"

definition read_tls :: "('c, 'k) peer_env \<Rightarrow> path \<Rightarrow> string \<Rightarrow> (target_error, string) result" where
  "read_tls env path kind = ok_or (TlsFile kind path) (pe_read env path)"

definition load_ca :: "('c, 'k) peer_env \<Rightarrow> path \<Rightarrow> (target_error, 'c list) result" where
  "load_ca env path =
     and_then (read_tls env path ''CA'') (\<lambda>bytes.
     and_then (map_err (InvalidCa path) (pe_certs env bytes)) (\<lambda>certificates.
       if certificates = [] then Err (InvalidCa path ''no certificates found'')
       else Ok certificates))"

definition load_identity :: "('c, 'k) peer_env \<Rightarrow> path \<Rightarrow> path \<Rightarrow> (target_error, 'c list \<times> 'k) result" where
  "load_identity env certificate_path key_path =
     and_then (read_tls env certificate_path ''client certificate'') (\<lambda>certificate_bytes.
     and_then (map_err (InvalidClientCertificate certificate_path) (pe_certs env certificate_bytes)) (\<lambda>certificates.
       if certificates = [] then Err (InvalidClientCertificate certificate_path ''no certificates found'')
       else
         and_then (read_tls env key_path ''client key'') (\<lambda>key_bytes.
         and_then (map_err (InvalidClientKey key_path) (pe_key env key_bytes)) (\<lambda>key.
           Ok (certificates, key)))))"

definition http_peer_of ::
  "('c, 'k) peer_env \<Rightarrow> target \<Rightarrow> tls_client_config \<Rightarrow> (target_error, ('c, 'k) http_peer) result" where
  "http_peer_of env t tls =
     and_then (if target_is_tls t then validate_identity_pair tls else Ok ()) (\<lambda>_.
     and_then
       (case t of
          TcpTarget host port _ _ use_tls \<Rightarrow>
            and_then (resolve_one env host port) (\<lambda>address. Ok (PeerTcp address use_tls host))
        | UnixTarget socket_path _ \<Rightarrow>
            if \<not> pe_utf8 env socket_path then Err InvalidUnixSocket
            else if pe_uds_ok env socket_path then Ok (PeerUds socket_path) else Err UnixPeer) (\<lambda>address.
     and_then
       (if target_is_tls t then
          (case tc_ca_file tls of
             Some path \<Rightarrow> and_then (load_ca env path) (\<lambda>ca. Ok (Some ca))
           | None \<Rightarrow> Ok None)
        else Ok None) (\<lambda>ca.
     and_then
       (if target_is_tls t then
          (case (tc_client_certificate tls, tc_client_key tls) of
             (Some cert_path, Some key_path) \<Rightarrow>
               and_then (load_identity env cert_path key_path) (\<lambda>identity. Ok (Some identity))
           | _ \<Rightarrow> Ok None)
        else Ok None) (\<lambda>identity.
     Ok \<lparr>hp_address = address, hp_verify_cert = tc_verify_cert tls, hp_verify_hostname = tc_verify_hostname tls,
         hp_timeouts = [tc_connection_timeout tls, tc_total_connection_timeout tls, tc_read_timeout tls,
                        tc_write_timeout tls, tc_idle_timeout tls],
         hp_ca = ca, hp_client_cert_key = identity\<rparr>))))"

section \<open>The upstream URI\<close>

definition split_query :: "string \<Rightarrow> string \<times> string option" where
  "split_query value =
     (case split_once CHR ''?'' value of
        None \<Rightarrow> (value, None)
      | Some (path, query) \<Rightarrow> (path, Some query))"

definition join_segment :: "string \<Rightarrow> string \<Rightarrow> string" where
  "join_segment segment joined =
     (if segment = [] then joined
      else if ends_with_char CHR ''/'' joined \<and> starts_with_char CHR ''/'' segment then joined @ tl segment
      else if joined = [] \<or> ends_with_char CHR ''/'' joined \<or> starts_with_char CHR ''/'' segment
      then joined @ segment
      else joined @ ''/'' @ segment)"

definition url_join :: "string \<Rightarrow> string \<Rightarrow> string" where
  "url_join left right =
     (let (left_path, left_query) = split_query left;
          (right_path, right_query) = split_query right;
          joined = fold join_segment [left_path, right_path] [];
          queries = filter (\<lambda>q. q \<noteq> []) (List.map_filter id [left_query, right_query])
      in if queries \<noteq> [] then joined @ ''?'' @ join ''&'' queries else joined)"

definition get_path :: "upstream_env \<Rightarrow> string \<Rightarrow> (proxy_request_error, string) result" where
  "get_path env raw =
     (if raw = [] \<or> starts_with_char CHR ''?'' raw then Ok raw
      else
        (let absolute =
               (if starts_with ''//'' raw then ''http://base.invalid'' @ raw
                else ''http://base.invalid/'' @ trim_start_matches CHR ''/'' raw)
         in (case ul_parse (ue_url env) absolute of
               Err e \<Rightarrow> Err (InvalidUri e)
             | Ok parsed \<Rightarrow>
                 Ok (case url_query_of parsed of
                       Some query \<Rightarrow> url_path_of parsed @ ''?'' @ query
                     | None \<Rightarrow> url_path_of parsed))))"

definition utf16_units :: "string \<Rightarrow> nat" where
  "utf16_units s = sum_list (map (\<lambda>c. if 0x10000 \<le> fst c then 2 else 1) (utf8_chars s))"

text \<open>\<open>str::get(n..)\<close>: the rest from a byte index that must be a character boundary.\<close>

definition str_get_from :: "nat \<Rightarrow> string \<Rightarrow> string option" where
  "str_get_from n s =
     (if n = length s then Some []
      else if n < length s \<and> \<not> is_cont (s ! n) then Some (drop n s)
      else None)"

definition build_upstream_uri ::
  "upstream_env \<Rightarrow> upstream_route \<Rightarrow> string \<Rightarrow> proxy_options \<Rightarrow> (proxy_request_error, string) result" where
  "build_upstream_uri env route raw_request options =
     (let raw_request_path_and_query =
            (if include_prefix options then raw_request
             else
               (let prefix_units = utf16_units (as_str (up_key route))
                in (case str_get_from prefix_units raw_request of Some r \<Rightarrow> r | None \<Rightarrow> [])))
      in and_then (get_path env raw_request_path_and_query) (\<lambda>request_path_and_query.
           let path_and_query =
                 (if prepend_path options then url_join (t_path (up_target route)) request_path_and_query
                  else url_join ''/'' request_path_and_query)
           in map_err InvalidUri (ue_uri env path_and_query)))"

section \<open>Request headers\<close>

definition connection_tokens :: "header_map \<Rightarrow> string list" where
  "connection_tokens headers =
     filter (\<lambda>token. token \<noteq> [])
       (map str_trim
         (concat (map (split_char CHR '','')
           (List.map_filter header_to_str (hm_get_all ''connection'' headers)))))"

definition is_websocket_upgrade :: "header_map \<Rightarrow> bool" where
  "is_websocket_upgrade headers \<longleftrightarrow>
     (case Option.bind (hm_get ''upgrade'' headers) header_to_str of
        None \<Rightarrow> False
      | Some value \<Rightarrow> eq_ignore_ascii_case value ''websocket'')
     \<and> list_ex (\<lambda>token. eq_ignore_ascii_case token ''upgrade'') (connection_tokens headers)"

definition HOP_BY_HOP :: "string list" where
  "HOP_BY_HOP =
     [''keep-alive'', ''proxy-connection'', ''proxy-authorization'', ''proxy-authenticate'',
      ''te'', ''trailer'', ''transfer-encoding'']"

definition remove_hop_by_hop :: "upstream_env \<Rightarrow> bool \<Rightarrow> header_map \<Rightarrow> header_map" where
  "remove_hop_by_hop env websocket headers =
     (let named = List.map_filter (ue_header_name env)
                    (filter (\<lambda>token. \<not> (websocket \<and> eq_ignore_ascii_case token ''upgrade''))
                      (connection_tokens headers));
          headers = fold hm_remove named headers;
          headers = fold hm_remove HOP_BY_HOP headers
      in if websocket then hm_insert ''connection'' ''upgrade'' headers
         else hm_remove ''upgrade'' (hm_remove ''connection'' headers))"

fun parse_custom ::
  "upstream_env \<Rightarrow> (string \<times> string) list \<Rightarrow> (proxy_request_error, (string \<times> string) list) result" where
  "parse_custom env [] = Ok []"
| "parse_custom env ((name, value) # hs) =
     and_then (ok_or (InvalidCustomHeaderName name) (ue_header_name env name)) (\<lambda>parsed_name.
       if \<not> ue_header_value env value then Err (InvalidCustomHeaderValue name)
       else and_then (parse_custom env hs) (\<lambda>rest. Ok ((parsed_name, value) # rest)))"

definition apply_request_headers ::
  "upstream_env \<Rightarrow> header_map \<Rightarrow> target \<Rightarrow> proxy_options \<Rightarrow> (proxy_request_error, header_map) result" where
  "apply_request_headers env headers t options =
     (let original_host = hm_get ''host'' headers
      in and_then
           (if change_origin options then
              (if ue_header_value env (target_authority t) then Ok (Some (target_authority t))
               else Err (InvalidCustomHeaderValue ''host''))
            else Ok None) (\<lambda>origin_host.
         and_then (parse_custom env (custom_headers options)) (\<lambda>custom.
         let websocket_upgrade = (if is_websocket_upgrade headers then hm_get ''upgrade'' headers else None);
             headers = remove_hop_by_hop env (websocket_upgrade \<noteq> None) headers;
             headers = (if x_forward options \<and> \<not> hm_contains ''x-forwarded-host'' headers
                        then (case original_host of
                                Some host \<Rightarrow> hm_insert ''x-forwarded-host'' host headers
                              | None \<Rightarrow> headers)
                        else headers);
             headers = (case origin_host of Some host \<Rightarrow> hm_insert ''host'' host headers | None \<Rightarrow> headers);
             headers = fold (\<lambda>(n, v). hm_insert n v) custom headers;
             headers = remove_hop_by_hop env False headers
         in Ok (case websocket_upgrade of
                  Some upgrade \<Rightarrow> hm_insert ''upgrade'' upgrade (hm_insert ''connection'' ''upgrade'' headers)
                | None \<Rightarrow> headers))))"

fun collect_strs :: "string \<Rightarrow> string list \<Rightarrow> (proxy_request_error, string list) result" where
  "collect_strs name [] = Ok []"
| "collect_strs name (v # vs) =
     and_then (ok_or (InvalidCustomHeaderValue name) (header_to_str v)) (\<lambda>t.
     and_then (collect_strs name vs) (\<lambda>ts. Ok (t # ts)))"

definition forwarded_value ::
  "upstream_env \<Rightarrow> header_map \<Rightarrow> string \<Rightarrow> string \<Rightarrow> (proxy_request_error, string) result" where
  "forwarded_value env headers name value =
     and_then (collect_strs name (hm_get_all name headers)) (\<lambda>parts.
       let combined = join '','' (parts @ [value])
       in if ue_header_value env combined then Ok combined else Err (InvalidCustomHeaderValue name))"

definition apply_forwarded_headers ::
  "upstream_env \<Rightarrow> header_map \<Rightarrow> forwarded_context \<Rightarrow> proxy_options \<Rightarrow> (proxy_request_error, header_map) result" where
  "apply_forwarded_headers env headers ctx options =
     (if \<not> x_forward options then Ok headers
      else
        and_then (forwarded_value env headers ''x-forwarded-for'' (fc_client_address ctx)) (\<lambda>for_value.
        and_then (forwarded_value env headers ''x-forwarded-port'' (decimal (unat (fc_port ctx)))) (\<lambda>port_value.
        and_then (forwarded_value env headers ''x-forwarded-proto'' (fc_protocol ctx)) (\<lambda>proto_value.
        let forwarded_host =
              (if hm_contains ''x-forwarded-host'' headers then None
               else Some (case hm_get ''host'' headers of Some h \<Rightarrow> h | None \<Rightarrow> []));
            headers = hm_insert ''x-forwarded-proto'' proto_value
                        (hm_insert ''x-forwarded-port'' port_value
                          (hm_insert ''x-forwarded-for'' for_value headers))
        in Ok (case forwarded_host of
                 Some host \<Rightarrow> hm_insert ''x-forwarded-host'' host headers
               | None \<Rightarrow> headers)))))"

section \<open>Redirects\<close>

definition is_redirect_rewrite_status :: "nat \<Rightarrow> bool" where
  "is_redirect_rewrite_status status \<longleftrightarrow> status \<in> {201, 301, 302, 307, 308}"

definition whatwg_scheme :: "string \<Rightarrow> string option" where
  "whatwg_scheme value =
     (let scheme = (case split_once CHR '':'' value of Some (scheme, _) \<Rightarrow> scheme | None \<Rightarrow> value)
      in (case scheme of
            [] \<Rightarrow> None
          | b # bytes \<Rightarrow>
              if \<not> is_ascii_alphabetic b then None
              else if list_all (\<lambda>b. is_ascii_alphanumeric b \<or> b \<in> set ''+-.'') bytes then Some scheme
              else None))"

definition host_name :: "string \<Rightarrow> string" where
  "host_name authority =
     (if starts_with_char CHR ''['' authority then
        (case split_once CHR '']'' authority of
           None \<Rightarrow> authority
         | Some (host, _) \<Rightarrow> take (length host + 1) authority)
      else
        (case split_once CHR '':'' authority of None \<Rightarrow> authority | Some (host, _) \<Rightarrow> host))"

definition parse_u16 :: "string \<Rightarrow> u16 option" where
  "parse_u16 s = map_option of_nat (parse_unsigned 16 s)"

definition host_port :: "string \<Rightarrow> u16 option" where
  "host_port authority =
     (case strip_prefix ''['' authority of
        Some bracketed \<Rightarrow>
          Option.bind (split_once CHR '']'' bracketed) (\<lambda>(_, rest).
          Option.bind (strip_prefix '':'' rest) parse_u16)
      | None \<Rightarrow> Option.bind (rsplit_once CHR '':'' authority) (\<lambda>(_, port). parse_u16 port))"

definition rewrite_location ::
  "upstream_env \<Rightarrow> nat \<Rightarrow> header_map \<Rightarrow> header_map \<Rightarrow> target \<Rightarrow> proxy_options
   \<Rightarrow> (proxy_request_error, header_map) result" where
  "rewrite_location env status response_headers request_headers t options =
     (if \<not> is_redirect_rewrite_status status
         \<or> (\<not> auto_rewrite options \<and> protocol_rewrite options = None)
      then Ok response_headers
      else
        (case hm_get ''location'' response_headers of
           None \<Rightarrow> Ok response_headers
         | Some location \<Rightarrow>
             and_then (ok_or InvalidLocation (header_to_str location)) (\<lambda>location.
             case ul_parse (ue_url env) location of
               Err _ \<Rightarrow> Ok response_headers
             | Ok parsed \<Rightarrow>
                 if url_host_of env parsed \<noteq> Some (target_authority t) then Ok response_headers
                 else
                   and_then
                     (if auto_rewrite options then
                        (case hm_get ''host'' request_headers of
                           None \<Rightarrow> Ok parsed
                         | Some host \<Rightarrow>
                             and_then (ok_or InvalidLocation (header_to_str host)) (\<lambda>host.
                             and_then (ok_or InvalidLocation (ul_set_host (ue_url env) parsed (host_name host)))
                               (\<lambda>parsed.
                             case host_port host of
                               None \<Rightarrow> Ok parsed
                             | Some port \<Rightarrow> ok_or InvalidLocation (ul_set_port (ue_url env) parsed port))))
                      else Ok parsed) (\<lambda>parsed.
                   let parsed =
                         (case Option.bind (protocol_rewrite options) whatwg_scheme of
                            None \<Rightarrow> parsed
                          | Some protocol \<Rightarrow>
                              (case ul_set_scheme (ue_url env) parsed protocol of
                                 Some u \<Rightarrow> u
                               | None \<Rightarrow> parsed))
                   in if ue_header_value env (url_text parsed)
                      then Ok (hm_insert ''location'' (url_text parsed) response_headers)
                      else Err InvalidLocation))))"

section \<open>Lemmas on header removal\<close>

lemma hm_get_all_fold_remove:
  "hm_get_all n (fold hm_remove ns h) = (if n \<in> set ns then [] else hm_get_all n h)"
  by (induction ns arbitrary: h) (auto simp: header_laws)

lemma hm_get_all_fold_insert:
  "n \<notin> fst ` set cs \<Longrightarrow> hm_get_all n (fold (\<lambda>(n, v). hm_insert n v) cs h) = hm_get_all n h"
  by (induction cs arbitrary: h) (auto simp: header_laws)

text \<open>The header names that the connection header of a request declares hop-by-hop.\<close>

definition declared_hop_by_hop :: "upstream_env \<Rightarrow> header_map \<Rightarrow> string set" where
  "declared_hop_by_hop env headers = set (List.map_filter (ue_header_name env) (connection_tokens headers))"

lemma hm_get_all_hop_by_hop:
  "hm_get_all n (remove_hop_by_hop env False h) =
     (if n \<in> set HOP_BY_HOP \<or> n \<in> {''connection'', ''upgrade''} \<or> n \<in> declared_hop_by_hop env h then []
      else hm_get_all n h)"
  by (auto simp: remove_hop_by_hop_def Let_def header_laws hm_get_all_fold_remove declared_hop_by_hop_def)

lemma hm_get_all_websocket:
  "hm_get_all n (remove_hop_by_hop env True h) =
     (if n = ''connection'' then [''upgrade'']
      else if n \<in> set HOP_BY_HOP
         \<or> n \<in> set (List.map_filter (ue_header_name env)
               (filter (\<lambda>t. \<not> eq_ignore_ascii_case t ''upgrade'') (connection_tokens h))) then []
      else hm_get_all n h)"
  by (auto simp: remove_hop_by_hop_def Let_def header_laws hm_get_all_fold_remove)

end
