(* ===== verification/Errors.thy ===== *)
theory Errors
  imports Resolver Upstream
begin

text \<open>
  \<open>src/src/errors.rs\<close>: what the client sees when a request cannot be proxied. A configured error
  target is asked over a bounded connection, a configured directory is read without following links,
  and otherwise a built-in page or the reason phrase is sent. The response parser of the \<open>httparse\<close>
  package, the peers and the kernel's file operations are in the record \<open>error_env\<close>.
\<close>

section \<open>Limits and data\<close>

definition MAX_ERROR_HEADER_BYTES :: nat where
  "MAX_ERROR_HEADER_BYTES = 16 * 1024"

definition MAX_ERROR_BODY_BYTES :: nat where
  "MAX_ERROR_BODY_BYTES = 1024 * 1024"

definition MAX_UNIX_WIRE_BYTES :: nat where
  "MAX_UNIX_WIRE_BYTES = MAX_ERROR_HEADER_BYTES + MAX_ERROR_BODY_BYTES + 64 * 1024"

datatype proxy_error_class = RouteMiss | UnavailableUpstream | Internal

definition class_status :: "proxy_error_class \<Rightarrow> nat" where
  "class_status c = (case c of RouteMiss \<Rightarrow> 404 | UnavailableUpstream \<Rightarrow> 503 | Internal \<Rightarrow> 500)"

record rendered_error =
  re_body :: string
  re_content_type :: "string option"
  re_content_encoding :: "string option"

datatype http_parse = ParseError | ParsePartial | ParseComplete nat "nat option" "(string \<times> string) list"

datatype read_event = ReadBytes string | ReadFailed

datatype file_kind = RegularFile | OtherFile

record file_stat =
  st_kind :: file_kind
  st_size :: int
  st_dev :: nat
  st_ino :: nat

record 'fd error_env =
  ee_upstream :: upstream_env
  ee_httparse :: "string \<Rightarrow> http_parse"
  ee_header_bytes :: "string \<Rightarrow> bool"
  ee_connect :: "url_view \<Rightarrow> bool"
  ee_unix_connect :: "path \<Rightarrow> bool"
  ee_write :: "string \<Rightarrow> bool"
  ee_reads :: "string \<Rightarrow> read_event list"
  ee_serialized :: bool
  ee_lease :: "(io_error_kind, u64) result option"
  ee_open :: "path \<Rightarrow> 'fd option"
  ee_openat_dir :: "'fd \<Rightarrow> string \<Rightarrow> 'fd option"
  ee_openat_path :: "'fd \<Rightarrow> string \<Rightarrow> 'fd option"
  ee_openat_read :: "'fd \<Rightarrow> string \<Rightarrow> 'fd option"
  ee_fstat :: "'fd \<Rightarrow> file_stat option"
  ee_metadata_len :: "'fd \<Rightarrow> nat option"
  ee_content :: "'fd \<Rightarrow> nat \<Rightarrow> string option"
  ee_reason :: "nat \<Rightarrow> string option"

section \<open>Chunked bodies\<close>

definition CRLF :: string where
  "CRLF = [CHR 0x0D, CHR 0x0A]"

text \<open>\<open>windows(n).position(|w| w == p)\<close> for a pattern of length \<open>n\<close>.\<close>

fun window_position :: "'a list \<Rightarrow> 'a list \<Rightarrow> nat option" where
  "window_position p [] = None"
| "window_position p (x # xs) =
     (if starts_with p (x # xs) then Some 0 else map_option Suc (window_position p xs))"

fun hex_digits_value :: "nat \<Rightarrow> string \<Rightarrow> nat option" where
  "hex_digits_value acc [] = Some acc"
| "hex_digits_value acc (c # s) =
     (case hex_value c of None \<Rightarrow> None | Some d \<Rightarrow> hex_digits_value (acc * 16 + d) s)"

text \<open>\<open>usize::from_str_radix(_, 16)\<close>.\<close>

definition usize_from_hex :: "string \<Rightarrow> nat option" where
  "usize_from_hex s =
     (let digits = (case s of c # r \<Rightarrow> if c = CHR ''+'' \<and> r \<noteq> [] then r else s | [] \<Rightarrow> s)
      in if digits = [] then None
         else
           (case hex_digits_value 0 digits of
              None \<Rightarrow> None
            | Some n \<Rightarrow> if n < 2 ^ 64 then Some n else None))"

definition chunk_size :: "string \<Rightarrow> nat option" where
  "chunk_size line =
     Option.bind (from_utf8 line) (\<lambda>text. usize_from_hex (str_trim (hd (split_char CHR '';'' text))))"

lemma strip_prefix_shorter: "strip_prefix CRLF s = Some r \<Longrightarrow> length r < length s"
  by (auto simp: strip_prefix_Some CRLF_def)

function decode_chunks :: "string \<Rightarrow> string \<Rightarrow> string option" where
  "decode_chunks output input =
     (case window_position CRLF input of
        None \<Rightarrow> None
      | Some line_end \<Rightarrow>
          (case chunk_size (take line_end input) of
             None \<Rightarrow> None
           | Some n \<Rightarrow>
               (let input' = drop (line_end + 2) input
                in if n = 0 then (if starts_with CRLF input' then Some output else None)
                   else if length input' < n then None
                   else
                     (let output' = output @ take n input'
                      in if MAX_ERROR_BODY_BYTES < length output' then None
                         else
                           (case strip_prefix CRLF (drop n input') of
                              None \<Rightarrow> None
                            | Some rest \<Rightarrow> decode_chunks output' rest)))))"
  by pat_completeness auto
termination
  by (relation "measure (\<lambda>(_, input). length input)") (auto dest!: strip_prefix_shorter)

declare decode_chunks.simps [simp del]

definition decode_chunked :: "string \<Rightarrow> string option" where
  "decode_chunked input = decode_chunks [] input"

section \<open>Responses of an error target\<close>

record framing =
  fr_content_type :: "string option"
  fr_content_encoding :: "string option"
  fr_chunked :: bool
  fr_content_length :: "nat option"

definition header_value_from_bytes :: "'fd error_env \<Rightarrow> string \<Rightarrow> string option" where
  "header_value_from_bytes env v = (if ee_header_bytes env v then Some v else None)"

fun response_framing :: "'fd error_env \<Rightarrow> (string \<times> string) list \<Rightarrow> framing \<Rightarrow> framing option" where
  "response_framing env [] fr = Some fr"
| "response_framing env ((name, value) # hs) fr =
     (if eq_ignore_ascii_case name ''content-type'' then
        response_framing env hs (fr\<lparr>fr_content_type := header_value_from_bytes env value\<rparr>)
      else if eq_ignore_ascii_case name ''content-encoding'' then
        response_framing env hs (fr\<lparr>fr_content_encoding := header_value_from_bytes env value\<rparr>)
      else if eq_ignore_ascii_case name ''transfer-encoding'' then
        (if fr_chunked fr \<or> \<not> eq_ignore_ascii_case value ''chunked'' then None
         else response_framing env hs (fr\<lparr>fr_chunked := True\<rparr>))
      else if eq_ignore_ascii_case name ''content-length'' then
        (if fr_content_length fr \<noteq> None then None
         else
           (case Option.bind (from_utf8 value) (parse_unsigned 64) of
              None \<Rightarrow> None
            | Some n \<Rightarrow>
                if MAX_ERROR_BODY_BYTES < n then None
                else response_framing env hs (fr\<lparr>fr_content_length := Some n\<rparr>)))
      else response_framing env hs fr)"

definition response_body :: "framing \<Rightarrow> string \<Rightarrow> bool \<Rightarrow> string option" where
  "response_body fr raw_body eof =
     (if fr_chunked fr then decode_chunked raw_body
      else
        (case fr_content_length fr of
           Some n \<Rightarrow> if length raw_body < n then None else Some (take n raw_body)
         | None \<Rightarrow> if eof \<and> length raw_body \<le> MAX_ERROR_BODY_BYTES then Some raw_body else None))"

definition parse_http_response :: "'fd error_env \<Rightarrow> string \<Rightarrow> bool \<Rightarrow> rendered_error option" where
  "parse_http_response env response eof =
     Option.bind (window_position (CRLF @ CRLF) response) (\<lambda>header_end.
       if MAX_ERROR_HEADER_BYTES < header_end + 4 then None
       else
         (case ee_httparse env (take (header_end + 4) response) of
            ParseComplete consumed code headers \<Rightarrow>
              if consumed \<noteq> header_end + 4 \<or> code = None then None
              else
                Option.bind
                  (response_framing env headers
                     \<lparr>fr_content_type = None, fr_content_encoding = None, fr_chunked = False, fr_content_length = None\<rparr>)
                  (\<lambda>fr.
                     if fr_chunked fr \<and> fr_content_length fr \<noteq> None then None
                     else
                       map_option
                         (\<lambda>body. \<lparr>re_body = body, re_content_type = fr_content_type fr,
                                  re_content_encoding = fr_content_encoding fr\<rparr>)
                         (response_body fr (drop (header_end + 4) response) eof))
          | _ \<Rightarrow> None))"

text \<open>
  The read loop, over what the successive reads deliver; an empty read is the end of the stream. It
  is \<open>Pending\<close> when the reads so far have not decided the result.
\<close>

datatype 'a progress = Pending | Finished 'a

fun read_response :: "'fd error_env \<Rightarrow> string \<Rightarrow> read_event list \<Rightarrow> rendered_error option progress" where
  "read_response env response [] = Pending"
| "read_response env response (ReadFailed # events) = Finished None"
| "read_response env response (ReadBytes chunk # events) =
     (if chunk = [] then Finished (parse_http_response env response True)
      else if MAX_UNIX_WIRE_BYTES < length response + length chunk then Finished None
      else
        (let response = response @ chunk
         in if window_position (CRLF @ CRLF) response = None \<and> MAX_ERROR_HEADER_BYTES < length response
            then Finished None
            else
              (case parse_http_response env response False of
                 Some rendered \<Rightarrow> Finished (Some rendered)
               | None \<Rightarrow> read_response env response events)))"

text \<open>A request that is still pending when its deadline passes has no result.\<close>

definition by_deadline :: "'a option progress \<Rightarrow> 'a option" where
  "by_deadline p = (case p of Pending \<Rightarrow> None | Finished r \<Rightarrow> r)"

definition get_request_text :: "string \<Rightarrow> string \<Rightarrow> string" where
  "get_request_text request_target authority =
     ''GET '' @ request_target @ '' HTTP/1.1'' @ CRLF @ ''Host: '' @ authority @ CRLF
     @ ''Connection: close'' @ CRLF @ CRLF"

definition bounded_request_inner :: "'fd error_env \<Rightarrow> url_view \<Rightarrow> rendered_error option" where
  "bounded_request_inner env url =
     (if \<not> is_ok (ue_uri (ee_upstream env) (url_text url)) \<or> \<not> ee_connect env url then None
      else
        (let request_target =
               (case url_query_of url of
                  Some query \<Rightarrow> url_path_of url @ ''?'' @ query
                | None \<Rightarrow> url_path_of url);
             request = get_request_text request_target (url_host_port_text url)
         in if \<not> ee_write env request then None
            else by_deadline (read_response env [] (ee_reads env request))))"

text \<open>
  The lock, the lease (\<open>ensure_cached\<close> of \<open>Resolver\<close>; no result when the deadline passes first) and the
  request. The second component is what the dropped \<open>ResolverAttempt\<close> passes to \<open>finish_lease\<close>.
\<close>

definition bounded_request ::
  "'fd error_env \<Rightarrow> url_view \<Rightarrow> rendered_error option \<times> (u64 \<times> bool) option" where
  "bounded_request env url =
     (if \<not> ee_serialized env then (None, None)
      else
        (case ee_lease env of
           Some (Ok generation) \<Rightarrow>
             (let rendered = bounded_request_inner env url
              in (rendered, Some (generation, rendered \<noteq> None)))
         | _ \<Rightarrow> (None, None)))"

definition target_path_of :: "target \<Rightarrow> string" where
  "target_path_of t = (case t of TcpTarget _ _ _ p _ \<Rightarrow> p | UnixTarget _ p \<Rightarrow> p)"

definition unix_custom_error :: "'fd error_env \<Rightarrow> url_view \<Rightarrow> rendered_error option" where
  "unix_custom_error env url =
     (case target_parse (ee_upstream env) url of
        Err _ \<Rightarrow> None
      | Ok t \<Rightarrow>
          (case target_unix_path t of
             None \<Rightarrow> None
           | Some socket_path \<Rightarrow>
               if \<not> ee_unix_connect env socket_path then None
               else
                 (let request = get_request_text (target_path_of t) ''localhost''
                  in if \<not> ee_write env request then None
                     else by_deadline (read_response env [] (ee_reads env request)))))"

definition custom_error_url :: "'fd error_env \<Rightarrow> url_view \<Rightarrow> nat \<Rightarrow> string \<Rightarrow> url_view option" where
  "custom_error_url env t status original_uri =
     (case ul_parse (ue_url (ee_upstream env))
             (url_text t @ decimal status @ ''?url='' @ encode_uri_component original_uri) of
        Ok url \<Rightarrow> Some url
      | Err _ \<Rightarrow> None)"

definition custom_error :: "'fd error_env \<Rightarrow> url_view \<Rightarrow> nat \<Rightarrow> string \<Rightarrow> rendered_error option" where
  "custom_error env t status original_uri =
     Option.bind (custom_error_url env t status original_uri) (\<lambda>url.
       if url_scheme url \<in> {''http+unix'', ''unix+http''} then unix_custom_error env url
       else if url_scheme url \<notin> {''http'', ''https''} then None
       else fst (bounded_request env url))"

section \<open>Error files\<close>

fun open_components :: "'fd error_env \<Rightarrow> 'fd \<Rightarrow> component list \<Rightarrow> 'fd option" where
  "open_components env directory [] = Some directory"
| "open_components env directory (c # cs) =
     (case c of
        RootDir \<Rightarrow> open_components env directory cs
      | CurDir \<Rightarrow> open_components env directory cs
      | Normal name \<Rightarrow> Option.bind (ee_openat_dir env directory name) (\<lambda>d. open_components env d cs)
      | ParentDir \<Rightarrow> None)"

definition open_bounded_regular_file :: "'fd error_env \<Rightarrow> path \<Rightarrow> string \<Rightarrow> 'fd option" where
  "open_bounded_regular_file env root filename =
     Option.bind (ee_open env (if starts_with_char CHR ''/'' root then ''/'' else ''.'')) (\<lambda>directory.
     Option.bind (open_components env directory (path_components root)) (\<lambda>directory.
     Option.bind (ee_openat_path env directory filename) (\<lambda>stat_only.
     Option.bind (ee_fstat env stat_only) (\<lambda>before.
       if st_kind before \<noteq> RegularFile \<or> st_size before < 0 \<or> int MAX_ERROR_BODY_BYTES < st_size before then None
       else
         Option.bind (ee_openat_read env directory filename) (\<lambda>readable.
         Option.bind (ee_fstat env readable) (\<lambda>after.
           if st_dev before \<noteq> st_dev after \<or> st_ino before \<noteq> st_ino after \<or> st_kind after \<noteq> RegularFile then None
           else Some readable))))))"

definition read_bounded_file :: "'fd error_env \<Rightarrow> path \<Rightarrow> string \<Rightarrow> string option" where
  "read_bounded_file env root filename =
     (if length (path_components filename) \<noteq> 1 then None
      else
        Option.bind (open_bounded_regular_file env root filename) (\<lambda>file.
        Option.bind (ee_metadata_len env file) (\<lambda>len.
          if MAX_ERROR_BODY_BYTES < len then None
          else
            Option.bind (ee_content env file (MAX_ERROR_BODY_BYTES + 1)) (\<lambda>body.
              if length body \<le> MAX_ERROR_BODY_BYTES then Some body else None))))"

section \<open>Rendering\<close>

definition page :: "string \<Rightarrow> string \<Rightarrow> string" where
  "page heading explanation =
     concat (map (\<lambda>l. l @ [CHR 0x0A])
       [''<!doctype html>'', ''<html>'', ''  <head>'', ''    <meta charset='' @ [CHR 0x22] @ ''utf-8'' @ [CHR 0x22] @ '' />'',
        ''    <title>'' @ heading @ ''</title>'', ''  </head>'', [], ''  <body>'', ''    <h1>'' @ heading @ ''</h1>'',
        ''    <p>'' @ explanation @ ''</p>'', ''    <hr />'', ''    <p>configurable-http-proxy</p>'', ''  </body>'',
        ''</html>''])"

definition CHP_404_HTML :: string where
  "CHP_404_HTML = page ''404: Not Found'' ''No service is registered at this URL''"

definition CHP_503_HTML :: string where
  "CHP_503_HTML = page ''503: Proxy Target Missing'' ''The upstream service is unavailable''"

definition reason_phrase :: "'fd error_env \<Rightarrow> nat \<Rightarrow> rendered_error" where
  "reason_phrase env status =
     \<lparr>re_body = (case ee_reason env status of Some r \<Rightarrow> r | None \<Rightarrow> ''Unknown Error''),
      re_content_type = None, re_content_encoding = None\<rparr>"

definition html_error :: "string \<Rightarrow> rendered_error" where
  "html_error body = \<lparr>re_body = body, re_content_type = Some ''text/html'', re_content_encoding = None\<rparr>"

fun first_file :: "'fd error_env \<Rightarrow> path \<Rightarrow> string list \<Rightarrow> string option" where
  "first_file env root [] = None"
| "first_file env root (f # fs) =
     (case read_bounded_file env root f of Some body \<Rightarrow> Some body | None \<Rightarrow> first_file env root fs)"

definition render ::
  "'fd error_env \<Rightarrow> url_view option \<Rightarrow> path option \<Rightarrow> nat \<Rightarrow> string \<Rightarrow> rendered_error" where
  "render env et ep status original_uri =
     (case et of
        Some t \<Rightarrow>
          (case custom_error env t status original_uri of
             Some rendered \<Rightarrow> rendered
           | None \<Rightarrow> reason_phrase env status)
      | None \<Rightarrow>
          (case ep of
             Some root \<Rightarrow>
               (case first_file env root [decimal status @ ''.html'', ''error.html''] of
                  Some body \<Rightarrow> html_error body
                | None \<Rightarrow> reason_phrase env status)
           | None \<Rightarrow>
               if status = 404 then html_error CHP_404_HTML
               else if status = 503 then html_error CHP_503_HTML
               else reason_phrase env status))"

record error_response =
  er_status :: nat
  er_headers :: header_map
  er_body :: string

definition respond ::
  "'fd error_env \<Rightarrow> url_view option \<Rightarrow> path option \<Rightarrow> nat \<Rightarrow> string \<Rightarrow> error_response" where
  "respond env et ep status original_uri =
     (let rendered = render env et ep status original_uri;
          h = hm_insert ''content-length'' (decimal (length (re_body rendered))) [];
          h = (case re_content_type rendered of Some v \<Rightarrow> hm_insert ''content-type'' v h | None \<Rightarrow> h);
          h = (case re_content_encoding rendered of Some v \<Rightarrow> hm_insert ''content-encoding'' v h | None \<Rightarrow> h)
      in \<lparr>er_status = status, er_headers = h, er_body = re_body rendered\<rparr>)"

end
