(* ===== verification/Proxy.thy ===== *)
theory Proxy
  imports Traffic Errors Metrics Activity_Writer
begin

text \<open>
  \<open>src/src/proxy.rs\<close>: the callbacks with which the proxy framework asks where a request goes, what is
  sent upstream, what of the response is changed and what the client sees when something fails. The
  framework's session is a record of what the callbacks read from it and of what they have written.
\<close>

section \<open>Data\<close>

datatype error_type = HTTPStatus nat | ConnectError | ReadError | WriteError | ConnectionClosed | OtherError

datatype error_source = SourceUpstream | SourceDownstream | SourceInternal | SourceUnset

record proxy_error =
  pe_type :: error_type
  pe_source :: error_source

record uri =
  uri_path :: string
  uri_path_and_query :: "string option"

definition uri_text :: "uri \<Rightarrow> string" where
  "uri_text u = (case uri_path_and_query u of Some t \<Rightarrow> t | None \<Rightarrow> uri_path u)"

record session =
  se_uri :: uri
  se_headers :: header_map
  se_upgrade :: bool
  se_body_empty :: bool
  se_client_ip :: "string option"
  se_server_port :: "u16 option"
  se_write_ok :: bool
  se_response_written :: "nat option"
  se_sent :: "error_response list"

record request_context =
  cx_route_key :: "route_key option"
  cx_original_uri :: uri
  cx_original_host :: "string option"
  cx_error_class :: "proxy_error_class option"
  cx_upstream_route :: "upstream_route option"
  cx_request_activity :: bool
  cx_response_activity :: bool
  cx_admitted :: bool

record ('c, 'k, 'f, 'fd) proxy_env =
  px_upstream :: upstream_env
  px_peer :: "('c, 'k) peer_env"
  px_errors :: "'fd error_env"
  px_error_target :: "url_view option"
  px_error_path :: "path option"
  px_options :: proxy_options
  px_tls :: tls_client_config
  px_protocol :: string
  px_authority_port :: "string \<Rightarrow> u16 option"
  px_add :: "'f \<Rightarrow> 'f \<Rightarrow> 'f"
  px_elapsed :: 'f
  px_fixed_now :: "timestamp option"
  px_now :: timestamp

record ('s, 'f) proxy_state =
  ps_writer :: "'s writer"
  ps_metrics :: "'f metrics"
  ps_traffic :: traffic

definition new_ctx :: request_context where
  "new_ctx =
     \<lparr>cx_route_key = None, cx_original_uri = \<lparr>uri_path = ''/'', uri_path_and_query = Some ''/''\<rparr>,
      cx_original_host = None, cx_error_class = None, cx_upstream_route = None,
      cx_request_activity = False, cx_response_activity = False, cx_admitted = False\<rparr>"

definition claim_request_activity :: "request_context \<Rightarrow> bool \<times> request_context" where
  "claim_request_activity ctx = (\<not> cx_request_activity ctx, ctx\<lparr>cx_request_activity := True\<rparr>)"

definition claim_response_activity :: "bool \<Rightarrow> request_context \<Rightarrow> bool \<times> request_context" where
  "claim_response_activity websocket ctx =
     (if websocket then (\<not> cx_response_activity ctx, ctx\<lparr>cx_response_activity := True\<rparr>) else (False, ctx))"

definition claim_http_completion_activity :: "bool \<Rightarrow> bool \<Rightarrow> request_context \<Rightarrow> bool \<times> request_context" where
  "claim_http_completion_activity successful websocket ctx =
     (if successful \<and> \<not> websocket then claim_request_activity ctx else (False, ctx))"

definition release_traffic_admission ::
  "request_context \<Rightarrow> ('s, 'f) proxy_state \<Rightarrow> request_context \<times> ('s, 'f) proxy_state" where
  "release_traffic_admission ctx s =
     (if cx_admitted ctx
      then (ctx\<lparr>cx_admitted := False\<rparr>, s\<lparr>ps_traffic := traffic_finish (ps_traffic s)\<rparr>)
      else (ctx, s))"

definition proxy_tls :: "app_config \<Rightarrow> tls_client_config" where
  "proxy_tls config =
     \<lparr>tc_verify_cert = verify_upstream_tls (app_proxy config),
      tc_verify_hostname = verify_upstream_tls (app_proxy config),
      tc_connection_timeout = map_option unat (timeout_ms (app_proxy config)),
      tc_total_connection_timeout = map_option unat (timeout_ms (app_proxy config)),
      tc_read_timeout = map_option unat (proxy_timeout_ms (app_proxy config)),
      tc_write_timeout = map_option unat (proxy_timeout_ms (app_proxy config)),
      tc_idle_timeout = map_option unat (keep_alive_timeout_ms (app_proxy config)),
      tc_ca_file = Option.bind (client_tls config) tls_ca,
      tc_client_certificate = Option.bind (client_tls config) tls_cert,
      tc_client_key = Option.bind (client_tls config) tls_key\<rparr>"

section \<open>Helpers\<close>

definition records_proxy_response_status :: "nat \<Rightarrow> bool" where
  "records_proxy_response_status status \<longleftrightarrow> status \<noteq> 101"

definition forwarded_client_address :: "string option \<Rightarrow> string" where
  "forwarded_client_address address = (case address of None \<Rightarrow> ''undefined'' | Some a \<Rightarrow> a)"

definition internal_error :: "request_context \<Rightarrow> proxy_error \<times> request_context" where
  "internal_error ctx =
     (\<lparr>pe_type = HTTPStatus 500, pe_source = SourceInternal\<rparr>, ctx\<lparr>cx_error_class := Some Internal\<rparr>)"

definition record_proxy_status :: "nat \<Rightarrow> ('s, 'f) proxy_state \<Rightarrow> ('s, 'f) proxy_state" where
  "record_proxy_status status s = s\<lparr>ps_metrics := record_proxy_request (of_nat status) (ps_metrics s)\<rparr>"

definition record_request_kind :: "session \<Rightarrow> ('s, 'f) proxy_state \<Rightarrow> ('s, 'f) proxy_state" where
  "record_request_kind session s =
     s\<lparr>ps_metrics := (if se_upgrade session then record_ws_request (ps_metrics s)
                      else record_web_request (ps_metrics s))\<rparr>"

definition record_public_failure :: "session \<Rightarrow> nat \<Rightarrow> ('s, 'f) proxy_state \<Rightarrow> ('s, 'f) proxy_state" where
  "record_public_failure session status s = record_proxy_status status (record_request_kind session s)"

text \<open>A response written to the session; a write to a gone client fails and leaves nothing written.\<close>

definition write_response :: "error_response \<Rightarrow> session \<Rightarrow> (proxy_error, unit) result \<times> session" where
  "write_response r session =
     (if se_write_ok session
      then (Ok (), session\<lparr>se_response_written := Some (er_status r), se_sent := se_sent session @ [r]\<rparr>)
      else (Err \<lparr>pe_type = WriteError, pe_source = SourceDownstream\<rparr>, session))"

definition send_empty :: "nat \<Rightarrow> session \<Rightarrow> (proxy_error, unit) result \<times> session" where
  "send_empty status session =
     write_response \<lparr>er_status = status, er_headers = [(''content-length'', ''0'')], er_body = []\<rparr> session"

definition health_body :: string where
  "health_body =
     ''{'' @ [CHR 0x22] @ ''status'' @ [CHR 0x22] @ '':'' @ [CHR 0x22] @ ''OK'' @ [CHR 0x22] @ ''}''"

definition send_health :: "session \<Rightarrow> (proxy_error, unit) result \<times> session" where
  "send_health session =
     write_response
       \<lparr>er_status = 200,
        er_headers = [(''content-type'', ''application/json''), (''content-length'', decimal (length health_body))],
        er_body = health_body\<rparr> session"

definition errors_respond ::
  "('c, 'k, 'f, 'fd) proxy_env \<Rightarrow> nat \<Rightarrow> string \<Rightarrow> session \<Rightarrow> (proxy_error, unit) result \<times> session" where
  "errors_respond env status original session =
     write_response (respond (px_errors env) (px_error_target env) (px_error_path env) status original) session"

definition publish_activity ::
  "('c, 'k, 'f, 'fd) proxy_env \<Rightarrow> request_context \<Rightarrow> ('s, 'f) proxy_state \<Rightarrow> ('s, 'f) proxy_state" where
  "publish_activity env ctx s =
     (case cx_route_key ctx of
        Some key \<Rightarrow> s\<lparr>ps_writer := record_activity (px_fixed_now env) (px_now env) key (ps_writer s)\<rparr>
      | None \<Rightarrow> s)"

section \<open>Routing\<close>

definition proxy_percent_decode :: "string \<Rightarrow> string option" where
  "proxy_percent_decode input = percent_decode input"

definition lookup_path :: "('c, 'k, 'f, 'fd) proxy_env \<Rightarrow> request_context \<Rightarrow> string \<Rightarrow> string" where
  "lookup_path env ctx decoded_path =
     (if host_routing (px_options env) then
        (let host = (case Option.bind (cx_original_host ctx) header_to_str of
                       None \<Rightarrow> ''undefined''
                     | Some host \<Rightarrow> hd (split_char CHR '':'' host))
         in ''/'' @ host @ decoded_path)
      else decoded_path)"

definition route_for_request ::
  "('c, 'k, 'f, 'fd) proxy_env \<Rightarrow> 's registry \<Rightarrow> session \<Rightarrow> request_context
   \<Rightarrow> (proxy_error, upstream_route option) result \<times> request_context" where
  "route_for_request env registry session ctx =
     (case proxy_percent_decode (uri_path (se_uri session)) of
        None \<Rightarrow> map_prod Err id (internal_error ctx)
      | Some decoded_path \<Rightarrow>
          (case registry_resolve registry (lookup_path env ctx decoded_path) of
             None \<Rightarrow> (Ok None, ctx)
           | Some matched \<Rightarrow>
               (case ul_parse (ue_url (px_upstream env)) (route_data.target (match_data matched)) of
                  Err _ \<Rightarrow> map_prod Err id (internal_error ctx)
                | Ok url \<Rightarrow>
                    (case target_parse (px_upstream env) url of
                       Err _ \<Rightarrow> map_prod Err id (internal_error ctx)
                     | Ok t \<Rightarrow>
                         (Ok (Some \<lparr>up_key = match_key matched, up_target = t\<rparr>),
                          ctx\<lparr>cx_route_key := Some (match_key matched)\<rparr>)))))"

section \<open>Callbacks\<close>

definition HEALTH_PATH :: string where
  "HEALTH_PATH = ''/_chp_healthz''"

text \<open>The result says whether the request has been answered here.\<close>

definition answered ::
  "(proxy_error, unit) result \<times> session \<Rightarrow> request_context \<Rightarrow> ('s, 'f) proxy_state
   \<Rightarrow> (proxy_error, bool) result \<times> session \<times> request_context \<times> ('s, 'f) proxy_state" where
  "answered w ctx s = (and_then (fst w) (\<lambda>_. Ok True), snd w, ctx, s)"

definition request_filter ::
  "('c, 'k, 'f, 'fd) proxy_env \<Rightarrow> session \<Rightarrow> request_context \<Rightarrow> ('s, 'f) proxy_state
   \<Rightarrow> (proxy_error, bool) result \<times> session \<times> request_context \<times> ('s, 'f) proxy_state" where
  "request_filter env session ctx s =
     (case try_admit (ps_traffic s) of
        (False, t) \<Rightarrow>
          answered (send_empty 503 session) ctx (record_public_failure session 503 (s\<lparr>ps_traffic := t\<rparr>))
      | (True, t) \<Rightarrow>
          (let s = s\<lparr>ps_traffic := t\<rparr>;
               ctx = ctx\<lparr>cx_admitted := True\<rparr>;
               registry = w_registry (ps_writer s)
           in if consistency_status registry = Inconsistent then
                answered (send_empty 503 session) ctx (record_public_failure session 503 s)
              else
                (let ctx = ctx\<lparr>cx_original_uri := se_uri session,
                               cx_original_host := hm_get ''host'' (se_headers session)\<rparr>;
                     original = uri_text (se_uri session)
                 in if original = HEALTH_PATH then answered (send_health session) ctx s
                    else
                      (let s = record_request_kind session s;
                           (route, ctx) = route_for_request env registry session ctx;
                           s = s\<lparr>ps_metrics := record_find_target (px_add env) (px_elapsed env) (ps_metrics s)\<rparr>
                       in (case route of
                             Err e \<Rightarrow> (Err e, session, ctx, s)
                           | Ok None \<Rightarrow>
                               answered (errors_respond env 404 original session)
                                 (ctx\<lparr>cx_error_class := Some RouteMiss\<rparr>) (record_proxy_status 404 s)
                           | Ok (Some route) \<Rightarrow>
                               (Ok False, session, ctx\<lparr>cx_upstream_route := Some route\<rparr>, s))))))"

definition is_unavailable :: "target_error \<Rightarrow> bool" where
  "is_unavailable e \<longleftrightarrow> (case e of AddressResolution _ \<Rightarrow> True | NoResolvedAddress _ \<Rightarrow> True | _ \<Rightarrow> False)"

definition upstream_peer ::
  "('c, 'k, 'f, 'fd) proxy_env \<Rightarrow> request_context
   \<Rightarrow> (proxy_error, ('c, 'k) http_peer) result \<times> request_context" where
  "upstream_peer env ctx =
     (case cx_upstream_route ctx of
        None \<Rightarrow> map_prod Err id (internal_error ctx)
      | Some route \<Rightarrow>
          (case http_peer_of (px_peer env) (up_target route) (px_tls env) of
             Ok peer \<Rightarrow> (Ok peer, ctx)
           | Err e \<Rightarrow>
               if is_unavailable e
               then (Err \<lparr>pe_type = ConnectError, pe_source = SourceUpstream\<rparr>,
                     ctx\<lparr>cx_error_class := Some UnavailableUpstream\<rparr>)
               else (Err \<lparr>pe_type = HTTPStatus 500, pe_source = SourceInternal\<rparr>,
                     ctx\<lparr>cx_error_class := Some Internal\<rparr>)))"

text \<open>
  \<open>HeaderMap::into_iter\<close> yields the name with the first value of a header only; each further value
  comes without a name.
\<close>

definition header_items :: "header_map \<Rightarrow> (string option \<times> string) list" where
  "header_items h =
     concat (map (\<lambda>n. (case hm_get_all n h of
                         [] \<Rightarrow> []
                       | v # vs \<Rightarrow> (Some n, v) # map (\<lambda>v. (None, v)) vs)) (hm_names h))"

definition replace_request_headers :: "header_map \<Rightarrow> header_map \<Rightarrow> header_map" where
  "replace_request_headers request headers =
     fold (\<lambda>(name, v) r. case name of Some n \<Rightarrow> hm_append n v r | None \<Rightarrow> r)
       (header_items headers) (fold hm_remove (hm_names request) request)"

definition forwarded_port :: "('c, 'k, 'f, 'fd) proxy_env \<Rightarrow> session \<Rightarrow> request_context \<Rightarrow> u16" where
  "forwarded_port env session ctx =
     (let default_port = (if px_protocol env = ''https'' then 443 else 80)
      in (case cx_original_host ctx of
            Some host \<Rightarrow>
              (case Option.bind (header_to_str host) (px_authority_port env) of
                 Some port \<Rightarrow> port
               | None \<Rightarrow> default_port)
          | None \<Rightarrow> (case se_server_port session of Some port \<Rightarrow> port | None \<Rightarrow> default_port)))"

definition upstream_headers ::
  "('c, 'k, 'f, 'fd) proxy_env \<Rightarrow> session \<Rightarrow> request_context \<Rightarrow> target \<Rightarrow> header_map
   \<Rightarrow> (proxy_request_error, header_map) result" where
  "upstream_headers env session ctx t headers =
     and_then
       (apply_forwarded_headers (px_upstream env) headers
          \<lparr>fc_client_address = forwarded_client_address (se_client_ip session),
           fc_port = forwarded_port env session ctx, fc_protocol = px_protocol env\<rparr>
          (px_options env))
       (\<lambda>headers. apply_request_headers (px_upstream env) headers t (px_options env))"

definition upstream_request_filter ::
  "('c, 'k, 'f, 'fd) proxy_env \<Rightarrow> session \<Rightarrow> header_map \<Rightarrow> request_context
   \<Rightarrow> (proxy_error, string \<times> header_map) result \<times> request_context" where
  "upstream_request_filter env session request ctx =
     (case cx_upstream_route ctx of
        None \<Rightarrow> map_prod Err id (internal_error ctx)
      | Some route \<Rightarrow>
          (case build_upstream_uri (px_upstream env) route (uri_text (cx_original_uri ctx)) (px_options env) of
             Err _ \<Rightarrow> map_prod Err id (internal_error ctx)
           | Ok u \<Rightarrow>
               (case upstream_headers env session ctx (up_target route) request of
                  Err _ \<Rightarrow> map_prod Err id (internal_error ctx)
                | Ok headers \<Rightarrow>
                    (let request = replace_request_headers request headers;
                         request = (if \<not> se_body_empty session \<and> \<not> hm_contains ''content-length'' request
                                    then hm_insert ''transfer-encoding'' ''chunked'' request else request)
                     in (Ok (u, request), ctx)))))"

text \<open>
  The response filter returns the headers passed on. Building the copies of request and response
  that \<open>rewrite_location\<close> works on cannot fail for a status and a URI that were parsed before.
\<close>

definition upstream_response_filter ::
  "('c, 'k, 'f, 'fd) proxy_env \<Rightarrow> nat \<Rightarrow> header_map \<Rightarrow> request_context \<Rightarrow> ('s, 'f) proxy_state
   \<Rightarrow> (proxy_error, header_map) result \<times> request_context \<times> ('s, 'f) proxy_state" where
  "upstream_response_filter env status headers ctx s =
     (case cx_upstream_route ctx of
        None \<Rightarrow> (case internal_error ctx of (e, ctx) \<Rightarrow> (Err e, ctx, s))
      | Some route \<Rightarrow>
          (let request = (case cx_original_host ctx of Some host \<Rightarrow> hm_insert ''host'' host [] | None \<Rightarrow> [])
           in (case rewrite_location (px_upstream env) status headers request (up_target route) (px_options env) of
                 Err _ \<Rightarrow> (case internal_error ctx of (e, ctx) \<Rightarrow> (Err e, ctx, s))
               | Ok rewritten \<Rightarrow>
                   (let headers = (case hm_get ''location'' rewritten of
                                     Some location \<Rightarrow> hm_insert ''location'' location headers
                                   | None \<Rightarrow> hm_remove ''location'' headers);
                        s = (if records_proxy_response_status status then record_proxy_status status s else s)
                    in (Ok headers, ctx, s)))))"

definition observe_request_stream_data ::
  "('c, 'k, 'f, 'fd) proxy_env \<Rightarrow> request_context \<Rightarrow> ('s, 'f) proxy_state
   \<Rightarrow> request_context \<times> ('s, 'f) proxy_state" where
  "observe_request_stream_data env ctx s =
     (case claim_request_activity ctx of
        (claimed, ctx) \<Rightarrow> (ctx, if claimed then publish_activity env ctx s else s))"

definition observe_response_stream_data ::
  "('c, 'k, 'f, 'fd) proxy_env \<Rightarrow> bool \<Rightarrow> request_context \<Rightarrow> ('s, 'f) proxy_state
   \<Rightarrow> request_context \<times> ('s, 'f) proxy_state" where
  "observe_response_stream_data env websocket ctx s =
     (case claim_response_activity websocket ctx of
        (claimed, ctx) \<Rightarrow> (ctx, if claimed then publish_activity env ctx s else s))"

definition request_body_filter ::
  "('c, 'k, 'f, 'fd) proxy_env \<Rightarrow> string option \<Rightarrow> request_context \<Rightarrow> ('s, 'f) proxy_state
   \<Rightarrow> request_context \<times> ('s, 'f) proxy_state" where
  "request_body_filter env body ctx s =
     (if body \<noteq> None \<and> body \<noteq> Some [] then observe_request_stream_data env ctx s else (ctx, s))"

definition upstream_response_body_filter ::
  "('c, 'k, 'f, 'fd) proxy_env \<Rightarrow> session \<Rightarrow> string option \<Rightarrow> request_context \<Rightarrow> ('s, 'f) proxy_state
   \<Rightarrow> request_context \<times> ('s, 'f) proxy_state" where
  "upstream_response_body_filter env session body ctx s =
     (if body \<noteq> None \<and> body \<noteq> Some [] then observe_response_stream_data env (se_upgrade session) ctx s
      else (ctx, s))"

definition fail_to_connect :: "request_context \<Rightarrow> request_context" where
  "fail_to_connect ctx = ctx\<lparr>cx_error_class := Some UnavailableUpstream\<rparr>"

text \<open>The classification in \<open>error_while_proxy\<close>; the retry decision is left to the framework.\<close>

definition error_while_proxy :: "proxy_error \<Rightarrow> request_context \<Rightarrow> request_context" where
  "error_while_proxy e ctx =
     (if cx_error_class ctx = None \<and> pe_source e = SourceUpstream
      then ctx\<lparr>cx_error_class := Some UnavailableUpstream\<rparr> else ctx)"

definition error_classification :: "proxy_error \<Rightarrow> request_context \<Rightarrow> proxy_error_class" where
  "error_classification e ctx =
     (case cx_error_class ctx of
        Some c \<Rightarrow> c
      | None \<Rightarrow> if pe_source e = SourceUpstream then UnavailableUpstream else Internal)"

text \<open>The code reported to the framework; the connection to the client is never reused.\<close>

definition fail_to_proxy ::
  "('c, 'k, 'f, 'fd) proxy_env \<Rightarrow> session \<Rightarrow> proxy_error \<Rightarrow> request_context \<Rightarrow> ('s, 'f) proxy_state
   \<Rightarrow> nat \<times> session \<times> ('s, 'f) proxy_state" where
  "fail_to_proxy env session e ctx s =
     (case se_response_written session of
        Some status \<Rightarrow> (status, session, s)
      | None \<Rightarrow>
          if pe_source e = SourceDownstream \<and> pe_type e \<in> {ReadError, WriteError, ConnectionClosed}
          then (0, session, s)
          else
            (let status = class_status (error_classification e ctx);
                 s = record_proxy_status status s
             in if se_upgrade session then (status, snd (send_empty status session), s)
                else (status, snd (errors_respond env status (uri_text (cx_original_uri ctx)) session), s)))"

definition logging ::
  "('c, 'k, 'f, 'fd) proxy_env \<Rightarrow> session \<Rightarrow> proxy_error option \<Rightarrow> request_context \<Rightarrow> ('s, 'f) proxy_state
   \<Rightarrow> request_context \<times> ('s, 'f) proxy_state" where
  "logging env session e ctx s =
     (let successful = (e = None \<and> (case se_response_written session of Some st \<Rightarrow> st < 300 | None \<Rightarrow> False));
          (claimed, ctx) = claim_http_completion_activity successful (se_upgrade session) ctx;
          s = (if claimed then publish_activity env ctx s else s)
      in release_traffic_admission ctx s)"

end
