(* ===== verification/Upstream_Safety.thy ===== *)
theory Upstream_Safety
  imports Upstream
begin

text \<open>
  What the rest of the proxy relies on in \<open>Upstream\<close>: a validated target can always be parsed, no
  header that concerns one connection only is forwarded, every other header is, and redirects are
  rewritten only when they point at the target itself.
\<close>

section \<open>Validated targets\<close>

lemma hex_value_config: "is_ascii_hexdigit c \<Longrightarrow> hex_value c = Some (config_hex_value c)"
  by (auto simp: is_ascii_hexdigit_def is_ascii_digit_def hex_value_def config_hex_value_def Let_def)

lemma socket_host_bytes_decodes:
  "socket_host_bytes s p = Some (q, d) \<Longrightarrow> percent_bytes s = Some d"
proof (induction s p arbitrary: q d rule: socket_host_bytes.induct)
  case (2 c s p)
  show ?case
  proof (cases "c = CHR ''%''")
    case True
    then obtain h l rest where s: "s = h # l # rest"
      using "2.prems" by (auto split: list.splits)
    then show ?thesis
      using True "2.prems" "2.IH"(1)[OF True s]
      by (auto simp: hex_value_config split: if_splits)
  qed (use "2.prems" "2.IH"(2) in auto)
qed simp

lemma socket_host_target:
  assumes "is_percent_encoded_socket_host h"
  shows "\<exists>d. upstream_percent_decode h = Some d \<and> d \<noteq> [] \<and> CHR 0x00 \<notin> set d \<and> starts_with_char CHR ''/'' d"
  using assms socket_host_bytes_decodes[of h False]
  by (auto simp: is_percent_encoded_socket_host_def upstream_percent_decode_def percent_decode_def
      from_utf8_def split: option.splits if_splits)

text \<open>
  What the \<open>url\<close> package documents for the \<open>http\<close> and \<open>https\<close> schemes: they have a known default
  port, and a bracketed host is an IPv6 address, which is not empty.
\<close>

definition http_url_laws :: "url_view \<Rightarrow> bool" where
  "http_url_laws u \<longleftrightarrow>
     (url_scheme u \<in> {''http'', ''https''} \<longrightarrow> url_known_port u \<noteq> None \<and> url_host u \<noteq> Some ''[]'')"

lemma strip_brackets_nonempty: "h \<noteq> [] \<Longrightarrow> h \<noteq> ''[]'' \<Longrightarrow> strip_brackets h \<noteq> []"
  by (cases h; cases "tl h" rule: rev_cases)
     (auto simp: strip_brackets_def ends_with_char_def split: option.splits)

lemma target_ok_parses:
  assumes "target_ok u" and "http_url_laws u"
  shows "\<exists>t. target_parse env u = Ok t \<and> (target_is_tls t \<longleftrightarrow> url_scheme u = ''https'')
           \<and> (target_unix_path t = None \<longleftrightarrow> url_scheme u \<in> {''http'', ''https''})"
proof (cases "url_scheme u \<in> {''http'', ''https''}")
  case True
  then obtain h p where "url_host u = Some h" "h \<noteq> []" "h \<noteq> ''[]''" "url_known_port u = Some p"
    using assms by (auto simp: target_ok_def http_url_laws_def)
  then show ?thesis
    using True strip_brackets_nonempty[of h]
    by (auto simp: target_parse_def Let_def ok_or_def target_is_tls_def target_unix_path_def)
next
  case False
  then have "url_scheme u \<in> {''http+unix'', ''unix+http''}"
    and "is_percent_encoded_socket_host (url_host_port_text u)"
    using assms(1) by (auto simp: target_ok_def)
  moreover from this(2) obtain d where "upstream_percent_decode (url_host_port_text u) = Some d"
      "d \<noteq> []" "CHR 0x00 \<notin> set d" "starts_with_char CHR ''/'' d"
    using socket_host_target by blast
  ultimately have "target_parse env u = Ok (UnixTarget d (target_path u))"
    using False by (auto simp: target_parse_def Let_def)
  then show ?thesis
    using \<open>url_scheme u \<in> {''http+unix'', ''unix+http''}\<close> by (auto simp: target_is_tls_def target_unix_path_def)
qed

lemma configured_target_ok:
  assumes "try_from cenv cli = Ok app" and "default_target app = Some u \<or> error_target app = Some u"
  shows "target_ok u"
  using try_from_fields[OF assms(1)] assms(2) parse_target_Ok parse_error_target_Ok by metis

text \<open>C30.
  Every default or error target of an accepted configuration is a target that the proxy can route
  to: parsing it succeeds, with TLS exactly for \<open>https\<close> and with a socket path exactly for the Unix
  schemes.
\<close>

theorem configured_targets_parse:
  assumes "try_from cenv cli = Ok app"
    and "default_target app = Some u \<or> error_target app = Some u"
    and "http_url_laws u"
  shows "\<exists>t. target_parse env u = Ok t \<and> (target_is_tls t \<longleftrightarrow> url_scheme u = ''https'')
           \<and> (target_unix_path t = None \<longleftrightarrow> url_scheme u \<in> {''http'', ''https''})"
  using assms configured_target_ok target_ok_parses by blast

section \<open>Request headers\<close>

text \<open>\<open>HeaderName::from_bytes\<close> accepts names in any case and keeps them in lower case.\<close>

definition lower_case_names :: "upstream_env \<Rightarrow> bool" where
  "lower_case_names env \<longleftrightarrow> (\<forall>t n. ue_header_name env t = Some n \<longrightarrow> n = to_ascii_lowercase t)"

definition CONNECTION_HEADERS :: "string set" where
  "CONNECTION_HEADERS = set HOP_BY_HOP \<union> {''connection'', ''upgrade''}"

text \<open>The values the header \<open>n\<close> has in the upstream request.\<close>

definition forwarded_values ::
  "upstream_env \<Rightarrow> header_map \<Rightarrow> target \<Rightarrow> proxy_options \<Rightarrow> (string \<times> string) list \<Rightarrow> string \<Rightarrow> string list" where
  "forwarded_values env h t options custom n =
     (case map_of (rev custom) n of
        Some v \<Rightarrow> [v]
      | None \<Rightarrow>
          if n = ''host'' \<and> change_origin options then [target_authority t]
          else
            (let kept = (if n \<in> declared_hop_by_hop env h then [] else hm_get_all n h)
             in if n = ''x-forwarded-host'' \<and> x_forward options \<and> kept = []
                then (case hm_get ''host'' h of Some v \<Rightarrow> [v] | None \<Rightarrow> [])
                else kept))"

lemma hm_get_all_fold_insert_all:
  "hm_get_all n (fold (\<lambda>(n, v). hm_insert n v) cs h) =
     (case map_of (rev cs) n of Some v \<Rightarrow> [v] | None \<Rightarrow> hm_get_all n h)"
proof (induction cs rule: rev_induct)
  case (snoc c cs)
  then show ?case by (cases c) (auto simp: header_laws)
qed simp

lemma connection_tokens_cong:
  "hm_get_all ''connection'' h = hm_get_all ''connection'' h' \<Longrightarrow> connection_tokens h = connection_tokens h'"
  by (simp add: connection_tokens_def)

lemma websocket_upgrade_value:
  "is_websocket_upgrade h \<Longrightarrow> \<exists>v. hm_get ''upgrade'' h = Some v \<and> eq_ignore_ascii_case v ''websocket''"
  by (auto simp: is_websocket_upgrade_def header_to_str_def split: option.splits bind_splits if_splits)

text \<open>The request headers before the second removal of hop-by-hop headers.\<close>

definition edited_headers ::
  "upstream_env \<Rightarrow> header_map \<Rightarrow> target \<Rightarrow> proxy_options \<Rightarrow> (string \<times> string) list \<Rightarrow> header_map" where
  "edited_headers env h t options custom =
     (let headers = remove_hop_by_hop env (is_websocket_upgrade h) h;
          headers = (if x_forward options \<and> \<not> hm_contains ''x-forwarded-host'' headers
                     then (case hm_get ''host'' h of
                             Some host \<Rightarrow> hm_insert ''x-forwarded-host'' host headers
                           | None \<Rightarrow> headers)
                     else headers);
          headers = (if change_origin options then hm_insert ''host'' (target_authority t) headers else headers)
      in fold (\<lambda>(n, v). hm_insert n v) custom headers)"

lemma apply_request_headers_Ok:
  assumes "apply_request_headers env h t options = Ok h'"
  obtains custom where "parse_custom env (custom_headers options) = Ok custom"
    and "h' = (let r = remove_hop_by_hop env False (edited_headers env h t options custom)
               in if is_websocket_upgrade h
                  then hm_insert ''upgrade'' (the (hm_get ''upgrade'' h)) (hm_insert ''connection'' ''upgrade'' r)
                  else r)"
  using assms websocket_upgrade_value[of h]
  by (cases "hm_get ''host'' h") (auto simp: apply_request_headers_def edited_headers_def Let_def split: if_splits)

lemma lower_upgrade: "to_ascii_lowercase ''upgrade'' = ''upgrade''"
  by (simp add: to_ascii_lowercase_def byte_def)

lemma first_removal:
  assumes "lower_case_names env" and "n \<notin> CONNECTION_HEADERS"
  shows "hm_get_all n (remove_hop_by_hop env w h) = (if n \<in> declared_hop_by_hop env h then [] else hm_get_all n h)"
proof (cases w)
  case True
  have "n \<in> set (List.map_filter (ue_header_name env) (filter (\<lambda>t. \<not> eq_ignore_ascii_case t ''upgrade'') (connection_tokens h)))
        \<longleftrightarrow> n \<in> declared_hop_by_hop env h"
    using assms
    by (auto simp: declared_hop_by_hop_def map_filter_def lower_case_names_def CONNECTION_HEADERS_def
        eq_ignore_ascii_case_def lower_upgrade image_iff)
  then show ?thesis
    using True assms(2) by (auto simp: hm_get_all_websocket CONNECTION_HEADERS_def)
qed (use assms(2) in \<open>auto simp: hm_get_all_hop_by_hop CONNECTION_HEADERS_def\<close>)

lemma hm_contains_values: "hm_contains n h \<longleftrightarrow> hm_get_all n h \<noteq> []"
  by (simp add: hm_contains_def hm_get_hd split: list.splits)

lemma edited_values:
  assumes "lower_case_names env" and "n \<notin> CONNECTION_HEADERS"
  shows "hm_get_all n (edited_headers env h t options custom) = forwarded_values env h t options custom n"
proof -
  have x: "''x-forwarded-host'' \<notin> CONNECTION_HEADERS" "''host'' \<notin> CONNECTION_HEADERS"
    by (simp_all add: CONNECTION_HEADERS_def HOP_BY_HOP_def)
  show ?thesis
    by (cases "map_of (rev custom) n"; cases "hm_get ''host'' h")
       (auto simp: edited_headers_def forwarded_values_def Let_def hm_get_all_fold_insert_all header_laws
        hm_contains_values first_removal[OF assms(1) x(1)] first_removal[OF assms])
qed

lemma edited_connection:
  assumes "''connection'' \<notin> fst ` set custom"
  shows "hm_get_all ''connection'' (edited_headers env h t options custom) = (if is_websocket_upgrade h then [''upgrade''] else [])"
  using assms
  by (cases "hm_get ''host'' h"; cases "is_websocket_upgrade h")
     (auto simp: edited_headers_def Let_def hm_get_all_fold_insert header_laws hm_get_all_websocket
      hm_get_all_hop_by_hop)

lemma connection_tokens_upgrade: "hm_get_all ''connection'' h = [''upgrade''] \<Longrightarrow> connection_tokens h = [''upgrade'']"
  by (simp add: connection_tokens_def header_to_str_def byte_def List.map_filter_simps str_trim_def trim_chars_def is_whitespace_def)

lemma edited_declares:
  assumes "lower_case_names env" and "''connection'' \<notin> fst ` set custom"
  shows "declared_hop_by_hop env (edited_headers env h t options custom) \<subseteq> {''upgrade''}"
proof (cases "is_websocket_upgrade h")
  case True
  then have "connection_tokens (edited_headers env h t options custom) = [''upgrade'']"
    using edited_connection[OF assms(2)] connection_tokens_upgrade by simp
  moreover have "n = ''upgrade''" if "ue_header_name env ''upgrade'' = Some n" for n
    using assms(1) that lower_upgrade by (metis lower_case_names_def)
  ultimately show ?thesis
    by (auto simp: declared_hop_by_hop_def map_filter_def)
next
  case False
  then show ?thesis
    using edited_connection[OF assms(2), of env h t options]
    by (simp add: declared_hop_by_hop_def connection_tokens_def map_filter_def)
qed

lemma hop_by_hop_removed:
  assumes "apply_request_headers env h t options = Ok h'" and "n \<in> set HOP_BY_HOP"
  shows "hm_get_all n h' = []"
proof -
  obtain custom where "h' = (let r = remove_hop_by_hop env False (edited_headers env h t options custom)
               in if is_websocket_upgrade h
                  then hm_insert ''upgrade'' (the (hm_get ''upgrade'' h)) (hm_insert ''connection'' ''upgrade'' r)
                  else r)"
    using apply_request_headers_Ok[OF assms(1)] by metis
  then show ?thesis
    using assms(2) by (auto simp: Let_def header_laws hm_get_all_hop_by_hop HOP_BY_HOP_def)
qed



section \<open>Redirects\<close>

text \<open>C33.
  A response is changed only in its \<open>location\<close> header, and only when rewriting is enabled, the status
  is one of the five rewritten ones and the location's host and port are the target's own: a redirect
  to another site is passed on untouched.
\<close>

theorem only_own_redirects_rewritten:
  assumes "rewrite_location env status h req t options = Ok h'"
  shows "(n \<noteq> ''location'' \<longrightarrow> hm_get_all n h' = hm_get_all n h)
       \<and> (h' \<noteq> h \<longrightarrow>
            status \<in> {201, 301, 302, 307, 308}
            \<and> (auto_rewrite options \<or> protocol_rewrite options \<noteq> None)
            \<and> (\<exists>location url. hm_get ''location'' h = Some location \<and> ul_parse (ue_url env) location = Ok url
                 \<and> url_host_of env url = Some (target_authority t)))"
  using assms
  by (auto simp: rewrite_location_def is_redirect_rewrite_status_def header_to_str_def header_laws Let_def
      split: if_splits option.splits result.splits)

section \<open>Instances\<close>

definition sample_location :: url_view where
  "sample_location = sample_url\<lparr>url_port := None, url_text := ''http://hub/''\<rparr>"

definition sample_upstream_env :: upstream_env where
  "sample_upstream_env =
     \<lparr>ue_url = \<lparr>ul_parse = (\<lambda>s. if s = ''http://hub/'' then Ok sample_location else Err s),
                ul_set_host = (\<lambda>u h. Some (u\<lparr>url_host := Some h, url_text := ''http://'' @ h @ ''/''\<rparr>)),
                ul_set_port = (\<lambda>u p. Some (u\<lparr>url_port := Some p\<rparr>)),
                ul_set_scheme = (\<lambda>u s. None), ul_is_ipv6 = (\<lambda>h. CHR '':'' \<in> set h)\<rparr>,
      ue_uri = Ok,
      ue_header_name = (\<lambda>s. if s = [] then None else Some (to_ascii_lowercase s)),
      ue_header_value = (\<lambda>v. CHR 0x0A \<notin> set v)\<rparr>"

definition sample_options :: proxy_options where
  "sample_options =
     \<lparr>x_forward = True, prepend_path = True, include_prefix = True, auto_rewrite = True, change_origin = True,
      protocol_rewrite = None, custom_headers = [(''te'', ''trailers''), (''x-env'', ''prod'')],
      verify_upstream_tls = True, host_routing = False, timeout_ms = None, proxy_timeout_ms = None,
      keep_alive_timeout_ms = Some 5000\<rparr>"

definition sample_target :: target where
  "sample_target = TcpTarget ''hub'' 80 ''hub'' ''/'' False"

definition sample_request :: header_map where
  "sample_request =
     [(''host'', ''site''), (''connection'', ''x-hop''), (''x-hop'', ''1''), (''te'', ''gzip''),
      (''accept'', ''a''), (''accept'', ''b'')]"

lemma sample_env_simps [simp]:
  "ue_header_name sample_upstream_env s = (if s = [] then None else Some (to_ascii_lowercase s))"
  "ue_header_value sample_upstream_env v \<longleftrightarrow> CHR 0x0A \<notin> set v"
  "ul_parse (ue_url sample_upstream_env) ''http://hub/'' = Ok sample_location"
  "ul_set_host (ue_url sample_upstream_env) u h = Some (u\<lparr>url_host := Some h, url_text := ''http://'' @ h @ ''/''\<rparr>)"
  by (simp_all add: sample_upstream_env_def)

lemma sample_names:
  "to_ascii_lowercase ''te'' = ''te''" "to_ascii_lowercase ''x-env'' = ''x-env''" "to_ascii_lowercase ''x-hop'' = ''x-hop''"
  by (simp_all add: to_ascii_lowercase_def byte_def)

lemma sample_texts: "header_to_str ''x-hop'' = Some ''x-hop''" "str_trim ''x-hop'' = ''x-hop''"
  by (simp_all add: header_to_str_def str_trim_def trim_chars_def is_whitespace_def byte_def)

lemma sample_tokens: "connection_tokens sample_request = [''x-hop'']"
  by (simp add: connection_tokens_def sample_request_def hm_get_all_def List.map_filter_simps sample_texts)

lemma no_tokens: "hm_get_all ''connection'' h = [] \<Longrightarrow> connection_tokens h = []"
  by (simp add: connection_tokens_def List.map_filter_simps)

lemma sample_not_websocket: "\<not> is_websocket_upgrade sample_request"
  by (simp add: is_websocket_upgrade_def sample_request_def hm_get_def)

lemma sample_first_removal:
  "remove_hop_by_hop sample_upstream_env False sample_request = [(''host'', ''site''), (''accept'', ''a''), (''accept'', ''b'')]"
  by (simp add: remove_hop_by_hop_def sample_tokens List.map_filter_simps sample_names HOP_BY_HOP_def)
     (simp add: hm_remove_def sample_request_def)

lemma sample_second_removal:
  "remove_hop_by_hop sample_upstream_env False
     [(''accept'', ''a''), (''accept'', ''b''), (''x-forwarded-host'', ''site''), (''host'', ''hub''),
      (''te'', ''trailers''), (''x-env'', ''prod'')] =
     [(''accept'', ''a''), (''accept'', ''b''), (''x-forwarded-host'', ''site''), (''host'', ''hub''), (''x-env'', ''prod'')]"
  by (simp add: remove_hop_by_hop_def no_tokens hm_get_all_def List.map_filter_simps HOP_BY_HOP_def hm_remove_def)

lemma sample_custom:
  "parse_custom sample_upstream_env (custom_headers sample_options) = Ok [(''te'', ''trailers''), (''x-env'', ''prod'')]"
  by (simp add: sample_options_def sample_names)

lemma sample_forwarded:
  "apply_request_headers sample_upstream_env sample_request sample_target sample_options =
     Ok [(''accept'', ''a''), (''accept'', ''b''), (''x-forwarded-host'', ''site''), (''host'', ''hub''), (''x-env'', ''prod'')]"
proof -
  have "hm_get ''host'' sample_request = Some ''site''" "target_authority sample_target = ''hub''"
    "change_origin sample_options" "x_forward sample_options"
    by (simp_all add: sample_request_def hm_get_def target_authority_def sample_target_def sample_options_def)
  then show ?thesis
    by (simp add: apply_request_headers_def sample_custom sample_not_websocket sample_first_removal Let_def)
       (simp add: hm_contains_def hm_get_def hm_insert_def hm_remove_def sample_second_removal)
qed

lemma sample_lower_case: "lower_case_names sample_upstream_env"
  by (simp add: lower_case_names_def)

lemma sample_host: "host_name ''site'' = ''site''" "host_port ''site'' = None"
  by (simp_all add: host_name_def host_port_def rsplit_once_def)

theorem configured_targets_parse_witness:
  "http_url_laws sample_url
   \<and> (\<exists>app t. try_from sample_config_env sample_cli = Ok app \<and> default_target app = Some sample_url
        \<and> target_parse sample_upstream_env sample_url = Ok t \<and> \<not> target_is_tls t \<and> target_unix_path t = None)"
proof -
  have laws: "http_url_laws sample_url" by (simp add: http_url_laws_def sample_url_def)
  obtain app where app: "try_from sample_config_env sample_cli = Ok app" using sample_accepted by blast
  then have "default_target app = Some sample_url"
    using try_from_fields(6)[OF app] by (simp add: sample_parts)
  then show ?thesis
    using configured_targets_parse[OF app _ laws, of sample_upstream_env] app laws
    by (auto simp: sample_url_def)
qed



theorem only_own_redirects_rewritten_witness:
  "rewrite_location sample_upstream_env 302 [(''location'', ''http://hub/'')] [(''host'', ''site'')]
     sample_target sample_options = Ok [(''location'', ''http://site/'')]
   \<and> (\<exists>url. ul_parse (ue_url sample_upstream_env) ''http://hub/'' = Ok url
        \<and> url_host_of sample_upstream_env url = Some (target_authority sample_target))"
proof -
  have "header_to_str ''http://hub/'' = Some ''http://hub/''" "header_to_str ''site'' = Some ''site''"
    by (simp_all add: header_to_str_def byte_def)
  moreover have "url_host_of sample_upstream_env sample_location = Some (target_authority sample_target)"
    by (simp add: url_host_of_def url_authority_def sample_location_def sample_url_def target_authority_def
        sample_target_def sample_upstream_env_def)
  ultimately have eq: "rewrite_location sample_upstream_env 302 [(''location'', ''http://hub/'')] [(''host'', ''site'')]
     sample_target sample_options = Ok [(''location'', ''http://site/'')]"
    by (simp add: rewrite_location_def is_redirect_rewrite_status_def hm_get_def sample_host sample_options_def)
       (simp add: hm_insert_def hm_remove_def)
  show ?thesis
    using eq only_own_redirects_rewritten[OF eq, of "''location''"] by (auto simp: hm_get_def)
qed

end
