(* ===== verification/Errors_Safety.thy ===== *)
theory Errors_Safety
  imports Errors
begin

text \<open>
  Bounds, termination and the chunked round trip of \<open>Errors\<close>: whatever the error target or the
  error directory delivers, a rendered error is bounded and the read loop ends.
\<close>

section \<open>Bounds\<close>

lemma decode_chunks_bounded:
  "decode_chunks acc input = Some body \<Longrightarrow> length acc \<le> MAX_ERROR_BODY_BYTES
   \<Longrightarrow> length body \<le> MAX_ERROR_BODY_BYTES"
proof (induction acc input rule: decode_chunks.induct)
  case (1 acc input)
  obtain e where e: "window_position CRLF input = Some e"
    using "1.prems" by (auto simp: decode_chunks.simps[of acc input] split: option.splits)
  obtain n where n: "chunk_size (take e input) = Some n"
    using "1.prems" e by (auto simp: decode_chunks.simps[of acc input] split: option.splits)
  show ?case
  proof (cases "n = 0")
    case True
    then show ?thesis
      using "1.prems" by (auto simp: decode_chunks.simps[of acc input] e n split: if_splits)
  next
    case False
    let ?i = "drop (e + 2) input"
    obtain rest where r: "\<not> length ?i < n" "\<not> MAX_ERROR_BODY_BYTES < length (acc @ take n ?i)"
        "strip_prefix CRLF (drop n ?i) = Some rest" "decode_chunks (acc @ take n ?i) rest = Some body"
      using "1.prems" False
      by (auto simp: decode_chunks.simps[of acc input] e n Let_def split: if_splits option.splits)
    show ?thesis
      using "1.IH"[OF e n refl False r(1) refl r(2,3,4)] r(2) by simp
  qed
qed

lemma response_framing_bounded:
  "response_framing env hs fr = Some fr' \<Longrightarrow> (\<forall>n. fr_content_length fr = Some n \<longrightarrow> n \<le> MAX_ERROR_BODY_BYTES)
   \<Longrightarrow> fr_content_length fr' = Some n \<Longrightarrow> n \<le> MAX_ERROR_BODY_BYTES"
  by (induction env hs fr arbitrary: n rule: response_framing.induct) (auto split: if_splits option.splits)

lemma parse_http_response_bounded:
  assumes "parse_http_response env response eof = Some r"
  shows "length (re_body r) \<le> MAX_ERROR_BODY_BYTES"
proof -
  let ?start = "\<lparr>fr_content_type = None, fr_content_encoding = None, fr_chunked = False, fr_content_length = None\<rparr>"
  obtain hs fr raw where fr: "response_framing env hs ?start = Some fr"
    and body: "response_body fr raw eof = Some (re_body r)"
    using assms
    by (auto simp: parse_http_response_def bind_eq_Some_conv split: if_splits http_parse.splits)
  show ?thesis
    using body response_framing_bounded[OF fr] decode_chunks_bounded[of "[]" raw "re_body r"]
    by (auto simp: response_body_def decode_chunked_def split: if_splits option.splits dest!: sym[of _ "re_body r"])
qed

lemma read_response_bounded:
  "read_response env response events = Finished (Some r) \<Longrightarrow> length (re_body r) \<le> MAX_ERROR_BODY_BYTES"
  by (induction env response events rule: read_response.induct)
     (auto simp: Let_def parse_http_response_bounded split: if_splits option.splits)

lemma by_deadline_Some: "by_deadline p = Some r \<longleftrightarrow> p = Finished (Some r)"
  by (auto simp: by_deadline_def split: progress.splits)

lemma custom_error_bounded:
  "custom_error env t status uri = Some r \<Longrightarrow> length (re_body r) \<le> MAX_ERROR_BODY_BYTES"
  by (auto simp: custom_error_def bind_eq_Some_conv unix_custom_error_def bounded_request_def
      bounded_request_inner_def Let_def by_deadline_Some read_response_bounded
      split: if_splits option.splits result.splits)

lemma first_file_bounded: "first_file env root fs = Some body \<Longrightarrow> length body \<le> MAX_ERROR_BODY_BYTES"
  by (induction fs) (auto simp: read_bounded_file_def bind_eq_Some_conv split: option.splits if_splits)

lemma pages_bounded: "length CHP_404_HTML \<le> MAX_ERROR_BODY_BYTES" "length CHP_503_HTML \<le> MAX_ERROR_BODY_BYTES"
  by (simp_all add: CHP_404_HTML_def CHP_503_HTML_def page_def MAX_ERROR_BODY_BYTES_def)

text \<open>C35.
  Whatever the error target answers and whatever the error directory holds, the body of an error
  response is at most one mebibyte, its \<open>content-length\<close> is the length of that body, and the status
  sent is the status asked for. The reason phrases of the \<open>http\<close> package are assumed to be short.
\<close>

theorem error_responses_bounded:
  assumes "\<And>s r. ee_reason env s = Some r \<Longrightarrow> length r \<le> MAX_ERROR_BODY_BYTES"
  shows "length (er_body (respond env et ep status uri)) \<le> MAX_ERROR_BODY_BYTES
       \<and> hm_get_all ''content-length'' (er_headers (respond env et ep status uri)) =
           [decimal (length (er_body (respond env et ep status uri)))]
       \<and> er_status (respond env et ep status uri) = status"
proof -
  have "length (re_body (reason_phrase env status)) \<le> MAX_ERROR_BODY_BYTES"
    using assms by (auto simp: reason_phrase_def MAX_ERROR_BODY_BYTES_def split: option.splits)
  then have "length (re_body (render env et ep status uri)) \<le> MAX_ERROR_BODY_BYTES"
    by (auto simp: render_def html_error_def pages_bounded
        dest: custom_error_bounded first_file_bounded split: option.splits simp del: first_file.simps)
  then show ?thesis
    by (auto simp: respond_def Let_def header_laws split: option.splits)
qed

section \<open>The read loop ends\<close>

lemma pending_short:
  "read_response env response events = Pending \<Longrightarrow> length response \<le> MAX_UNIX_WIRE_BYTES
   \<Longrightarrow> length response + length events \<le> MAX_UNIX_WIRE_BYTES"
proof (induction env response events rule: read_response.induct)
  case (3 env response chunk events)
  then have "read_response env (response @ chunk) events = Pending" "chunk \<noteq> []"
      "length response + length chunk \<le> MAX_UNIX_WIRE_BYTES"
    by (auto simp: Let_def split: if_splits option.splits)
  moreover from this have "length (response @ chunk) + length events \<le> MAX_UNIX_WIRE_BYTES"
    using 3 by (auto simp: Let_def split: if_splits option.splits)
  moreover have "0 < length chunk" using calculation(2) by simp
  ultimately show ?case by (simp del: length_greater_0_conv)
qed auto

text \<open>C36.
  The loop that reads a response of the error target ends however the peer behaves: after at most
  as many reads as the wire limit has bytes, the result is decided.
\<close>

theorem error_read_loop_ends:
  assumes "MAX_UNIX_WIRE_BYTES < length events"
  shows "\<exists>r. read_response env [] events = Finished r"
  using pending_short[of env "[]" events] assms by (cases "read_response env [] events") auto

section \<open>Chunked round trip\<close>

fun hex_text :: "nat \<Rightarrow> string" where
  "hex_text n = (if n < 16 then [hex_digit n] else hex_text (n div 16) @ [hex_digit (n mod 16)])"

declare hex_text.simps [simp del]

definition chunk_text :: "string \<Rightarrow> string" where
  "chunk_text c = hex_text (length c) @ CRLF @ c @ CRLF"

definition encode_chunked :: "string list \<Rightarrow> string" where
  "encode_chunked cs = concat (map chunk_text cs) @ ''0'' @ CRLF @ CRLF"

lemma hex_digits_value_append:
  "hex_digits_value acc (s @ t) = Option.bind (hex_digits_value acc s) (\<lambda>a. hex_digits_value a t)"
  by (induction acc s rule: hex_digits_value.induct) (auto split: option.splits)

lemma hex_digits_value_text: "hex_digits_value 0 (hex_text n) = Some n"
proof (induction n rule: hex_text.induct)
  case (1 n)
  then show ?case
    by (cases "n < 16") (auto simp: hex_text.simps[of n] hex_digits_value_append hex_value_digit)
qed

lemma hex_text_alphanumeric: "list_all is_ascii_alphanumeric (hex_text n)"
proof (induction n rule: hex_text.induct)
  case (1 n)
  then show ?case by (cases "n < 16") (auto simp: hex_text.simps[of n] hex_digit_ascii)
qed

lemma hex_text_nonempty: "hex_text n \<noteq> []"
  by (simp add: hex_text.simps[of n])

lemma alphanumeric_byte: "is_ascii_alphanumeric c \<Longrightarrow> 48 \<le> byte c \<and> byte c < 128 \<and> byte c \<noteq> 59"
  by (auto simp: is_ascii_alphanumeric_def is_ascii_alphabetic_def is_ascii_digit_def)

lemma alphanumeric_chars:
  "list_all is_ascii_alphanumeric s \<Longrightarrow> utf8_chars s = map (\<lambda>c. (byte c, [c])) s"
  by (induction s) (auto dest: alphanumeric_byte)

lemma alphanumeric_trim:
  assumes "list_all is_ascii_alphanumeric s"
  shows "str_trim s = s"
proof -
  have "\<not> is_whitespace (byte c)" if "c \<in> set s" for c
    using alphanumeric_byte[of c] assms that by (auto simp: list_all_iff is_whitespace_def)
  then have "dropWhile (\<lambda>x. is_whitespace (fst x)) (map (\<lambda>c. (byte c, [c])) t) = map (\<lambda>c. (byte c, [c])) t"
    if "set t \<subseteq> set s" for t
    using that by (cases t) auto
  from this[of s] this[of "rev s"] show ?thesis
    by (simp add: str_trim_def alphanumeric_chars[OF assms] trim_chars_def flip: rev_map) (simp add: rev_map comp_def)
qed

lemma split_char_absent: "c \<notin> set s \<Longrightarrow> split_char c s = [s]"
  by (induction s) auto

lemma chunk_size_text:
  assumes "n < 2 ^ 64"
  shows "chunk_size (hex_text n) = Some n"
proof -
  have b: "\<forall>c\<in>set (hex_text n). 48 \<le> byte c \<and> byte c < 128 \<and> byte c \<noteq> 59"
    using hex_text_alphanumeric[of n] alphanumeric_byte by (auto simp: list_all_iff)
  then have "CHR '';'' \<notin> set (hex_text n)" "CHR ''+'' \<notin> set (hex_text n)" "utf8_valid (hex_text n)"
    by (auto simp: byte_def intro!: utf8_valid_ascii)
  then show ?thesis
    using assms hex_text_nonempty[of n] hex_digits_value_text[of n] alphanumeric_trim[OF hex_text_alphanumeric[of n]]
    by (cases "hex_text n")
       (auto simp: chunk_size_def from_utf8_def split_char_absent usize_from_hex_def simp del: hex_digits_value.simps)
qed

lemma window_position_line:
  assumes "CHR 0x0D \<notin> set s"
  shows "window_position CRLF (s @ CRLF @ t) = Some (length s)"
  using assms by (induction s) (auto simp: CRLF_def starts_with_def)

lemma hex_text_no_cr: "CHR 0x0D \<notin> set (hex_text n)"
  using hex_text_alphanumeric[of n] alphanumeric_byte[of "CHR 0x0D"] by (auto simp: list_all_iff byte_def)

lemma decode_chunk:
  assumes "c \<noteq> []" and "length (acc @ c) \<le> MAX_ERROR_BODY_BYTES"
  shows "decode_chunks acc (chunk_text c @ t) = decode_chunks (acc @ c) t"
proof -
  have "length c < 2 ^ 64" using assms(2) by (simp add: MAX_ERROR_BODY_BYTES_def)
  moreover have "strip_prefix CRLF (CRLF @ t) = Some t" by (simp add: strip_prefix_Some)
  moreover have "drop (length (hex_text (length c)) + 2) (chunk_text c @ t) = c @ CRLF @ t"
    by (simp add: chunk_text_def CRLF_def)
  ultimately show ?thesis
    using assms window_position_line[OF hex_text_no_cr, of "length c" "c @ CRLF @ t"]
    by (subst decode_chunks.simps) (simp add: chunk_text_def chunk_size_text)
qed

lemma decode_end: "decode_chunks acc (''0'' @ CRLF @ CRLF) = Some acc"
proof -
  have "hex_text 0 = ''0''" by (simp add: hex_text.simps hex_digit_def char_of_def bit_0)
  then show ?thesis
    using window_position_line[OF hex_text_no_cr, of 0 CRLF] chunk_size_text[of 0]
    by (subst decode_chunks.simps) (simp add: CRLF_def starts_with_def)
qed

lemma decode_chunk_list:
  "\<forall>c\<in>set cs. c \<noteq> [] \<Longrightarrow> length (acc @ concat cs) \<le> MAX_ERROR_BODY_BYTES
   \<Longrightarrow> decode_chunks acc (encode_chunked cs) = Some (acc @ concat cs)"
proof (induction cs arbitrary: acc)
  case Nil
  then show ?case using decode_end by (simp add: encode_chunked_def)
next
  case (Cons c cs)
  then show ?case
    using decode_chunk[of c acc "encode_chunked cs"] by (simp add: encode_chunked_def)
qed

text \<open>C37.
  Decoding inverts chunked transfer encoding: a body sent in any non-empty chunks that fits the
  limit is recovered exactly.
\<close>

theorem chunked_round_trip:
  assumes "\<forall>c\<in>set cs. c \<noteq> []" and "length (concat cs) \<le> MAX_ERROR_BODY_BYTES"
  shows "decode_chunked (encode_chunked cs) = Some (concat cs)"
  using decode_chunk_list[of cs "[]"] assms by (simp add: decode_chunked_def)

section \<open>Instances\<close>

definition sample_error_env :: "nat error_env" where
  "sample_error_env =
     \<lparr>ee_upstream =
        \<lparr>ue_url = \<lparr>ul_parse = Err, ul_set_host = (\<lambda>u h. None), ul_set_port = (\<lambda>u p. None),
                   ul_set_scheme = (\<lambda>u s. None), ul_is_ipv6 = (\<lambda>_. False)\<rparr>,
         ue_uri = Ok, ue_header_name = Some, ue_header_value = (\<lambda>_. True)\<rparr>, ee_httparse = (\<lambda>_. ParseError), ee_header_bytes = (\<lambda>_. True),
      ee_connect = (\<lambda>_. True), ee_unix_connect = (\<lambda>_. False), ee_write = (\<lambda>_. True), ee_reads = (\<lambda>_. []),
      ee_serialized = True, ee_lease = None, ee_open = (\<lambda>_. Some 0), ee_openat_dir = (\<lambda>d n. Some (d + 1)),
      ee_openat_path = (\<lambda>d n. Some (d + 1)), ee_openat_read = (\<lambda>d n. Some (d + 1)),
      ee_fstat = (\<lambda>d. Some \<lparr>st_kind = RegularFile, st_size = 4, st_dev = 0, st_ino = d\<rparr>),
      ee_metadata_len = (\<lambda>_. Some 4), ee_content = (\<lambda>d n. Some ''gone''),
      ee_reason = (\<lambda>s. if s = 500 then Some ''Internal Server Error'' else None)\<rparr>"

theorem error_responses_bounded_witness:
  "length (er_body (respond sample_error_env None None 500 ''/x'')) \<le> MAX_ERROR_BODY_BYTES
   \<and> er_body (respond sample_error_env None None 500 ''/x'') = ''Internal Server Error''"
proof -
  have "length r \<le> MAX_ERROR_BODY_BYTES" if "ee_reason sample_error_env s = Some r" for s r
    using that by (auto simp: sample_error_env_def MAX_ERROR_BODY_BYTES_def split: if_splits)
  then show ?thesis
    using error_responses_bounded[of sample_error_env None None 500 "''/x''"]
    by (simp add: respond_def render_def reason_phrase_def sample_error_env_def Let_def)
qed

theorem error_read_loop_ends_witness:
  "\<exists>r. read_response sample_error_env [] (replicate (Suc MAX_UNIX_WIRE_BYTES) (ReadBytes ''x'')) = Finished r"
  by (rule error_read_loop_ends) simp

theorem chunked_round_trip_witness:
  "decode_chunked (encode_chunked [''ab'', ''cde'']) = Some ''abcde''"
  using chunked_round_trip[of "[''ab'', ''cde'']"] by (simp add: MAX_ERROR_BODY_BYTES_def)

end
