(* ===== verification/Proxy_Safety.thy ===== *)
theory Proxy_Safety
  imports Proxy Upstream_Safety Errors_Safety
begin

text \<open>
  What the client and the upstream of the proxy see: requests that the proxy answers itself get one
  response and leave no trace in the traffic counter or the route activity, and the header values
  that an upstream request finally carries.
\<close>

section \<open>Requests the proxy answers itself\<close>

text \<open>
  The framework runs \<open>request_filter\<close>, then \<open>upstream_peer\<close> unless the request has been answered,
  \<open>fail_to_proxy\<close> after an error, and always \<open>logging\<close>. There is no result for a request that goes on
  to its upstream.
\<close>

definition failed_exchange where
  "failed_exchange env session e ctx s =
     (case fail_to_proxy env session e ctx s of
        (code, session, s) \<Rightarrow> Some (session, logging env session (Some e) ctx s))"

definition refused_exchange ::
  "('c, 'k, 'f, 'fd) proxy_env \<Rightarrow> session \<Rightarrow> ('s, 'f) proxy_state
   \<Rightarrow> (session \<times> request_context \<times> ('s, 'f) proxy_state) option" where
  "refused_exchange env session s =
     (case request_filter env session new_ctx s of
        (Ok True, session, ctx, s) \<Rightarrow> Some (session, logging env session None ctx s)
      | (Ok False, session, ctx, s) \<Rightarrow>
          (case upstream_peer env ctx of
             (Ok peer, ctx) \<Rightarrow> None
           | (Err e, ctx) \<Rightarrow> failed_exchange env session e ctx s)
      | (Err e, session, ctx, s) \<Rightarrow> failed_exchange env session e ctx s)"

definition fresh_session :: "session \<Rightarrow> bool" where
  "fresh_session session \<longleftrightarrow> se_write_ok session \<and> se_response_written session = None \<and> se_sent session = []"

text \<open>What every callback keeps: the writer, and the counter up to the slot the request holds.\<close>

definition keeps :: "('s, 'f) proxy_state \<Rightarrow> request_context \<Rightarrow> ('s, 'f) proxy_state \<Rightarrow> bool" where
  "keeps s ctx s' \<longleftrightarrow>
     ps_writer s' = ps_writer s
     \<and> tr_accepting (ps_traffic s') = tr_accepting (ps_traffic s)
     \<and> tr_accepts_stopped (ps_traffic s') = tr_accepts_stopped (ps_traffic s)
     \<and> tr_active (ps_traffic s') = tr_active (ps_traffic s) + (if cx_admitted ctx then 1 else 0)"

lemma record_fields [simp]:
  "ps_writer (record_proxy_status n s) = ps_writer s" "ps_traffic (record_proxy_status n s) = ps_traffic s"
  "ps_writer (record_request_kind se s) = ps_writer s" "ps_traffic (record_request_kind se s) = ps_traffic s"
  "ps_writer (record_public_failure se n s) = ps_writer s" "ps_traffic (record_public_failure se n s) = ps_traffic s"
  by (simp_all add: record_proxy_status_def record_request_kind_def record_public_failure_def)

lemma write_fresh:
  "fresh_session session \<Longrightarrow>
     write_response r session = (Ok (), session\<lparr>se_response_written := Some (er_status r), se_sent := [r]\<rparr>)"
  by (simp add: fresh_session_def write_response_def)

lemma er_status_respond [simp]: "er_status (respond env et ep status uri) = status"
  by (simp add: respond_def Let_def)

definition answered_with :: "nat \<Rightarrow> session \<Rightarrow> bool" where
  "answered_with status session \<longleftrightarrow>
     se_response_written session = Some status \<and> (\<exists>r. se_sent session = [r] \<and> er_status r = status)"

lemma sends_answer:
  assumes "fresh_session session"
  shows "fst (send_empty n session) = Ok ()" "answered_with n (snd (send_empty n session))"
    and "fst (send_health session) = Ok ()" "answered_with 200 (snd (send_health session))"
    and "fst (errors_respond env n u session) = Ok ()" "answered_with n (snd (errors_respond env n u session))"
  using assms by (auto simp: send_empty_def send_health_def errors_respond_def write_fresh answered_with_def)

lemma fail_to_proxy_fresh:
  assumes "fail_to_proxy env session e ctx s = (code, session', s')" and "fresh_session session"
    and "pe_source e \<noteq> SourceDownstream"
  shows "code = class_status (error_classification e ctx)" and "answered_with code session'"
    and "ps_writer s' = ps_writer s" and "ps_traffic s' = ps_traffic s"
  using assms sends_answer[OF assms(2)]
  by (auto simp: fail_to_proxy_def fresh_session_def Let_def split: if_splits)

lemma logging_keeps:
  assumes "keeps s0 ctx s"
    and "e \<noteq> None \<or> cx_route_key ctx = None \<or> (\<exists>n \<ge> 300. se_response_written session = Some n)"
    and "logging env session e ctx s = (ctx', s')"
  shows "ps_writer s' = ps_writer s0" and "ps_traffic s' = ps_traffic s0" and "\<not> cx_admitted ctx'"
  using assms
  by (auto simp: logging_def Let_def keeps_def claim_http_completion_activity_def claim_request_activity_def
      publish_activity_def release_traffic_admission_def traffic_finish_def split: if_splits option.splits)

definition arrived_ctx :: "session \<Rightarrow> request_context" where
  "arrived_ctx session =
     new_ctx\<lparr>cx_admitted := True, cx_original_uri := se_uri session,
             cx_original_host := hm_get ''host'' (se_headers session)\<rparr>"

definition refusal_status :: "('c, 'k, 'f, 'fd) proxy_env \<Rightarrow> session \<Rightarrow> ('s, 'f) proxy_state \<Rightarrow> nat" where
  "refusal_status env session s =
     (if \<not> tr_accepting (ps_traffic s) \<or> consistency_status (w_registry (ps_writer s)) = Inconsistent then 503
      else if uri_text (se_uri session) = HEALTH_PATH then 200
      else
        (case fst (route_for_request env (w_registry (ps_writer s)) session (arrived_ctx session)) of
           Err _ \<Rightarrow> 500
         | Ok None \<Rightarrow> 404
         | Ok (Some route) \<Rightarrow>
             (case http_peer_of (px_peer env) (up_target route) (px_tls env) of
                Err e \<Rightarrow> if is_unavailable e then 503 else 500
              | Ok _ \<Rightarrow> 200)))"

lemma route_for_request_ctx:
  assumes "route_for_request env registry session ctx = (r, ctx')"
  shows "cx_admitted ctx' = cx_admitted ctx" and "r = Ok None \<Longrightarrow> ctx' = ctx"
    and "r = Err e \<Longrightarrow> pe_source e = SourceInternal \<and> cx_error_class ctx' = Some Internal"
  using assms by (auto simp: route_for_request_def internal_error_def split: option.splits result.splits)

lemma new_ctx_fields [simp]: "cx_route_key new_ctx = None" "\<not> cx_admitted new_ctx"
  by (simp_all add: new_ctx_def)

lemma request_filter_rejects:
  assumes "fresh_session session"
    and "\<not> tr_accepting (ps_traffic s) \<or> consistency_status (w_registry (ps_writer s)) = Inconsistent
       \<or> uri_text (se_uri session) = HEALTH_PATH"
    and "request_filter env session new_ctx s = (r, session', ctx, s')"
  shows "r = Ok True \<and> keeps s ctx s' \<and> cx_route_key ctx = None \<and> answered_with (refusal_status env session s) session'"
  using assms(2,3) sends_answer[OF assms(1)]
  by (auto simp: request_filter_def try_admit_def answered_def keeps_def refusal_status_def Let_def split: if_splits)

lemma request_filter_routes:
  assumes "fresh_session session"
    and "tr_accepting (ps_traffic s)" and "consistency_status (w_registry (ps_writer s)) \<noteq> Inconsistent"
    and "uri_text (se_uri session) \<noteq> HEALTH_PATH"
    and "route_for_request env (w_registry (ps_writer s)) session (arrived_ctx session) = (route, ctx1)"
    and "request_filter env session new_ctx s = (r, session', ctx, s')"
  shows "keeps s ctx s' \<and>
     (case route of
        Err e \<Rightarrow> r = Err e \<and> session' = session \<and> ctx = ctx1
      | Ok None \<Rightarrow> r = Ok True \<and> cx_route_key ctx = None \<and> answered_with 404 session'
      | Ok (Some u) \<Rightarrow> r = Ok False \<and> session' = session \<and> cx_upstream_route ctx = Some u)"
proof -
  have "cx_admitted ctx1" "route = Ok None \<Longrightarrow> cx_route_key ctx1 = None"
    using route_for_request_ctx[OF assms(5)] by (auto simp: arrived_ctx_def)
  then show ?thesis
    using assms(2-6) sends_answer(5,6)[OF assms(1)]
    by (auto simp: request_filter_def try_admit_def answered_def keeps_def Let_def arrived_ctx_def
        split: result.splits option.splits)
qed

lemma failed_exchange_answers:
  assumes "failed_exchange env session e ctx s = Some (session', ctx', s')" and "fresh_session session"
    and "pe_source e \<noteq> SourceDownstream" and "keeps s0 ctx s"
  shows "answered_with (class_status (error_classification e ctx)) session'
       \<and> ps_writer s' = ps_writer s0 \<and> ps_traffic s' = ps_traffic s0 \<and> \<not> cx_admitted ctx'"
proof -
  obtain code se1 s1 where f: "fail_to_proxy env session e ctx s = (code, se1, s1)"
    by (cases "fail_to_proxy env session e ctx s") auto
  note F = fail_to_proxy_fresh[OF f assms(2,3)]
  have k: "keeps s0 ctx s1" using assms(4) F(3,4) by (simp add: keeps_def)
  have l: "logging env se1 (Some e) ctx s1 = (ctx', s')" and "session' = se1"
    using assms(1) f by (auto simp: failed_exchange_def)
  then show ?thesis using F(1,2) logging_keeps[OF k _ l] by simp
qed

lemma upstream_peer_fails:
  assumes "upstream_peer env ctx = (Err e, ctx')" and "cx_upstream_route ctx = Some u"
  obtains te where "http_peer_of (px_peer env) (up_target u) (px_tls env) = Err te"
    and "class_status (error_classification e ctx') = (if is_unavailable te then 503 else 500)"
    and "pe_source e \<noteq> SourceDownstream" and "cx_admitted ctx' = cx_admitted ctx"
  using assms
  by (auto simp: upstream_peer_def error_classification_def class_status_def split: result.splits if_splits)

lemma keeps_cong: "cx_admitted ctx = cx_admitted ctx' \<Longrightarrow> keeps s ctx s' = keeps s ctx' s'"
  by (simp add: keeps_def)

lemma routed_refusal:
  assumes "fresh_session session" and "refused_exchange env session s = Some (session', ctx', s')"
    and "request_filter env session new_ctx s = (r, se1, ctx1, s1)"
    and "tr_accepting (ps_traffic s)" and "consistency_status (w_registry (ps_writer s)) \<noteq> Inconsistent"
    and "uri_text (se_uri session) \<noteq> HEALTH_PATH"
  shows "answered_with (refusal_status env session s) session'
       \<and> ps_writer s' = ps_writer s \<and> ps_traffic s' = ps_traffic s"
proof -
  obtain route ctx2 where rt:
    "route_for_request env (w_registry (ps_writer s)) session (arrived_ctx session) = (route, ctx2)"
    by (cases "route_for_request env (w_registry (ps_writer s)) session (arrived_ctx session)") auto
  note Q = request_filter_routes[OF assms(1,4,5,6) rt assms(3)]
  consider (err) e where "route = Err e" | (miss) "route = Ok None" | (hit) u where "route = Ok (Some u)"
    by (cases route) (auto simp: option.split_sel)
  then show ?thesis
  proof cases
    case err
    have "pe_source e = SourceInternal" "cx_error_class ctx2 = Some Internal"
      using route_for_request_ctx(3)[OF rt err] by auto
    moreover have "failed_exchange env session e ctx2 s1 = Some (session', ctx', s')" "keeps s ctx2 s1"
      using assms(2,3) Q err by (auto simp: refused_exchange_def)
    ultimately show ?thesis
      using failed_exchange_answers[of env session e ctx2 s1 session' ctx' s' s] assms(1,4,5,6) err rt
      by (simp add: refusal_status_def error_classification_def class_status_def)
  next
    case miss
    have "logging env se1 None ctx1 s1 = (ctx', s')" "session' = se1" "answered_with 404 se1" "keeps s ctx1 s1"
        "cx_route_key ctx1 = None"
      using assms(2,3) Q miss by (auto simp: refused_exchange_def)
    then show ?thesis
      using logging_keeps[of s ctx1 s1 None se1 env ctx' s'] assms(4,5,6) miss rt by (simp add: refusal_status_def)
  next
    case (hit u)
    then have q: "r = Ok False" "se1 = session" "cx_upstream_route ctx1 = Some u" "keeps s ctx1 s1"
      using Q by auto
    obtain e ctx3 where p: "upstream_peer env ctx1 = (Err e, ctx3)"
      and x: "failed_exchange env session e ctx3 s1 = Some (session', ctx', s')"
      using assms(2,3) q(1,2) by (auto simp: refused_exchange_def split: prod.splits result.splits)
    obtain te where te: "http_peer_of (px_peer env) (up_target u) (px_tls env) = Err te"
      "class_status (error_classification e ctx3) = (if is_unavailable te then 503 else 500)"
      "pe_source e \<noteq> SourceDownstream" "cx_admitted ctx3 = cx_admitted ctx1"
      using upstream_peer_fails[OF p q(3)] by metis
    have k: "keeps s ctx3 s1" unfolding keeps_cong[OF te(4)] by (rule q(4))
    show ?thesis
      using failed_exchange_answers[OF x assms(1) te(3) k] te(1,2) assms(4,5,6) hit rt by (simp add: refusal_status_def)
  qed
qed

text \<open>C39.
  A request that does not reach an upstream is answered exactly once, with the status that its cause
  determines: 503 while shutting down or when the registry is uncertain, 200 for the health check,
  404 without a route, 500 for an unusable path or target, and 503 or 500 when no peer can be
  constructed. Its traffic slot is given back, and it never counts as activity of a route.
\<close>

theorem refused_requests_answered_once:
  assumes "fresh_session session" and "refused_exchange env session s = Some (session', ctx', s')"
  shows "answered_with (refusal_status env session s) session'
       \<and> ps_writer s' = ps_writer s \<and> ps_traffic s' = ps_traffic s"
proof -
  obtain r se1 ctx1 s1 where f: "request_filter env session new_ctx s = (r, se1, ctx1, s1)"
    by (cases "request_filter env session new_ctx s") auto
  show ?thesis
  proof (cases "\<not> tr_accepting (ps_traffic s) \<or> consistency_status (w_registry (ps_writer s)) = Inconsistent
       \<or> uri_text (se_uri session) = HEALTH_PATH")
    case True
    note R = request_filter_rejects[OF assms(1) True f]
    then have "logging env se1 None ctx1 s1 = (ctx', s')" "session' = se1"
      using assms(2) f by (auto simp: refused_exchange_def)
    then show ?thesis using R logging_keeps[of s ctx1 s1 None se1 env ctx' s'] by auto
  next
    case False
    then show ?thesis using routed_refusal[OF assms f] by blast
  qed
qed

section \<open>What the upstream receives\<close>

lemma hm_names_get_all: "n \<in> set (hm_names h) \<longleftrightarrow> hm_get_all n h \<noteq> []"
  by (auto simp: hm_names_def hm_get_all_def filter_empty_conv)

lemma hm_clear: "fold hm_remove (hm_names h) h = []"
proof -
  have "hm_get_all n (fold hm_remove (hm_names h) h) = []" for n
    using hm_names_get_all[of n h] by (auto simp: hm_get_all_fold_remove)
  then have "n \<notin> fst ` set (fold hm_remove (hm_names h) h)" for n
    by (auto simp: hm_get_all_def filter_empty_conv)
  then show ?thesis by (cases "fold hm_remove (hm_names h) h") force+
qed

definition append_named :: "string option \<times> string \<Rightarrow> header_map \<Rightarrow> header_map" where
  "append_named item r = (case item of (Some n, v) \<Rightarrow> hm_append n v r | (None, v) \<Rightarrow> r)"

lemma append_named_simps [simp]: "append_named (Some n, v) r = hm_append n v r" "append_named (None, v) r = r"
  by (simp_all add: append_named_def)

lemma append_unnamed: "fold append_named (map (\<lambda>v. (None, v)) vs) r = r"
  by (induction vs) simp_all

lemma append_groups:
  "distinct ns \<Longrightarrow>
   hm_get_all m (fold append_named
     (concat (map (\<lambda>n. case hm_get_all n h of [] \<Rightarrow> [] | v # vs \<Rightarrow> (Some n, v) # map (\<lambda>v. (None, v)) vs) ns)) r) =
   hm_get_all m r @ (if m \<in> set ns then take 1 (hm_get_all m h) else [])"
proof (induction ns arbitrary: r)
  case (Cons n ns)
  then show ?case
    by (cases "hm_get_all n h") (auto simp: append_unnamed header_laws)
qed simp

lemma replace_request_headers_values:
  "hm_get_all n (replace_request_headers request h) = take 1 (hm_get_all n h)"
proof -
  have "replace_request_headers request h = fold append_named (header_items h) []"
    by (simp add: replace_request_headers_def hm_clear append_named_def[abs_def] case_prod_unfold
        split: prod.splits option.splits)
  then show ?thesis
    using append_groups[of "hm_names h" n h "[]"] hm_names_get_all[of n h]
    by (auto simp: header_items_def hm_names_def hm_get_all_def)
qed

text \<open>C40.
  The request sent upstream carries at most one value of every header: of the values that the header
  policy determined, only the first survives. A client's second \<open>cookie\<close> or \<open>accept\<close> field is
  lost. The body framing is set anew.
\<close>

theorem upstream_gets_first_values:
  assumes "upstream_request_filter env session request ctx = (Ok (u, sent), ctx')"
  shows "\<exists>route headers. cx_upstream_route ctx = Some route
       \<and> upstream_headers env session ctx (up_target route) request = Ok headers
       \<and> (n \<noteq> ''transfer-encoding'' \<longrightarrow> hm_get_all n sent = take 1 (hm_get_all n headers))
       \<and> hm_get_all ''transfer-encoding'' sent =
           (if \<not> se_body_empty session \<and> \<not> hm_contains ''content-length'' headers then [''chunked''] else [])"
proof -
  obtain route headers where r: "cx_upstream_route ctx = Some route"
      "upstream_headers env session ctx (up_target route) request = Ok headers"
    and sent: "sent = (let request = replace_request_headers request headers
        in if \<not> se_body_empty session \<and> \<not> hm_contains ''content-length'' request
           then hm_insert ''transfer-encoding'' ''chunked'' request else request)"
    using assms
    by (auto simp: upstream_request_filter_def internal_error_def Let_def split: option.splits result.splits)
  have "hm_get_all ''transfer-encoding'' headers = []"
    using r(2) hop_by_hop_removed by (auto simp: upstream_headers_def HOP_BY_HOP_def)
  moreover have "hm_contains ''content-length'' (replace_request_headers request headers) =
      hm_contains ''content-length'' headers"
    by (simp add: hm_contains_values replace_request_headers_values)
  ultimately show ?thesis
    using r by (auto simp: sent Let_def header_laws replace_request_headers_values)
qed

section \<open>Instances\<close>

definition plain_options :: proxy_options where
  "plain_options = sample_options\<lparr>x_forward := False, change_origin := False, custom_headers := []\<rparr>"

definition plain_upstream_env :: upstream_env where
  "plain_upstream_env =
     sample_upstream_env\<lparr>ue_url := (ue_url sample_upstream_env)\<lparr>ul_parse := (\<lambda>_. Ok sample_location)\<rparr>\<rparr>"

definition sample_proxy_env :: "(unit, unit, nat, nat) proxy_env" where
  "sample_proxy_env =
     \<lparr>px_upstream = plain_upstream_env,
      px_peer = \<lparr>pe_resolve = (\<lambda>h p. None), pe_uds_ok = (\<lambda>_. True), pe_utf8 = utf8_valid, pe_read = (\<lambda>_. None),
                 pe_certs = (\<lambda>_. Ok []), pe_key = (\<lambda>_. Ok ())\<rparr>,
      px_errors = sample_error_env, px_error_target = None, px_error_path = None, px_options = plain_options,
      px_tls = tls_client_default, px_protocol = ''http'', px_authority_port = (\<lambda>_. None), px_add = (+),
      px_elapsed = 1, px_fixed_now = None, px_now = 0\<rparr>"

definition sample_session :: session where
  "sample_session =
     \<lparr>se_uri = \<lparr>uri_path = HEALTH_PATH, uri_path_and_query = Some HEALTH_PATH\<rparr>, se_headers = [], se_upgrade = False,
      se_body_empty = True, se_client_ip = None, se_server_port = None, se_write_ok = True,
      se_response_written = None, se_sent = []\<rparr>"

definition sample_state :: "(memory_store, nat) proxy_state" where
  "sample_state = \<lparr>ps_writer = run0, ps_metrics = metrics_new 0, ps_traffic = traffic_new\<rparr>"

lemma sample_health:
  "\<exists>session' ctx' s'. refused_exchange sample_proxy_env sample_session sample_state = Some (session', ctx', s')"
proof -
  have "consistency_status (w_registry run0) = Consistent"
    by (simp add: run0_def writer_start_def run_registry_def consistency_status_def is_indeterminate_def tracker_default_def)
  then have "fst (request_filter sample_proxy_env sample_session new_ctx sample_state) = Ok True"
    by (simp add: request_filter_def sample_state_def traffic_new_def try_admit_def uri_text_def sample_session_def
        answered_def send_health_def write_response_def)
  then show ?thesis
    by (cases "request_filter sample_proxy_env sample_session new_ctx sample_state")
       (auto simp: refused_exchange_def intro: prod.exhaust)
qed

theorem refused_requests_answered_once_witness:
  "fresh_session sample_session
   \<and> (\<exists>session' ctx' s'. refused_exchange sample_proxy_env sample_session sample_state = Some (session', ctx', s')
        \<and> answered_with (refusal_status sample_proxy_env sample_session sample_state) session'
        \<and> ps_traffic s' = traffic_new)"
proof -
  have fresh: "fresh_session sample_session" by (simp add: fresh_session_def sample_session_def)
  obtain session' ctx' s' where
    r: "refused_exchange sample_proxy_env sample_session sample_state = Some (session', ctx', s')"
    using sample_health by blast
  have "ps_traffic sample_state = traffic_new" by (simp add: sample_state_def)
  then show ?thesis using refused_requests_answered_once[OF fresh r] fresh r by auto
qed

definition two_cookies :: header_map where
  "two_cookies = [(''cookie'', ''a=1''), (''cookie'', ''b=2'')]"

definition routed_ctx :: request_context where
  "routed_ctx =
     new_ctx\<lparr>cx_upstream_route := Some \<lparr>up_key = RouteKey ''/'', up_target = sample_target\<rparr>\<rparr>"

lemma two_cookies_headers:
  "upstream_headers sample_proxy_env sample_session routed_ctx sample_target two_cookies = Ok two_cookies"
proof -
  have "remove_hop_by_hop plain_upstream_env False two_cookies = two_cookies"
    by (simp add: remove_hop_by_hop_def no_tokens two_cookies_def hm_get_all_def List.map_filter_simps HOP_BY_HOP_def
        hm_remove_def)
  moreover have "\<not> is_websocket_upgrade two_cookies"
    by (simp add: is_websocket_upgrade_def two_cookies_def hm_get_def)
  ultimately show ?thesis
    by (simp add: upstream_headers_def sample_proxy_env_def apply_forwarded_headers_def apply_request_headers_def
        plain_options_def Let_def)
qed

lemma two_cookies_sent:
  "\<exists>u sent. upstream_request_filter sample_proxy_env sample_session two_cookies routed_ctx = (Ok (u, sent), routed_ctx)"
proof -
  have "\<exists>u. build_upstream_uri plain_upstream_env \<lparr>up_key = RouteKey ''/'', up_target = sample_target\<rparr> ''/'' plain_options = Ok u"
    by (simp add: build_upstream_uri_def get_path_def plain_upstream_env_def plain_options_def sample_options_def
        sample_upstream_env_def starts_with_def)
  then show ?thesis
    using two_cookies_headers
    by (auto simp: upstream_request_filter_def routed_ctx_def new_ctx_def uri_text_def sample_proxy_env_def Let_def)
qed

theorem upstream_gets_first_values_witness:
  "\<exists>u sent. upstream_request_filter sample_proxy_env sample_session two_cookies routed_ctx = (Ok (u, sent), routed_ctx)
     \<and> hm_get_all ''cookie'' two_cookies = [''a=1'', ''b=2''] \<and> hm_get_all ''cookie'' sent = [''a=1'']"
proof -
  obtain u sent where s: "upstream_request_filter sample_proxy_env sample_session two_cookies routed_ctx = (Ok (u, sent), routed_ctx)"
    using two_cookies_sent by blast
  have "cx_upstream_route routed_ctx = Some \<lparr>up_key = RouteKey ''/'', up_target = sample_target\<rparr>"
    by (simp add: routed_ctx_def)
  then have "hm_get_all ''cookie'' sent = take 1 (hm_get_all ''cookie'' two_cookies)"
    using upstream_gets_first_values[OF s, of "''cookie''"] two_cookies_headers by auto
  then show ?thesis using s by (auto simp: two_cookies_def hm_get_all_def)
qed

end
