(* ===== verification/Kernel_Calls.thy ===== *)
theory Kernel_Calls
  imports Rust_Paths
begin

text \<open>
  File-system calls as the sources make them. The kernel is a parameter: its answer to a call may
  depend on everything that happened before and is not constrained, so it covers failures and other
  processes that change the file system between any two calls. A computation records every call with
  its answer, newest first; theorems speak about that record.

  The closing of descriptors is not recorded. The random generator of the \<open>openssl\<close> package is
  treated like a call, the effective user identity is constant, and the exchanges of the public
  service with the server framework are recorded in the same way.
\<close>

type_synonym u32 = "32 word"

section \<open>Calls and answers\<close>

record file_identity =
  id_device :: u64
  id_inode :: u64

record stat_buf =
  stat_dev :: u64
  stat_ino :: u64
  stat_mode :: u32
  stat_uid :: u32

definition stat_identity :: "stat_buf \<Rightarrow> file_identity" where
  "stat_identity st = \<lparr>id_device = stat_dev st, id_inode = stat_ino st\<rparr>"

lemma stat_identity_iff:
  "id_device i = stat_dev st \<and> id_inode i = stat_ino st \<longleftrightarrow> i = stat_identity st"
  by (cases i) (auto simp: stat_identity_def)

lemma stat_identityI: "id_device i = stat_dev st \<Longrightarrow> id_inode i = stat_ino st \<Longrightarrow> stat_identity st = i"
  using stat_identity_iff by metis

datatype errno = EEXIST | ENOENT | ENODATA | ERANGE | ENOTSOCK | Errno nat

text \<open>What the public service exchanges with the server framework.\<close>

datatype service_call =
    AddListener path
  | RegisterDescriptor string nat
  | PollService
  | ReleaseAdoptionLock
  | AwaitService
  | DropService
  | StopRelay
  | NotifyReady
  | ForgetNotifier
  | AcknowledgeStopped
  | SignalStartupFailure
  | ShutdownRequested
  | CloseDescriptor nat

datatype syscall =
    Canonicalize "component list"
  | OpenPath path
  | OpenDirAt nat string
  | CreateAt nat string
  | FStat nat
  | StatAt nat string
  | MkdirAt nat string u32
  | ChmodAt nat string u32
  | UnlinkAt nat string bool
  | RenameAt nat string nat string
  | GetXattr nat string
  | Duplicate nat
  | RandBytes nat
  | WriteAll nat string
  | SyncData nat
  | LinkStat path
  | NewSocket
  | SocketAddress path
  | BindSocket nat path
  | ListenOn nat nat
  | SetNonblocking nat
  | SocketName nat
  | Service service_call

record reply =
  rep_error :: "errno option"
  rep_fd :: nat
  rep_stat :: stat_buf
  rep_path :: path
  rep_bytes :: string

type_synonym history = "(syscall \<times> reply) list"

record kernel =
  k_euid :: u32
  k_reply :: "history \<Rightarrow> syscall \<Rightarrow> reply"

datatype io_kind = EntryExists | EntryNotFound | InvalidInput | OtherKind

datatype io_error = OsError errno | IoError io_kind string | Panicking string

fun io_error_kind_of :: "io_error \<Rightarrow> io_kind" where
  "io_error_kind_of (OsError EEXIST) = EntryExists"
| "io_error_kind_of (OsError ENOENT) = EntryNotFound"
| "io_error_kind_of (IoError k _) = k"
| "io_error_kind_of _ = OtherKind"

abbreviation io_other :: "string \<Rightarrow> io_error" where
  "io_other \<equiv> IoError OtherKind"

section \<open>Computations\<close>

type_synonym 'a io = "kernel \<Rightarrow> history \<Rightarrow> (io_error, 'a) result \<times> history"

definition io_return :: "'a \<Rightarrow> 'a io" where
  "io_return a K h = (Ok a, h)"

definition io_fail :: "io_error \<Rightarrow> 'a io" where
  "io_fail e K h = (Err e, h)"

definition io_lift :: "(io_error, 'a) result \<Rightarrow> 'a io" where
  "io_lift r K h = (r, h)"

definition io_case :: "'a io \<Rightarrow> ((io_error, 'a) result \<Rightarrow> 'b io) \<Rightarrow> 'b io" where
  "io_case m f K h = (case m K h of (r, h') \<Rightarrow> f r K h')"

definition io_bind :: "'a io \<Rightarrow> ('a \<Rightarrow> 'b io) \<Rightarrow> 'b io" where
  "io_bind m f = io_case m (\<lambda>r. case r of Ok a \<Rightarrow> f a | Err e \<Rightarrow> io_fail e)"

definition io_euid :: "(u32 \<Rightarrow> 'a io) \<Rightarrow> 'a io" where
  "io_euid f K h = f (k_euid K) K h"

text \<open>A value with a \<open>Drop\<close> that is still armed when the scope is left with an error.\<close>

definition on_error :: "'a io \<Rightarrow> unit io \<Rightarrow> 'a io" where
  "on_error m drop_guard =
     io_case m (\<lambda>r. case r of Ok a \<Rightarrow> io_return a | Err e \<Rightarrow> io_case drop_guard (\<lambda>_. io_fail e))"

text \<open>A value that is dropped when its scope is left, on every path.\<close>

definition at_exit :: "'a io \<Rightarrow> unit io \<Rightarrow> 'a io" where
  "at_exit m drop_value = io_case m (\<lambda>r. io_case drop_value (\<lambda>_. io_lift r))"

definition sys :: "syscall \<Rightarrow> reply io" where
  "sys c K h =
     (let r = k_reply K h c
      in (case rep_error r of None \<Rightarrow> Ok r | Some e \<Rightarrow> Err (OsError e), (c, r) # h))"

text \<open>An exchange that cannot fail.\<close>

definition ask :: "service_call \<Rightarrow> reply io" where
  "ask c K h = (let r = k_reply K h (Service c) in (Ok r, (Service c, r) # h))"

section \<open>A logic for the record of calls\<close>

text \<open>
  \<open>holds K h0 P m Q\<close>: started after \<open>h0\<close> when the calls made since then satisfy \<open>P\<close>, the
  computation ends, and its result and the calls made since \<open>h0\<close> satisfy \<open>Q\<close>.
\<close>

definition holds ::
  "kernel \<Rightarrow> history \<Rightarrow> (history \<Rightarrow> bool) \<Rightarrow> 'a io \<Rightarrow> ((io_error, 'a) result \<Rightarrow> history \<Rightarrow> bool) \<Rightarrow> bool" where
  "holds K h0 P m Q \<longleftrightarrow> (\<forall>t. P t \<longrightarrow> (\<exists>r t'. m K (t @ h0) = (r, t' @ h0) \<and> Q r t'))"

lemma holdsI: "(\<And>t. P t \<Longrightarrow> \<exists>r t'. m K (t @ h0) = (r, t' @ h0) \<and> Q r t') \<Longrightarrow> holds K h0 P m Q"
  by (simp add: holds_def)

lemma holds_return: "(\<And>t. P t \<Longrightarrow> Q (Ok a) t) \<Longrightarrow> holds K h0 P (io_return a) Q"
  by (auto simp: holds_def io_return_def)

lemma holds_fail: "(\<And>t. P t \<Longrightarrow> Q (Err e) t) \<Longrightarrow> holds K h0 P (io_fail e) Q"
  by (auto simp: holds_def io_fail_def)

lemma holds_lift: "(\<And>t. P t \<Longrightarrow> Q r t) \<Longrightarrow> holds K h0 P (io_lift r) Q"
  by (auto simp: holds_def io_lift_def)

lemma holds_case:
  assumes "holds K h0 P m R" and "\<And>r. holds K h0 (R r) (f r) Q"
  shows "holds K h0 P (io_case m f) Q"
proof (rule holdsI)
  fix t assume "P t"
  then obtain r t' where m: "m K (t @ h0) = (r, t' @ h0)" "R r t'"
    using assms(1) by (auto simp: holds_def)
  then show "\<exists>r t'. io_case m f K (t @ h0) = (r, t' @ h0) \<and> Q r t'"
    using assms(2)[of r] by (auto simp: holds_def io_case_def)
qed

lemma holds_bind:
  assumes "holds K h0 P m R" and "\<And>a. holds K h0 (R (Ok a)) (f a) Q" and "\<And>e t. R (Err e) t \<Longrightarrow> Q (Err e) t"
  shows "holds K h0 P (io_bind m f) Q"
  unfolding io_bind_def
proof (rule holds_case[OF assms(1)])
  fix r show "holds K h0 (R r) (case r of Ok a \<Rightarrow> f a | Err e \<Rightarrow> io_fail e) Q"
    using assms(2,3) by (cases r) (auto intro: holds_fail)
qed

lemma holds_euid: "holds K h0 P (f (k_euid K)) Q \<Longrightarrow> holds K h0 P (io_euid f) Q"
  by (simp add: holds_def io_euid_def)

lemma holds_on_error:
  assumes "holds K h0 P m R" and "\<And>a t. R (Ok a) t \<Longrightarrow> Q (Ok a) t"
    and "\<And>e. holds K h0 (R (Err e)) g (\<lambda>_. Q (Err e))"
  shows "holds K h0 P (on_error m g) Q"
  unfolding on_error_def
proof (rule holds_case[OF assms(1)])
  fix r
  show "holds K h0 (R r) (case r of Ok a \<Rightarrow> io_return a | Err e \<Rightarrow> io_case g (\<lambda>_. io_fail e)) Q"
    using assms(2) by (cases r) (auto intro!: holds_return holds_fail holds_case[OF assms(3)])
qed

lemma holds_sys:
  assumes "\<And>t rep. P t \<Longrightarrow> rep = k_reply K (t @ h0) c
    \<Longrightarrow> Q (case rep_error rep of None \<Rightarrow> Ok rep | Some e \<Rightarrow> Err (OsError e)) ((c, rep) # t)"
  shows "holds K h0 P (sys c) Q"
proof (rule holdsI)
  fix t assume "P t"
  with assms[OF this refl] show "\<exists>r t'. sys c K (t @ h0) = (r, t' @ h0) \<and> Q r t'"
    by (simp add: sys_def Let_def flip: append_Cons)
qed

lemma holds_ask:
  assumes "\<And>t rep. P t \<Longrightarrow> Q (Ok rep) ((Service c, rep) # t)"
  shows "holds K h0 P (ask c) Q"
proof (rule holdsI)
  fix t assume "P t"
  with assms show "\<exists>r t'. ask c K (t @ h0) = (r, t' @ h0) \<and> Q r t'"
    by (simp add: ask_def Let_def flip: append_Cons)
qed

lemma holds_pre: "holds K h0 P m Q \<Longrightarrow> (\<And>t. P' t \<Longrightarrow> P t) \<Longrightarrow> holds K h0 P' m Q"
  by (simp add: holds_def)

lemma holds_post:
  assumes "holds K h0 P m Q" and "\<And>r t. Q r t \<Longrightarrow> Q' r t"
  shows "holds K h0 P m Q'"
proof (rule holdsI)
  fix t assume "P t"
  then obtain r t' where "m K (t @ h0) = (r, t' @ h0)" "Q r t'" using assms(1) by (auto simp: holds_def)
  then show "\<exists>r t'. m K (t @ h0) = (r, t' @ h0) \<and> Q' r t'" using assms(2) by blast
qed

lemma holdsD:
  assumes "holds K h0 P m Q" "P []" "m K h0 = (r, h)"
  shows "\<exists>t. h = t @ h0 \<and> Q r t"
proof -
  have "\<exists>r t'. m K ([] @ h0) = (r, t' @ h0) \<and> Q r t'" using assms(1,2) unfolding holds_def by blast
  then show ?thesis using assms(3) by auto
qed

end
