(* ===== verification/Path_Ownership.thy ===== *)
theory Path_Ownership
  imports Kernel_Calls
begin

text \<open>
  \<open>src/src/path_ownership.rs\<close>, as it is compiled for Linux: directories whose whole chain of
  ancestors is checked before they are used, private directories, and paths that are removed only
  when they still are the object that was created. The hooks that only tests install are left out;
  the injected faults of the tests are the argument \<open>fault\<close>.
\<close>

unbundle bit_operations_syntax

section \<open>Modes and identities\<close>

definition QUARANTINE_ATTEMPTS :: nat where
  "QUARANTINE_ATTEMPTS = 8"

definition PRIVATE_CANDIDATE_NAME :: string where
  "PRIVATE_CANDIDATE_NAME = ''candidate''"

definition S_IFMT :: u32 where "S_IFMT = 0xF000"
definition S_IFDIR :: u32 where "S_IFDIR = 0x4000"
definition S_IFSOCK :: u32 where "S_IFSOCK = 0xC000"
definition S_ISVTX :: u32 where "S_ISVTX = 0x200"

text \<open>The octal modes 0700, 022, 0777 and 07777.\<close>

definition OWNER_ALL :: u32 where "OWNER_ALL = 0x1C0"
definition OTHERS_WRITE :: u32 where "OTHERS_WRITE = 0x12"
definition PERMISSIONS :: u32 where "PERMISSIONS = 0x1FF"
definition MODE_BITS :: u32 where "MODE_BITS = 0xFFF"

definition is_directory :: "u32 \<Rightarrow> bool" where
  "is_directory mode \<longleftrightarrow> mode AND S_IFMT = S_IFDIR"

definition from_file :: "nat \<Rightarrow> file_identity io" where
  "from_file file = io_bind (sys (FStat file)) (\<lambda>r. io_return (stat_identity (rep_stat r)))"

definition identity_matches :: "file_identity \<Rightarrow> file_identity \<Rightarrow> bool" where
  "identity_matches self other \<longleftrightarrow> id_device self = id_device other \<and> id_inode self = id_inode other"

definition open_directory :: "path \<Rightarrow> nat io" where
  "open_directory p = io_bind (sys (OpenPath p)) (\<lambda>r. io_return (rep_fd r))"

definition open_directory_at :: "nat \<Rightarrow> string \<Rightarrow> nat io" where
  "open_directory_at parent name = io_bind (sys (OpenDirAt parent name)) (\<lambda>r. io_return (rep_fd r))"

definition statat :: "nat \<Rightarrow> string \<Rightarrow> stat_buf io" where
  "statat parent name = io_bind (sys (StatAt parent name)) (\<lambda>r. io_return (rep_stat r))"

definition chmodat_portable :: "nat \<Rightarrow> string \<Rightarrow> u32 \<Rightarrow> unit io" where
  "chmodat_portable directory name mode = io_bind (sys (ChmodAt directory name mode)) (\<lambda>_. io_return ())"

definition rename_relative_noreplace :: "nat \<Rightarrow> string \<Rightarrow> nat \<Rightarrow> string \<Rightarrow> unit io" where
  "rename_relative_noreplace source_directory source destination_directory destination =
     io_bind (sys (RenameAt source_directory source destination_directory destination)) (\<lambda>_. io_return ())"

definition try_clone :: "nat \<Rightarrow> nat io" where
  "try_clone file = io_bind (sys (Duplicate file)) (\<lambda>r. io_return (rep_fd r))"

definition io_check :: "bool \<Rightarrow> string \<Rightarrow> unit io" where
  "io_check b message = (if b then io_return () else io_fail (io_other message))"

section \<open>Random names\<close>

definition lower_hex_digit :: "nat \<Rightarrow> char" where
  "lower_hex_digit n = ''0123456789abcdef'' ! n"

definition hex_suffix :: "string \<Rightarrow> string" where
  "hex_suffix bytes = concat (map (\<lambda>b. [lower_hex_digit (byte b div 16), lower_hex_digit (byte b mod 16)]) bytes)"

definition random_name :: "nat \<Rightarrow> string \<Rightarrow> string \<Rightarrow> string io" where
  "random_name n message prefix_text =
     io_case (sys (RandBytes n)) (\<lambda>r.
       case r of
         Err _ \<Rightarrow> io_fail (io_other message)
       | Ok r \<Rightarrow> io_return (prefix_text @ hex_suffix (rep_bytes r)))"

definition random_private_name :: "string io" where
  "random_private_name = random_name 16 ''could not generate a private cleanup name'' ''.chp-cleanup-''"

definition random_stage_name :: "string io" where
  "random_stage_name = random_name 10 ''could not generate a private publication name'' ''.chp-stage-''"

section \<open>Authenticated boundaries\<close>

record boundary_component =
  bc_identity :: file_identity
  bc_name :: "string option"
  bc_owner :: u32
  bc_authority :: u32

record authenticated_boundary =
  canonical_path :: path
  components :: "boundary_component list"

record boundary_authority =
  ba_owner :: u32
  ba_authority :: u32

definition boundary_mode_is_safe :: "u32 \<Rightarrow> u32 \<Rightarrow> u32 \<Rightarrow> bool" where
  "boundary_mode_is_safe mode owner effective_uid \<longleftrightarrow>
     (owner = effective_uid \<or> owner = 0) \<and> (mode AND OTHERS_WRITE = 0 \<or> mode AND S_ISVTX \<noteq> 0)"

definition posix_acl_xattr_error_is_definitively_absent :: "errno \<Rightarrow> bool" where
  "posix_acl_xattr_error_is_definitively_absent e \<longleftrightarrow> e = ENODATA"

fun acl_loop :: "nat \<Rightarrow> string list \<Rightarrow> unit io" where
  "acl_loop directory [] = io_return ()"
| "acl_loop directory (name # names) =
     io_case (sys (GetXattr directory name)) (\<lambda>r.
       case r of
         Ok _ \<Rightarrow> io_fail (io_other ''boundary directory has a POSIX ACL'')
       | Err (OsError e) \<Rightarrow>
           if e = ERANGE then io_fail (io_other ''boundary directory has a POSIX ACL'')
           else if posix_acl_xattr_error_is_definitively_absent e then acl_loop directory names
           else io_fail (OsError e)
       | Err e \<Rightarrow> io_fail e)"

definition acl_names :: "string list" where
  "acl_names = [''system.posix_acl_access'', ''system.posix_acl_default'']"

definition authenticate_directory_acl :: "nat \<Rightarrow> unit io" where
  "authenticate_directory_acl directory = acl_loop directory acl_names"

definition authenticate_boundary_directory :: "nat \<Rightarrow> boundary_authority io" where
  "authenticate_boundary_directory directory =
     io_bind (sys (FStat directory)) (\<lambda>r. io_euid (\<lambda>euid.
       let metadata = rep_stat r; mode = stat_mode metadata
       in io_bind (io_check (is_directory mode \<and> boundary_mode_is_safe mode (stat_uid metadata) euid)
                     ''boundary directory owner or rename authority is unsafe'') (\<lambda>_.
          io_bind (authenticate_directory_acl directory) (\<lambda>_.
          io_return \<lparr>ba_owner = stat_uid metadata, ba_authority = mode AND (S_ISVTX OR OTHERS_WRITE)\<rparr>))))"

definition authenticate_child_identity :: "nat \<Rightarrow> string \<Rightarrow> file_identity \<Rightarrow> unit io" where
  "authenticate_child_identity parent name identity =
     io_bind (statat parent name) (\<lambda>st.
       io_check (is_directory (stat_mode st) \<and> stat_dev st = id_device identity \<and> stat_ino st = id_inode identity)
         ''boundary path component identity changed'')"

fun capture_loop ::
  "nat \<Rightarrow> boundary_component list \<Rightarrow> string list \<Rightarrow> (nat \<times> boundary_component list) io" where
  "capture_loop directory cs [] = io_return (directory, cs)"
| "capture_loop directory cs (name # names) =
     io_bind (open_directory_at directory name) (\<lambda>child.
     io_bind (authenticate_boundary_directory child) (\<lambda>authority.
     io_bind (from_file child) (\<lambda>identity.
     io_bind (authenticate_child_identity directory name identity) (\<lambda>_.
       capture_loop child
         (cs @ [\<lparr>bc_identity = identity, bc_name = Some name, bc_owner = ba_owner authority,
                 bc_authority = ba_authority authority\<rparr>]) names))))"

definition boundary_capture :: "component list \<Rightarrow> (authenticated_boundary \<times> nat) io" where
  "boundary_capture p =
     io_bind (sys (Canonicalize p)) (\<lambda>r.
     io_bind (open_directory ''/'') (\<lambda>directory.
     io_bind (authenticate_boundary_directory directory) (\<lambda>authority.
     io_bind (from_file directory) (\<lambda>identity.
     io_bind (capture_loop directory
                [\<lparr>bc_identity = identity, bc_name = None, bc_owner = ba_owner authority,
                  bc_authority = ba_authority authority\<rparr>]
                (normal_components (path_components (rep_path r)))) (\<lambda>(directory, cs).
       io_return (\<lparr>canonical_path = rep_path r, components = cs\<rparr>, directory))))))"

definition authenticate_component :: "boundary_component \<Rightarrow> nat \<Rightarrow> string \<Rightarrow> unit io" where
  "authenticate_component c directory message =
     io_bind (authenticate_boundary_directory directory) (\<lambda>authority.
     io_bind (from_file directory) (\<lambda>identity.
       io_check (identity = bc_identity c \<and> ba_owner authority = bc_owner c
                 \<and> ba_authority authority = bc_authority c) message))"

fun prefix_loop :: "nat \<Rightarrow> nat \<Rightarrow> boundary_component list \<Rightarrow> nat io" where
  "prefix_loop index directory [] = io_return directory"
| "prefix_loop index directory (c # cs) =
     io_bind
       (if index \<noteq> 0 then
          (case bc_name c of
             None \<Rightarrow> io_fail (Panicking ''non-root component name'')
           | Some name \<Rightarrow>
               io_bind (open_directory_at directory name) (\<lambda>child.
               io_bind (authenticate_child_identity directory name (bc_identity c)) (\<lambda>_.
                 io_return child)))
        else io_return directory) (\<lambda>directory.
     io_bind (authenticate_component c directory ''boundary component identity or authority changed'') (\<lambda>_.
       prefix_loop (Suc index) directory cs))"

definition authenticate_prefix :: "authenticated_boundary \<Rightarrow> nat \<Rightarrow> nat io" where
  "authenticate_prefix b n =
     io_bind (open_directory ''/'') (\<lambda>directory. prefix_loop 0 directory (take n (components b)))"

definition boundary_authenticate :: "authenticated_boundary \<Rightarrow> unit io" where
  "boundary_authenticate b = io_bind (authenticate_prefix b (length (components b))) (\<lambda>_. io_return ())"

definition authenticate_ancestors :: "authenticated_boundary \<Rightarrow> unit io" where
  "authenticate_ancestors b = io_bind (authenticate_prefix b (length (components b) - 1)) (\<lambda>_. io_return ())"

definition last_component :: "authenticated_boundary \<Rightarrow> boundary_component io" where
  "last_component b =
     (case rev (components b) of
        [] \<Rightarrow> io_fail (Panicking ''authenticated boundary has root'')
      | c # _ \<Rightarrow> io_return c)"

definition directory_identity :: "authenticated_boundary \<Rightarrow> file_identity io" where
  "directory_identity b = io_bind (last_component b) (\<lambda>c. io_return (bc_identity c))"

definition authenticate_retained :: "authenticated_boundary \<Rightarrow> nat \<Rightarrow> unit io" where
  "authenticate_retained b directory =
     io_bind (last_component b) (\<lambda>expected.
       authenticate_component expected directory ''retained boundary descriptor identity or authority changed'')"

definition authenticate_retained_with_ancestors :: "authenticated_boundary \<Rightarrow> nat \<Rightarrow> unit io" where
  "authenticate_retained_with_ancestors b directory =
     io_bind (authenticate_ancestors b) (\<lambda>_. authenticate_retained b directory)"

definition with_child :: "authenticated_boundary \<Rightarrow> string \<Rightarrow> nat \<Rightarrow> file_identity \<Rightarrow> authenticated_boundary io" where
  "with_child b name directory identity =
     io_bind (authenticate_boundary_directory directory) (\<lambda>authority.
     io_bind (from_file directory) (\<lambda>found.
     io_bind (io_check (found = identity) ''boundary child descriptor identity changed'') (\<lambda>_.
       io_return
         \<lparr>canonical_path = path_join (canonical_path b) name,
          components = components b @
            [\<lparr>bc_identity = identity, bc_name = Some name, bc_owner = ba_owner authority,
              bc_authority = ba_authority authority\<rparr>]\<rparr>)))"

section \<open>Private directories\<close>

datatype creation_stage = StageOpen | StageInitialStat | StageChmod | StageIdentity

text \<open>The \<open>Drop\<close> of the two guards, when they are armed.\<close>

definition provisional_guard_drop :: "nat \<Rightarrow> authenticated_boundary \<Rightarrow> string \<Rightarrow> unit io" where
  "provisional_guard_drop parent b name =
     io_case (authenticate_retained b parent) (\<lambda>authentic.
       if \<not> is_ok authentic then io_return ()
       else
         io_case (statat parent name) (\<lambda>found. io_euid (\<lambda>effective_uid.
           case found of
             Ok st \<Rightarrow>
               if is_directory (stat_mode st) \<and> stat_uid st = effective_uid
                  \<and> stat_mode st AND MODE_BITS AND NOT OWNER_ALL = 0
               then io_case (sys (UnlinkAt parent name True)) (\<lambda>_. io_return ())
               else io_return ()
           | Err _ \<Rightarrow> io_return ())))"

definition namespace_guard_drop :: "nat \<Rightarrow> authenticated_boundary \<Rightarrow> string \<Rightarrow> file_identity \<Rightarrow> unit io" where
  "namespace_guard_drop parent b name identity =
     io_case (authenticate_retained b parent) (\<lambda>authentic.
       if \<not> is_ok authentic then io_return ()
       else
         io_case (statat parent name) (\<lambda>found.
           case found of
             Ok st \<Rightarrow>
               if id_device identity = stat_dev st \<and> id_inode identity = stat_ino st
               then io_case (sys (UnlinkAt parent name True)) (\<lambda>_. io_return ())
               else io_return ()
           | Err _ \<Rightarrow> io_return ()))"

definition provisional_identity :: "nat \<Rightarrow> string \<Rightarrow> file_identity io" where
  "provisional_identity parent name =
     io_bind (statat parent name) (\<lambda>initial. io_euid (\<lambda>effective_uid.
     io_bind (io_check (is_directory (stat_mode initial) \<and> stat_uid initial = effective_uid
                        \<and> stat_mode initial AND MODE_BITS AND NOT OWNER_ALL = 0)
                ''private directory failed provisional type, owner, or mode authentication'') (\<lambda>_.
       io_return (stat_identity initial))))"

definition private_stat_ok :: "file_identity \<Rightarrow> u32 \<Rightarrow> stat_buf \<Rightarrow> bool" where
  "private_stat_ok identity effective_uid st \<longleftrightarrow>
     stat_identity st = identity \<and> is_directory (stat_mode st) \<and> stat_uid st = effective_uid
     \<and> stat_mode st AND MODE_BITS = OWNER_ALL"

definition normalize_private ::
  "(creation_stage \<Rightarrow> (io_error, unit) result) \<Rightarrow> nat \<Rightarrow> string \<Rightarrow> file_identity \<Rightarrow> (nat \<times> file_identity) io" where
  "normalize_private fault parent name identity = io_euid (\<lambda>effective_uid.
     io_bind (io_lift (fault StageInitialStat)) (\<lambda>_.
     io_bind (io_lift (fault StageChmod)) (\<lambda>_.
     io_bind (chmodat_portable parent name OWNER_ALL) (\<lambda>_.
     io_bind (statat parent name) (\<lambda>normalized.
     io_bind (io_check (private_stat_ok identity effective_uid normalized)
                ''private directory failed normalized identity authentication'') (\<lambda>_.
     io_bind (io_lift (fault StageIdentity)) (\<lambda>_.
     io_bind (open_directory_at parent name) (\<lambda>directory.
     io_bind (sys (FStat directory)) (\<lambda>opened.
     io_bind (io_check (private_stat_ok identity effective_uid (rep_stat opened))
                ''opened private directory failed identity authentication'') (\<lambda>_.
     io_bind (authenticate_directory_acl directory) (\<lambda>_.
       io_return (directory, identity))))))))))))"

definition create_authenticated_private_directory ::
  "nat \<Rightarrow> authenticated_boundary \<Rightarrow> string \<Rightarrow> bool \<Rightarrow> (creation_stage \<Rightarrow> (io_error, unit) result)
   \<Rightarrow> (nat \<times> file_identity) io" where
  "create_authenticated_private_directory parent b name preserve_on_open_fault fault =
     io_bind (sys (MkdirAt parent name OWNER_ALL)) (\<lambda>_.
     io_bind
       (case fault StageOpen of
          Err e \<Rightarrow>
            if preserve_on_open_fault then io_fail e
            else on_error (io_fail e) (provisional_guard_drop parent b name)
        | Ok _ \<Rightarrow> on_error (provisional_identity parent name) (provisional_guard_drop parent b name)) (\<lambda>identity.
       on_error (normalize_private fault parent name identity)
         (namespace_guard_drop parent b name identity)))"

record anchored_directory =
  an_directory :: nat
  an_directory_path :: path
  an_boundary :: authenticated_boundary

record private_directory =
  pd_parent :: nat
  pd_parent_path :: path
  pd_parent_boundary :: authenticated_boundary
  pd_name :: string
  pd_directory :: nat
  pd_identity :: file_identity
  pd_active :: bool

definition anchored_capture :: "component list \<Rightarrow> anchored_directory io" where
  "anchored_capture parent =
     io_bind (boundary_capture parent) (\<lambda>(b, directory).
       io_return \<lparr>an_directory = directory, an_directory_path = canonical_path b, an_boundary = b\<rparr>)"

fun stage_attempts :: "nat \<Rightarrow> anchored_directory \<Rightarrow> (creation_stage \<Rightarrow> (io_error, unit) result) \<Rightarrow> private_directory io" where
  "stage_attempts 0 a fault = io_fail (IoError EntryExists ''could not reserve a private publication directory'')"
| "stage_attempts (Suc n) a fault =
     io_bind random_stage_name (\<lambda>name.
     io_case (create_authenticated_private_directory (an_directory a) (an_boundary a) name False
                (\<lambda>stage. if stage = StageOpen \<or> stage = StageIdentity then fault stage else Ok ())) (\<lambda>created.
       case created of
         Err e \<Rightarrow> if io_error_kind_of e = EntryExists then stage_attempts n a fault else io_fail e
       | Ok (directory, identity) \<Rightarrow>
           io_bind (on_error (try_clone (an_directory a))
                      (namespace_guard_drop (an_directory a) (an_boundary a) name identity)) (\<lambda>parent.
             io_return
               \<lparr>pd_parent = parent, pd_parent_path = an_directory_path a, pd_parent_boundary = an_boundary a,
                pd_name = name, pd_directory = directory, pd_identity = identity, pd_active = True\<rparr>)))"

definition create_private_directory ::
  "anchored_directory \<Rightarrow> (creation_stage \<Rightarrow> (io_error, unit) result) \<Rightarrow> private_directory io" where
  "create_private_directory a fault =
     io_bind (authenticate_retained_with_ancestors (an_boundary a) (an_directory a)) (\<lambda>_.
       stage_attempts QUARANTINE_ATTEMPTS a fault)"

definition private_directory_drop :: "private_directory \<Rightarrow> unit io" where
  "private_directory_drop d =
     (if \<not> pd_active d then io_return ()
      else
        io_case (authenticate_retained (pd_parent_boundary d) (pd_parent d)) (\<lambda>authentic.
          if \<not> is_ok authentic then io_return ()
          else
            io_case (statat (pd_parent d) (pd_name d)) (\<lambda>found.
              case found of
                Ok st \<Rightarrow>
                  if id_device (pd_identity d) = stat_dev st \<and> id_inode (pd_identity d) = stat_ino st
                     \<and> is_directory (stat_mode st)
                  then io_case (sys (UnlinkAt (pd_parent d) (pd_name d) True)) (\<lambda>_. io_return ())
                  else io_return ()
              | Err _ \<Rightarrow> io_return ())))"

section \<open>Owned paths\<close>

record owned_path =
  ow_public_path :: path
  ow_identity :: file_identity
  ow_active :: bool
  ow_directory :: nat
  ow_directory_path :: path
  ow_public_name :: string
  ow_boundary :: authenticated_boundary

definition parent_or_dot :: "path \<Rightarrow> component list" where
  "parent_or_dot p = (case path_parent p of Some parent \<Rightarrow> parent | None \<Rightarrow> [CurDir])"

definition create_new_file :: "path \<Rightarrow> (nat \<times> owned_path) io" where
  "create_new_file p =
     (case path_file_name p of
        None \<Rightarrow> io_fail (IoError InvalidInput ''owned path has no file name'')
      | Some public_name \<Rightarrow>
          io_bind (boundary_capture (parent_or_dot p)) (\<lambda>(b, directory).
          io_bind (authenticate_retained_with_ancestors b directory) (\<lambda>_.
          io_bind (sys (CreateAt directory public_name)) (\<lambda>r.
          io_bind (from_file (rep_fd r)) (\<lambda>identity.
            io_return
              (rep_fd r,
               \<lparr>ow_public_path = p, ow_identity = identity, ow_active = True, ow_directory = directory,
                ow_directory_path = canonical_path b, ow_public_name = public_name, ow_boundary = b\<rparr>))))))"

definition stable_directory_path :: "nat \<Rightarrow> path" where
  "stable_directory_path directory = ''/proc/self/fd/'' @ decimal directory"

definition stable_path :: "private_directory \<Rightarrow> path io" where
  "stable_path d =
     io_bind (authenticate_retained_with_ancestors (pd_parent_boundary d) (pd_parent d)) (\<lambda>_.
     io_bind (authenticate_retained_with_ancestors (pd_parent_boundary d) (pd_parent d)) (\<lambda>_.
       io_return (stable_directory_path (pd_directory d))))"

definition own_entry :: "private_directory \<Rightarrow> string \<Rightarrow> owned_path io" where
  "own_entry d name =
     io_bind (statat (pd_directory d) name) (\<lambda>st.
     io_bind (try_clone (pd_directory d)) (\<lambda>directory.
     io_bind (with_child (pd_parent_boundary d) (pd_name d) (pd_directory d) (pd_identity d)) (\<lambda>b.
       io_return
         \<lparr>ow_public_path = path_join (path_join (pd_parent_path d) (pd_name d)) name,
          ow_identity = stat_identity st, ow_active = True, ow_directory = directory,
          ow_directory_path = path_join (pd_parent_path d) (pd_name d), ow_public_name = name,
          ow_boundary = b\<rparr>)))"

definition remove_entry :: "private_directory \<Rightarrow> string \<Rightarrow> unit io" where
  "remove_entry d name = io_case (sys (UnlinkAt (pd_directory d) name False)) (\<lambda>_. io_return ())"

definition verify_owned_socket :: "owned_path \<Rightarrow> u32 option \<Rightarrow> unit io" where
  "verify_owned_socket ow mode =
     io_bind (statat (ow_directory ow) (ow_public_name ow)) (\<lambda>st.
       io_check (id_device (ow_identity ow) = stat_dev st \<and> id_inode (ow_identity ow) = stat_ino st
                 \<and> stat_mode st AND S_IFMT = S_IFSOCK
                 \<and> (case mode of None \<Rightarrow> True | Some m \<Rightarrow> stat_mode st AND PERMISSIONS = m))
         ''owned Unix socket identity changed'')"

definition prepare_socket :: "private_directory \<Rightarrow> owned_path \<Rightarrow> u32 \<Rightarrow> unit io" where
  "prepare_socket d ow mode =
     io_bind (from_file (ow_directory ow)) (\<lambda>identity.
     io_bind (io_check (identity = pd_identity d) ''socket is not owned by the private publication directory'') (\<lambda>_.
     io_bind (verify_owned_socket ow None) (\<lambda>_.
     io_bind (chmodat_portable (ow_directory ow) (ow_public_name ow) mode) (\<lambda>_.
       verify_owned_socket ow (Some mode)))))"

definition stable_entry_path :: "owned_path \<Rightarrow> path io" where
  "stable_entry_path ow =
     io_bind (authenticate_retained_with_ancestors (ow_boundary ow) (ow_directory ow)) (\<lambda>_.
     io_bind (authenticate_retained_with_ancestors (ow_boundary ow) (ow_directory ow)) (\<lambda>_.
       io_return (path_join (stable_directory_path (ow_directory ow)) (ow_public_name ow))))"

definition configured_entry_matches :: "owned_path \<Rightarrow> bool io" where
  "configured_entry_matches ow =
     io_case (boundary_authenticate (ow_boundary ow)) (\<lambda>authentic.
       if \<not> is_ok authentic then io_return False
       else
         io_bind (sys (Canonicalize (parent_or_dot (ow_public_path ow)))) (\<lambda>r.
         io_bind (open_directory (rep_path r)) (\<lambda>reopened.
         io_bind (from_file reopened) (\<lambda>id1.
         io_bind (directory_identity (ow_boundary ow)) (\<lambda>expected.
           if id1 \<noteq> expected then io_return False
           else
             io_bind (from_file reopened) (\<lambda>id2.
             io_bind (from_file (ow_directory ow)) (\<lambda>id3.
               if id2 \<noteq> id3 then io_return False
               else
                 io_bind (statat reopened (ow_public_name ow)) (\<lambda>st.
                   io_return (id_device (ow_identity ow) = stat_dev st
                              \<and> id_inode (ow_identity ow) = stat_ino st)))))))))"

definition publish_into :: "owned_path \<Rightarrow> anchored_directory \<Rightarrow> path \<Rightarrow> string \<Rightarrow> owned_path io" where
  "publish_into ow destination p destination_name =
     io_bind (authenticate_retained_with_ancestors (an_boundary destination) (an_directory destination)) (\<lambda>_.
     io_bind (try_clone (an_directory destination)) (\<lambda>destination_directory.
     io_bind (rename_relative_noreplace (ow_directory ow) (ow_public_name ow)
                (an_directory destination) destination_name) (\<lambda>_.
       io_return (ow\<lparr>ow_directory := destination_directory, ow_boundary := an_boundary destination,
                     ow_directory_path := an_directory_path destination,
                     ow_public_name := destination_name, ow_public_path := p\<rparr>))))"

section \<open>Cleanup through a quarantine\<close>

record unix_quarantine =
  q_name :: string
  q_directory :: nat
  q_identity :: file_identity

datatype namespace_stage = AtCreation creation_stage | AtRename

fun quarantine_attempts ::
  "nat \<Rightarrow> owned_path \<Rightarrow> (namespace_stage \<Rightarrow> (io_error, unit) result) \<Rightarrow> unix_quarantine option io" where
  "quarantine_attempts 0 ow fault = io_fail (IoError EntryExists ''could not reserve a private cleanup quarantine'')"
| "quarantine_attempts (Suc n) ow fault =
     io_bind random_private_name (\<lambda>private_name.
     io_case (create_authenticated_private_directory (ow_directory ow) (ow_boundary ow) private_name True
                (\<lambda>stage. fault (AtCreation stage))) (\<lambda>created.
       case created of
         Err e \<Rightarrow> if io_error_kind_of e = EntryExists then quarantine_attempts n ow fault else io_fail e
       | Ok (directory, identity) \<Rightarrow>
           io_bind (on_error (io_lift (fault AtRename))
                      (namespace_guard_drop (ow_directory ow) (ow_boundary ow) private_name identity)) (\<lambda>_.
           io_case (rename_relative_noreplace (ow_directory ow) (ow_public_name ow)
                      directory PRIVATE_CANDIDATE_NAME) (\<lambda>renamed.
             case renamed of
               Ok _ \<Rightarrow> io_return (Some \<lparr>q_name = private_name, q_directory = directory, q_identity = identity\<rparr>)
             | Err e \<Rightarrow>
                 io_case (namespace_guard_drop (ow_directory ow) (ow_boundary ow) private_name identity) (\<lambda>_.
                   if io_error_kind_of e = EntryNotFound then io_return None else io_fail e)))))"

definition quarantine_entry ::
  "owned_path \<Rightarrow> (namespace_stage \<Rightarrow> (io_error, unit) result) \<Rightarrow> unix_quarantine option io" where
  "quarantine_entry ow fault =
     io_bind (authenticate_retained (ow_boundary ow) (ow_directory ow)) (\<lambda>_.
       quarantine_attempts QUARANTINE_ATTEMPTS ow fault)"

definition quarantine_matches :: "owned_path \<Rightarrow> unix_quarantine \<Rightarrow> bool io" where
  "quarantine_matches ow q =
     io_case (statat (q_directory q) PRIVATE_CANDIDATE_NAME) (\<lambda>found.
       case found of
         Ok st \<Rightarrow> io_return (id_device (ow_identity ow) = stat_dev st \<and> id_inode (ow_identity ow) = stat_ino st)
       | Err _ \<Rightarrow> io_return False)"

definition remove_private_directory :: "owned_path \<Rightarrow> unix_quarantine \<Rightarrow> unit io" where
  "remove_private_directory ow q =
     io_bind (statat (ow_directory ow) (q_name q)) (\<lambda>st.
     io_bind (io_check (identity_matches (q_identity q) (stat_identity st))
                ''private cleanup namespace was replaced; preserving replacement'') (\<lambda>_.
     io_bind (sys (UnlinkAt (ow_directory ow) (q_name q) True)) (\<lambda>_. io_return ())))"

definition remove_quarantine :: "owned_path \<Rightarrow> unix_quarantine \<Rightarrow> unit io" where
  "remove_quarantine ow q =
     io_bind (sys (UnlinkAt (q_directory q) PRIVATE_CANDIDATE_NAME False)) (\<lambda>_. remove_private_directory ow q)"

definition restore_quarantine :: "owned_path \<Rightarrow> unix_quarantine \<Rightarrow> unit io" where
  "restore_quarantine ow q =
     io_bind (rename_relative_noreplace (q_directory q) PRIVATE_CANDIDATE_NAME (ow_directory ow) (ow_public_name ow))
       (\<lambda>_. remove_private_directory ow q)"

definition quarantine_path :: "owned_path \<Rightarrow> unix_quarantine \<Rightarrow> path" where
  "quarantine_path ow q = path_join (path_join (ow_directory_path ow) (q_name q)) PRIVATE_CANDIDATE_NAME"

text \<open>The result is the path of a quarantine that had to be kept, and the owner, now inactive.\<close>

definition cleanup ::
  "owned_path \<Rightarrow> (namespace_stage \<Rightarrow> (io_error, unit) result) \<Rightarrow> (path option \<times> owned_path) io" where
  "cleanup ow fault =
     (if \<not> ow_active ow then io_return (None, ow)
      else
        let gone = ow\<lparr>ow_active := False\<rparr>
        in io_case (quarantine_entry ow fault) (\<lambda>quarantined.
             case quarantined of
               Err _ \<Rightarrow> io_return (None, gone)
             | Ok None \<Rightarrow> io_return (None, gone)
             | Ok (Some q) \<Rightarrow>
                 io_bind (quarantine_matches ow q) (\<lambda>matches.
                   io_case (if matches then remove_quarantine ow q else restore_quarantine ow q) (\<lambda>r.
                     io_return (if is_ok r then None else Some (quarantine_path ow q), gone)))))"

definition no_fault :: "'stage \<Rightarrow> (io_error, unit) result" where
  "no_fault stage = Ok ()"

end
