(* ===== verification/Listeners.thy ===== *)
theory Listeners
  imports Config Headers Path_Ownership
begin

text \<open>
  Listeners of \<open>src/src/api_server.rs\<close>: Unix sockets that are bound in a private directory and then
  published, the check that configured socket paths differ, the redirect server, the order of
  stopping the management listener, and the bounded set of TLS handshakes. Every failure of
  \<open>bind_unix_socket\<close> and of the two path checks is wrapped in \<open>ListenerError::UnixBind\<close>; the model
  gives the wrapped error. The hooks that only tests install are left out.
\<close>

section \<open>Unix sockets\<close>

definition STAGED_NAME :: string where
  "STAGED_NAME = ''s''"

text \<open>The mode 0660.\<close>

definition SOCKET_MODE :: u32 where
  "SOCKET_MODE = 0x1B0"

definition owner_drop :: "owned_path \<Rightarrow> unit io" where
  "owner_drop ow = io_case (cleanup ow no_fault) (\<lambda>_. io_return ())"

definition publish_socket ::
  "anchored_directory \<Rightarrow> private_directory \<Rightarrow> path \<Rightarrow> string \<Rightarrow> nat \<Rightarrow> owned_path \<Rightarrow> (nat \<times> owned_path) io" where
  "publish_socket anchor staging p public_name socket ow =
     io_bind (sys (ListenOn socket 1024)) (\<lambda>_.
     io_bind (sys (SetNonblocking socket)) (\<lambda>_.
     io_bind (prepare_socket staging ow SOCKET_MODE) (\<lambda>_.
     io_bind (publish_into ow anchor p public_name) (\<lambda>ow.
       io_return (socket, ow)))))"

definition bind_staged ::
  "anchored_directory \<Rightarrow> private_directory \<Rightarrow> path \<Rightarrow> string \<Rightarrow> (nat \<times> owned_path) io" where
  "bind_staged anchor staging p public_name =
     io_bind (stable_path staging) (\<lambda>staging_path.
     let staged_path = path_join staging_path STAGED_NAME
     in io_bind (sys NewSocket) (\<lambda>r.
        let socket = rep_fd r
        in io_bind (sys (SocketAddress staged_path)) (\<lambda>_.
           io_bind (sys (BindSocket socket staged_path)) (\<lambda>_.
           io_bind (on_error (own_entry staging STAGED_NAME) (remove_entry staging STAGED_NAME)) (\<lambda>ow.
             on_error (publish_socket anchor staging p public_name socket ow) (owner_drop ow))))))"

definition bind_unix_socket :: "path \<Rightarrow> (nat \<times> owned_path) io" where
  "bind_unix_socket p =
     (case path_file_name p of
        None \<Rightarrow> io_fail (IoError InvalidInput ''Unix socket path has no file name'')
      | Some public_name \<Rightarrow>
          io_bind (anchored_capture (parent_or_dot p)) (\<lambda>anchor.
          io_bind (create_private_directory anchor no_fault) (\<lambda>staging.
            at_exit (bind_staged anchor staging p public_name) (private_directory_drop staging))))"

definition ensure_socket_path_available :: "path \<Rightarrow> unit io" where
  "ensure_socket_path_available p =
     io_case (sys (LinkStat p)) (\<lambda>r.
       case r of
         Err e \<Rightarrow> if io_error_kind_of e = EntryNotFound then io_return () else io_fail e
       | Ok _ \<Rightarrow> io_fail (IoError EntryExists ''Unix socket path already exists''))"

fun distinct_loop :: "path list \<Rightarrow> listener_config list \<Rightarrow> unit io" where
  "distinct_loop paths [] = io_return ()"
| "distinct_loop paths (Tcp _ # listeners) = distinct_loop paths listeners"
| "distinct_loop paths (Unix p # listeners) =
     (case path_file_name p of
        None \<Rightarrow> io_fail (IoError InvalidInput ''Unix socket path has no file name'')
      | Some file_name \<Rightarrow>
          io_bind (sys (Canonicalize (parent_or_dot p))) (\<lambda>r.
            let identity = path_join (rep_path r) file_name
            in if identity \<in> set paths
               then io_fail (IoError EntryExists ''Unix listener paths alias each other'')
               else distinct_loop (identity # paths) listeners))"

definition ensure_listener_paths_distinct :: "listener_config list \<Rightarrow> unit io" where
  "ensure_listener_paths_distinct listeners = distinct_loop [] listeners"

section \<open>The redirect server\<close>

record request_uri =
  ru_path :: string
  ru_path_and_query :: "string option"

record redirect_response =
  rd_status :: nat
  rd_location :: "string option"

definition redirect_hostname :: "string \<Rightarrow> string option" where
  "redirect_hostname host =
     (if starts_with_char CHR ''['' host then
        (case split_once CHR '']'' host of
           None \<Rightarrow> None
         | Some (before, _) \<Rightarrow> Some (before @ '']''))
      else
        (let hostname = (case split_once CHR '':'' host of None \<Rightarrow> host | Some (hostname, _) \<Rightarrow> hostname)
         in if hostname = [] then None else Some hostname))"

text \<open>\<open>valid\<close> says which texts are header values for the \<open>http\<close> package.\<close>

definition redirect_request :: "(string \<Rightarrow> bool) \<Rightarrow> u16 \<Rightarrow> request_uri \<Rightarrow> header_map \<Rightarrow> redirect_response" where
  "redirect_request valid https_port uri headers =
     (let bad_request = \<lparr>rd_status = 400, rd_location = None\<rparr>
      in case Option.bind (Option.bind (hm_get ''host'' headers) header_to_str) redirect_hostname of
           None \<Rightarrow> bad_request
         | Some host \<Rightarrow>
             (let p = (case ru_path_and_query uri of Some p \<Rightarrow> p | None \<Rightarrow> ru_path uri);
                  location = ''https://'' @ host @ '':'' @ decimal (unat https_port) @ p
              in if valid location then \<lparr>rd_status = 301, rd_location = Some location\<rparr> else bad_request))"

section \<open>Stopping the management listener\<close>

text \<open>
  One poll of the wrapped \<open>accept\<close>: the request to stop is looked at first, and once it is seen the
  future acknowledges it and never completes. The flags only change from false to true.
\<close>

record management =
  mg_stop_requested :: bool
  mg_accepts_stopped :: bool

definition management_default :: management where
  "management_default = \<lparr>mg_stop_requested = False, mg_accepts_stopped = False\<rparr>"

definition request_stop :: "management \<Rightarrow> management" where
  "request_stop m = m\<lparr>mg_stop_requested := True\<rparr>"

definition management_acknowledge :: "management \<Rightarrow> management" where
  "management_acknowledge m = m\<lparr>mg_accepts_stopped := True\<rparr>"

datatype 'c accept_poll = AcceptPending | AcceptReady 'c | AcceptNever

definition managed_accept :: "'c option \<Rightarrow> management \<Rightarrow> 'c accept_poll \<times> management" where
  "managed_accept incoming m =
     (if mg_stop_requested m then (AcceptNever, management_acknowledge m)
      else (case incoming of Some c \<Rightarrow> (AcceptReady c, m) | None \<Rightarrow> (AcceptPending, m)))"

text \<open>The accept loop of the server, with its connections, between requests to stop.\<close>

record 'c managed_server =
  sv_management :: management
  sv_parked :: bool
  sv_connections :: "'c list"

inductive managed_step :: "'c managed_server \<Rightarrow> 'c managed_server \<Rightarrow> bool" where
  stop: "managed_step s (s\<lparr>sv_management := request_stop (sv_management s)\<rparr>)"
| accepted: "\<not> sv_parked s \<Longrightarrow> managed_accept incoming (sv_management s) = (AcceptReady c, m)
    \<Longrightarrow> managed_step s (s\<lparr>sv_management := m, sv_connections := sv_connections s @ [c]\<rparr>)"
| waiting: "\<not> sv_parked s \<Longrightarrow> managed_accept (incoming :: 'c option) (sv_management s) = (AcceptPending, m)
    \<Longrightarrow> managed_step s (s\<lparr>sv_management := m\<rparr>)"
| parked: "\<not> sv_parked s \<Longrightarrow> managed_accept (incoming :: 'c option) (sv_management s) = (AcceptNever, m)
    \<Longrightarrow> managed_step s (s\<lparr>sv_management := m, sv_parked := True\<rparr>)"

inductive_cases managed_stepE: "managed_step s s'"

section \<open>TLS handshakes\<close>

definition MAX_CONCURRENT_TLS_HANDSHAKES :: nat where
  "MAX_CONCURRENT_TLS_HANDSHAKES = 64"

text \<open>
  The accept loop of the TLS listener: which handshakes run and which connections it has returned.
  A new connection is accepted only below the limit; a finished handshake is returned or forgotten.
\<close>

record 'c tls_listener =
  tl_handshakes :: "'c list"
  tl_returned :: "'c list"

inductive tls_step :: "'c tls_listener \<Rightarrow> 'c tls_listener \<Rightarrow> bool" where
  spawn: "length (tl_handshakes l) < MAX_CONCURRENT_TLS_HANDSHAKES
    \<Longrightarrow> tls_step l (l\<lparr>tl_handshakes := tl_handshakes l @ [c]\<rparr>)"
| accept_failed: "length (tl_handshakes l) < MAX_CONCURRENT_TLS_HANDSHAKES \<Longrightarrow> tls_step l l"
| completed: "c \<in> set (tl_handshakes l)
    \<Longrightarrow> tls_step l (l\<lparr>tl_handshakes := remove1 c (tl_handshakes l), tl_returned := tl_returned l @ [c]\<rparr>)"
| rejected: "c \<in> set (tl_handshakes l)
    \<Longrightarrow> tls_step l (l\<lparr>tl_handshakes := remove1 c (tl_handshakes l)\<rparr>)"

lemma tls_step_bounded:
  "tls_step l l' \<Longrightarrow> length (tl_handshakes l) \<le> MAX_CONCURRENT_TLS_HANDSHAKES
   \<Longrightarrow> length (tl_handshakes l') \<le> MAX_CONCURRENT_TLS_HANDSHAKES"
  by (induction rule: tls_step.induct) (auto simp: length_remove1)

section \<open>After the acknowledgement nothing is accepted\<close>

definition stop_ok :: "'c managed_server \<Rightarrow> bool" where
  "stop_ok s \<longleftrightarrow> (mg_accepts_stopped (sv_management s) \<longrightarrow> sv_parked s)"

lemma managed_step_ok: "managed_step s s' \<Longrightarrow> stop_ok s \<Longrightarrow> stop_ok s'"
  by (erule managed_stepE)
    (auto simp: stop_ok_def managed_accept_def management_acknowledge_def request_stop_def
      split: if_splits option.splits)

lemma managed_parked:
  "managed_step s s' \<Longrightarrow> sv_parked s \<Longrightarrow> sv_parked s' \<and> sv_connections s' = sv_connections s"
  by (erule managed_stepE) auto

lemma stopped_accepts_nothing:
  assumes "managed_step\<^sup>*\<^sup>* s t" "stop_ok s" "mg_accepts_stopped (sv_management s)"
  shows "sv_connections t = sv_connections s"
proof -
  have "sv_parked t \<and> sv_connections t = sv_connections s"
    using assms(1)
  proof induction
    case base
    then show ?case using assms(2,3) by (simp add: stop_ok_def)
  next
    case (step y z)
    then show ?case using managed_parked by metis
  qed
  then show ?thesis ..
qed

end
