(* ===== verification/Path_Safety.thy ===== *)
theory Path_Safety
  imports Path_Ownership
begin

text \<open>
  What the owner of a path does to the file system, for every behaviour of the kernel and of the
  other processes: the calls that change something are only those that its record of earlier answers
  justifies.
\<close>

section \<open>Facts about a record of calls\<close>

definition done_ok :: "syscall \<Rightarrow> history \<Rightarrow> bool" where
  "done_ok c t \<longleftrightarrow> list_ex (\<lambda>(c', r). c' = c \<and> rep_error r = None) t"

fun last_stat :: "nat \<Rightarrow> string \<Rightarrow> history \<Rightarrow> stat_buf option" where
  "last_stat d n ((StatAt d' n', r) # t) =
     (if d' = d \<and> n' = n \<and> rep_error r = None then Some (rep_stat r) else None)"
| "last_stat d n t = None"

fun last_random :: "history \<Rightarrow> string option" where
  "last_random ((RandBytes k, r) # t) = (if rep_error r = None then Some (rep_bytes r) else None)"
| "last_random t = None"

definition made :: "owned_path \<Rightarrow> string \<Rightarrow> history \<Rightarrow> bool" where
  "made ow n t \<longleftrightarrow> done_ok (MkdirAt (ow_directory ow) n OWNER_ALL) t"

fun open_target :: "syscall \<Rightarrow> (nat \<times> string) option" where
  "open_target (OpenDirAt p n) = Some (p, n)"
| "open_target _ = None"

definition opened :: "owned_path \<Rightarrow> nat \<Rightarrow> history \<Rightarrow> bool" where
  "opened ow d t \<longleftrightarrow>
     list_ex (\<lambda>(c, r). case open_target c of
         Some (p, n) \<Rightarrow> p = ow_directory ow \<and> rep_error r = None \<and> rep_fd r = d \<and> made ow n t
       | None \<Rightarrow> False) t"

definition moved :: "owned_path \<Rightarrow> nat \<Rightarrow> history \<Rightarrow> bool" where
  "moved ow d t \<longleftrightarrow> done_ok (RenameAt (ow_directory ow) (ow_public_name ow) d PRIVATE_CANDIDATE_NAME) t"

definition own_private :: "u32 \<Rightarrow> stat_buf \<Rightarrow> bool" where
  "own_private euid st \<longleftrightarrow>
     is_directory (stat_mode st) \<and> stat_uid st = euid \<and> stat_mode st AND MODE_BITS AND NOT OWNER_ALL = 0"

definition seen_private :: "owned_path \<Rightarrow> u32 \<Rightarrow> string \<Rightarrow> file_identity \<Rightarrow> history \<Rightarrow> bool" where
  "seen_private ow euid n identity t \<longleftrightarrow>
     list_ex (\<lambda>(c, r). c = StatAt (ow_directory ow) n \<and> rep_error r = None
         \<and> own_private euid (rep_stat r) \<and> stat_identity (rep_stat r) = identity) t"

text \<open>The calls a cleanup may make, given the calls it made before.\<close>

fun permitted :: "owned_path \<Rightarrow> u32 \<Rightarrow> history \<Rightarrow> syscall \<Rightarrow> bool" where
  "permitted ow euid t (UnlinkAt d n False) =
     (n = PRIVATE_CANDIDATE_NAME \<and> moved ow d t
      \<and> map_option stat_identity (last_stat d n t) = Some (ow_identity ow))"
| "permitted ow euid t (UnlinkAt d n True) =
     (d = ow_directory ow \<and> made ow n t
      \<and> (case last_stat d n t of None \<Rightarrow> False | Some st \<Rightarrow> seen_private ow euid n (stat_identity st) t))"
| "permitted ow euid t (RenameAt d n d' n') =
     (d = ow_directory ow \<and> n = ow_public_name ow \<and> n' = PRIVATE_CANDIDATE_NAME \<and> opened ow d' t
      \<or> d' = ow_directory ow \<and> n' = ow_public_name ow \<and> n = PRIVATE_CANDIDATE_NAME \<and> moved ow d t
        \<and> map_option stat_identity (last_stat d n t) \<noteq> Some (ow_identity ow))"
| "permitted ow euid t (MkdirAt d n m) =
     (d = ow_directory ow \<and> m = OWNER_ALL
      \<and> map_option (\<lambda>bytes. ''.chp-cleanup-'' @ hex_suffix bytes) (last_random t) = Some n)"
| "permitted ow euid t (ChmodAt d n m) = (d = ow_directory ow \<and> made ow n t \<and> m = OWNER_ALL)"
| "permitted ow euid t (CreateAt d n) = False"
| "permitted ow euid t (WriteAll d s) = False"
| "permitted ow euid t (SyncData d) = False"
| "permitted ow euid t (BindSocket d p) = False"
| "permitted ow euid t (Service c) = False"
| "permitted ow euid t _ = True"

fun only_permitted :: "owned_path \<Rightarrow> u32 \<Rightarrow> history \<Rightarrow> bool" where
  "only_permitted ow euid [] = True"
| "only_permitted ow euid ((c, r) # t) = (permitted ow euid t c \<and> only_permitted ow euid t)"

section \<open>Quiet computations\<close>

fun looks_only :: "syscall \<Rightarrow> bool" where
  "looks_only (UnlinkAt _ _ _) = False"
| "looks_only (RenameAt _ _ _ _) = False"
| "looks_only (MkdirAt _ _ _) = False"
| "looks_only (ChmodAt _ _ _) = False"
| "looks_only (CreateAt _ _) = False"
| "looks_only (WriteAll _ _) = False"
| "looks_only (SyncData _) = False"
| "looks_only (BindSocket _ _) = False"
| "looks_only (Service _) = False"
| "looks_only _ = True"

definition stable :: "(history \<Rightarrow> bool) \<Rightarrow> bool" where
  "stable I \<longleftrightarrow> (\<forall>t c r. looks_only c \<longrightarrow> I t \<longrightarrow> I ((c, r) # t))"

text \<open>
  A computation avoids the calls in \<open>B\<close> when it keeps everything that the other calls keep.
  A quiet computation makes no call that changes something.
\<close>

definition avoids :: "(syscall \<Rightarrow> bool) \<Rightarrow> 'a io \<Rightarrow> bool" where
  "avoids B m \<longleftrightarrow> (\<forall>K h0 I. (\<forall>t c r. \<not> B c \<longrightarrow> I t \<longrightarrow> I ((c, r) # t)) \<longrightarrow> holds K h0 I m (\<lambda>_. I))"

abbreviation quiet_io :: "'a io \<Rightarrow> bool" where
  "quiet_io \<equiv> avoids (\<lambda>c. \<not> looks_only c)"

named_theorems avoid_intros \<open>one rule for each form of computation\<close>
named_theorems quiet_intros \<open>computations that only look\<close>

lemma avoids_return [avoid_intros, quiet_intros]: "avoids B (io_return a)"
  by (simp add: avoids_def holds_return)

lemma avoids_fail [avoid_intros, quiet_intros]: "avoids B (io_fail e)"
  by (simp add: avoids_def holds_fail)

lemma avoids_lift [avoid_intros, quiet_intros]: "avoids B (io_lift r)"
  by (simp add: avoids_def holds_lift)

lemma avoids_sys [avoid_intros]: "\<not> B c \<Longrightarrow> avoids B (sys c)"
  by (auto simp: avoids_def intro!: holds_sys)

lemma avoids_ask [avoid_intros]: "\<not> B (Service c) \<Longrightarrow> avoids B (ask c)"
  by (auto simp: avoids_def intro!: holds_ask)

lemma avoids_case [avoid_intros, quiet_intros]:
  "avoids B m \<Longrightarrow> (\<And>r. avoids B (f r)) \<Longrightarrow> avoids B (io_case m f)"
  unfolding avoids_def by (blast intro: holds_case)

lemma avoids_bind [avoid_intros, quiet_intros]:
  assumes "avoids B m" "\<And>a. avoids B (f a)"
  shows "avoids B (io_bind m f)"
  unfolding io_bind_def
proof (rule avoids_case[OF assms(1)])
  fix r show "avoids B (case r of Ok a \<Rightarrow> f a | Err e \<Rightarrow> io_fail e)"
    using assms(2) by (cases r) (auto intro: avoids_fail)
qed

lemma avoids_euid [avoid_intros, quiet_intros]: "(\<And>u. avoids B (f u)) \<Longrightarrow> avoids B (io_euid f)"
  by (simp add: avoids_def holds_euid)

lemma avoids_on_error [avoid_intros]: "avoids B m \<Longrightarrow> avoids B g \<Longrightarrow> avoids B (on_error m g)"
  unfolding on_error_def by (auto intro!: avoids_case avoids_return avoids_fail split: result.split)

lemma avoids_at_exit [avoid_intros]: "avoids B m \<Longrightarrow> avoids B g \<Longrightarrow> avoids B (at_exit m g)"
  unfolding at_exit_def by (intro avoids_case avoids_lift)

lemma avoidsD:
  assumes "avoids B m" "\<And>t c r. \<not> B c \<Longrightarrow> I t \<Longrightarrow> I ((c, r) # t)"
  shows "holds K h0 I m (\<lambda>_. I)"
  using assms unfolding avoids_def by simp

lemma avoids_mono:
  assumes "avoids B m" "\<And>c. B' c \<Longrightarrow> B c"
  shows "avoids B' m"
  unfolding avoids_def
proof (intro allI impI)
  fix K h0 and I :: "history \<Rightarrow> bool" assume "\<forall>t c r. \<not> B' c \<longrightarrow> I t \<longrightarrow> I ((c, r) # t)"
  with assms(2) show "holds K h0 I m (\<lambda>_. I)" by (intro avoidsD[OF assms(1)]) blast
qed

lemma avoids_grows:
  assumes "avoids B m" "m K h = (r, h')"
  shows "\<exists>t. h' = t @ h"
  using holdsD[OF avoidsD[OF assms(1), of "\<lambda>_. True"] _ assms(2)] by simp

lemma quiet_ioD: "quiet_io m \<Longrightarrow> stable I \<Longrightarrow> holds K h0 I m (\<lambda>_. I)"
  by (simp add: avoids_def stable_def)

lemma quiet_sys [quiet_intros]: "looks_only c \<Longrightarrow> quiet_io (sys c)"
  by (simp add: avoids_sys)

lemma quiet_check [quiet_intros]: "quiet_io (io_check b s)"
  by (simp add: io_check_def avoids_return avoids_fail)

lemma quiet_acl [quiet_intros]: "quiet_io (acl_loop d names)"
  by (induction d names rule: acl_loop.induct)
    (auto intro!: quiet_intros split: result.split io_error.split)

lemmas looking_defs = from_file_def open_directory_def open_directory_at_def statat_def try_clone_def
  authenticate_directory_acl_def authenticate_boundary_directory_def authenticate_child_identity_def
  authenticate_component_def last_component_def Let_def

lemma quiet_looking [quiet_intros]:
  "quiet_io (from_file d)" "quiet_io (open_directory p)" "quiet_io (open_directory_at d n)"
  "quiet_io (statat d n)" "quiet_io (try_clone d)" "quiet_io (authenticate_directory_acl d)"
  "quiet_io (authenticate_boundary_directory d)" "quiet_io (authenticate_child_identity d n i)"
  "quiet_io (authenticate_component c d s)" "quiet_io (last_component b)"
  unfolding looking_defs by (auto intro!: quiet_intros split: list.split)

lemma quiet_retained [quiet_intros]: "quiet_io (authenticate_retained b d)"
  unfolding authenticate_retained_def by (intro quiet_intros)

section \<open>Stable facts\<close>

lemma done_ok_Cons: "done_ok c ((c', r) # t) \<longleftrightarrow> c' = c \<and> rep_error r = None \<or> done_ok c t"
  by (auto simp: done_ok_def)

lemma made_mono: "made ow n t \<Longrightarrow> made ow n (e # t)"
  by (simp add: made_def done_ok_def)

lemma moved_mono: "moved ow d t \<Longrightarrow> moved ow d (e # t)"
  by (simp add: moved_def done_ok_def)

lemma open_target_Some: "open_target c = Some (p, n) \<longleftrightarrow> c = OpenDirAt p n"
  by (cases c) auto

lemma opened_iff: "opened ow d t \<longleftrightarrow>
    (\<exists>n r. (OpenDirAt (ow_directory ow) n, r) \<in> set t \<and> rep_error r = None \<and> rep_fd r = d \<and> made ow n t)"
  by (fastforce simp: opened_def list_ex_iff open_target_Some split: option.splits)

lemma opened_mono: "opened ow d t \<Longrightarrow> opened ow d (e # t)"
  unfolding opened_iff using made_mono[of ow _ t e] by auto

lemma seen_private_mono: "seen_private ow u n i t \<Longrightarrow> seen_private ow u n i (e # t)"
  by (simp add: seen_private_def)

lemma permitted_quiet: "looks_only c \<Longrightarrow> permitted ow euid t c"
  by (cases c) auto

text \<open>Facts that only a renaming can end.\<close>

definition calm :: "(history \<Rightarrow> bool) \<Rightarrow> bool" where
  "calm F \<longleftrightarrow> (\<forall>t c r. (\<forall>a b d e. c \<noteq> RenameAt a b d e) \<longrightarrow> F t \<longrightarrow> F ((c, r) # t))"

lemma calm_stable: "calm F \<Longrightarrow> stable F"
  unfolding calm_def stable_def by (metis looks_only.simps(2))

lemma calm_conj: "calm F \<Longrightarrow> calm G \<Longrightarrow> calm (\<lambda>t. F t \<and> G t)"
  by (simp add: calm_def)

lemma calm_facts [simp]:
  "calm (made ow n)" "calm (moved ow d)" "calm (opened ow d)" "calm (seen_private ow u n i)"
  "calm (\<lambda>t. True)" "calm (\<lambda>t. \<forall>d. \<not> moved ow d t)"
  by (auto simp: calm_def intro: made_mono moved_mono opened_mono seen_private_mono)
    (auto simp: moved_def done_ok_Cons)

lemma stable_permitted: "calm F \<Longrightarrow> stable (\<lambda>t. only_permitted ow u t \<and> F t)"
  using calm_stable[of F] by (auto simp: stable_def permitted_quiet)

lemma holds_seq:
  assumes "holds K h0 I m (\<lambda>_. I)" "\<And>a. holds K h0 I (f a) Q" "\<And>e t. I t \<Longrightarrow> Q (Err e) t"
  shows "holds K h0 I (io_bind m f) Q"
  by (rule holds_bind[OF assms])

lemma last_stat_seen:
  "last_stat (ow_directory ow) n t = Some st \<Longrightarrow> own_private u st \<Longrightarrow> seen_private ow u n (stat_identity st) t"
  by (cases "(ow_directory ow, n, t)" rule: last_stat.cases) (auto simp: seen_private_def split: if_splits)

lemma statat_spec:
  assumes "stable I"
  shows "holds K h0 I (statat d n)
    (\<lambda>r t. I t \<and> last_stat d n t = (case r of Ok st \<Rightarrow> Some st | Err _ \<Rightarrow> None))"
  unfolding statat_def
proof (rule holds_bind)
  show "holds K h0 I (sys (StatAt d n))
      (\<lambda>r t. I t \<and> last_stat d n t = (case r of Ok rep \<Rightarrow> Some (rep_stat rep) | Err _ \<Rightarrow> None))"
    using assms by (intro holds_sys) (auto simp: stable_def split: option.splits)
qed (auto intro: holds_return)

lemma act:
  assumes "calm F" "\<And>a b d e. c \<noteq> RenameAt a b d e"
  shows "holds K h0 (\<lambda>t. only_permitted ow u t \<and> F t \<and> permitted ow u t c) (sys c)
    (\<lambda>r t. only_permitted ow u t \<and> F t \<and> (is_ok r \<longrightarrow> done_ok c t))"
  using assms by (intro holds_sys) (auto simp: calm_def done_ok_Cons split: option.splits)

section \<open>The guards\<close>

lemma guard_shape:
  assumes "calm G"
    and "\<And>st. permit st \<Longrightarrow> holds K h0 (\<lambda>t. only_permitted ow u t \<and> G t \<and> last_stat d n t = Some st) (act_on st)
           (\<lambda>_ t. only_permitted ow u t \<and> G t)"
  shows "holds K h0 (\<lambda>t. only_permitted ow u t \<and> G t)
    (io_case (authenticate_retained b d) (\<lambda>authentic.
       if \<not> is_ok authentic then io_return ()
       else io_case (statat d n) (\<lambda>found.
         case found of Ok st \<Rightarrow> if permit st then act_on st else io_return () | Err _ \<Rightarrow> io_return ())))
    (\<lambda>_ t. only_permitted ow u t \<and> G t)"
proof (rule holds_case[OF quiet_ioD[OF quiet_retained stable_permitted[OF assms(1)]]])
  fix authentic :: "(io_error, unit) result"
  have "holds K h0 (\<lambda>t. only_permitted ow u t \<and> G t)
      (io_case (statat d n) (\<lambda>found.
         case found of Ok st \<Rightarrow> if permit st then act_on st else io_return () | Err _ \<Rightarrow> io_return ()))
      (\<lambda>_ t. only_permitted ow u t \<and> G t)"
  proof (rule holds_case[OF statat_spec[OF stable_permitted[OF assms(1)]]])
    fix found :: "(io_error, stat_buf) result"
    show "holds K h0 (\<lambda>t. (only_permitted ow u t \<and> G t)
           \<and> last_stat d n t = (case found of Ok st \<Rightarrow> Some st | Err _ \<Rightarrow> None))
        (case found of Ok st \<Rightarrow> if permit st then act_on st else io_return () | Err _ \<Rightarrow> io_return ())
        (\<lambda>_ t. only_permitted ow u t \<and> G t)"
      using assms(2) by (cases found) (auto intro: holds_return simp: conj_assoc)
  qed
  then show "holds K h0 (\<lambda>t. only_permitted ow u t \<and> G t)
      (if \<not> is_ok authentic then io_return ()
       else io_case (statat d n) (\<lambda>found.
         case found of Ok st \<Rightarrow> if permit st then act_on st else io_return () | Err _ \<Rightarrow> io_return ()))
      (\<lambda>_ t. only_permitted ow u t \<and> G t)"
    by (auto intro: holds_return)
qed

lemma remove_directory:
  assumes "calm G" "\<And>t. G t \<Longrightarrow> last_stat (ow_directory ow) n t = Some st
      \<Longrightarrow> made ow n t \<and> seen_private ow u n (stat_identity st) t"
  shows "holds K h0 (\<lambda>t. only_permitted ow u t \<and> G t \<and> last_stat (ow_directory ow) n t = Some st)
    (io_case (sys (UnlinkAt (ow_directory ow) n True)) (\<lambda>_. io_return ())) (\<lambda>_ t. only_permitted ow u t \<and> G t)"
proof (rule holds_case)
  show "holds K h0 (\<lambda>t. only_permitted ow u t \<and> G t \<and> last_stat (ow_directory ow) n t = Some st)
      (sys (UnlinkAt (ow_directory ow) n True)) (\<lambda>_ t. only_permitted ow u t \<and> G t)"
    by (rule holds_post[OF holds_pre[OF act[OF assms(1)]]]) (use assms(2) in auto)
qed (auto intro: holds_return)

lemma namespace_guard_spec:
  assumes "calm F"
  shows "holds K h0 (\<lambda>t. only_permitted ow u t \<and> made ow n t \<and> seen_private ow u n i t \<and> F t)
    (namespace_guard_drop (ow_directory ow) b n i)
    (\<lambda>_ t. only_permitted ow u t \<and> made ow n t \<and> seen_private ow u n i t \<and> F t)"
proof -
  let ?G = "\<lambda>t. made ow n t \<and> seen_private ow u n i t \<and> F t"
  have calm: "calm ?G" using assms by (intro calm_conj) simp_all
  show ?thesis unfolding namespace_guard_drop_def
    by (rule guard_shape[OF calm], rule remove_directory[OF calm]) (auto simp: stat_identity_iff)
qed

lemma provisional_guard_spec:
  assumes "calm F"
  shows "holds K h0 (\<lambda>t. only_permitted ow (k_euid K) t \<and> made ow n t \<and> F t)
    (provisional_guard_drop (ow_directory ow) b n)
    (\<lambda>_ t. only_permitted ow (k_euid K) t \<and> made ow n t \<and> F t)"
proof -
  let ?G = "\<lambda>t. made ow n t \<and> F t"
  have calm: "calm ?G" using assms by (intro calm_conj) simp_all
  have "provisional_guard_drop (ow_directory ow) b n K = (
    io_case (authenticate_retained b (ow_directory ow)) (\<lambda>authentic.
       if \<not> is_ok authentic then io_return ()
       else io_case (statat (ow_directory ow) n) (\<lambda>found.
         case found of Ok st \<Rightarrow> if own_private (k_euid K) st
             then io_case (sys (UnlinkAt (ow_directory ow) n True)) (\<lambda>_. io_return ()) else io_return ()
           | Err _ \<Rightarrow> io_return ()))) K"
    by (rule ext)
      (simp add: provisional_guard_drop_def own_private_def io_case_def io_euid_def
        split: prod.split result.split)
  then show ?thesis
    using guard_shape[OF calm remove_directory[OF calm], of "own_private (k_euid K)" ow n "k_euid K" K h0 b]
    by (auto simp: holds_def last_stat_seen)
qed

section \<open>Creating the private directory\<close>

lemma opened_here:
  "made ow n t \<Longrightarrow> rep_error r = None \<Longrightarrow> opened ow (rep_fd r) ((OpenDirAt (ow_directory ow) n, r) # t)"
  unfolding opened_iff using made_mono by (intro exI[of _ n] exI[of _ r]) auto

lemma open_spec:
  assumes "calm F"
  shows "holds K h0 (\<lambda>t. only_permitted ow u t \<and> made ow n t \<and> F t) (open_directory_at (ow_directory ow) n)
    (\<lambda>r t. only_permitted ow u t \<and> made ow n t \<and> F t \<and> (\<forall>d. r = Ok d \<longrightarrow> opened ow d t))"
  unfolding open_directory_at_def
proof (rule holds_bind)
  show "holds K h0 (\<lambda>t. only_permitted ow u t \<and> made ow n t \<and> F t) (sys (OpenDirAt (ow_directory ow) n))
      (\<lambda>r t. only_permitted ow u t \<and> made ow n t \<and> F t \<and> (\<forall>rep. r = Ok rep \<longrightarrow> opened ow (rep_fd rep) t))"
    using assms
    by (intro holds_sys) (auto simp: calm_def opened_here made_mono split: option.splits)
qed (auto intro: holds_return)

lemma provisional_identity_spec:
  assumes "calm F"
  shows "holds K h0 (\<lambda>t. only_permitted ow (k_euid K) t \<and> made ow n t \<and> F t)
    (provisional_identity (ow_directory ow) n)
    (\<lambda>r t. only_permitted ow (k_euid K) t \<and> made ow n t \<and> F t
         \<and> (\<forall>i. r = Ok i \<longrightarrow> seen_private ow (k_euid K) n i t))"
proof -
  have stable: "stable (\<lambda>t. only_permitted ow (k_euid K) t \<and> made ow n t \<and> F t)"
    using assms by (intro stable_permitted calm_conj) simp_all
  show ?thesis
    unfolding provisional_identity_def
    by (rule holds_bind[OF statat_spec[OF stable]])
      (auto intro!: holds_euid holds_return holds_fail last_stat_seen
        simp: io_check_def io_bind_def io_case_def own_private_def holds_def io_return_def io_fail_def io_euid_def)
qed

lemma normalize_spec:
  assumes "calm F"
  shows "holds K h0 (\<lambda>t. only_permitted ow u t \<and> made ow n t \<and> F t)
    (normalize_private fault (ow_directory ow) n i)
    (\<lambda>r t. only_permitted ow u t \<and> made ow n t \<and> F t \<and> (\<forall>d j. r = Ok (d, j) \<longrightarrow> j = i \<and> opened ow d t))"
proof -
  let ?I = "\<lambda>t. only_permitted ow u t \<and> made ow n t \<and> F t"
  have calm: "calm (\<lambda>t. made ow n t \<and> F t)" using assms by (intro calm_conj) simp_all
  have look: "holds K h0 ?I m (\<lambda>_. ?I)" if "quiet_io m" for m :: "'z io"
    using quiet_ioD[OF that stable_permitted[OF calm]] .
  have chmod: "holds K h0 ?I (chmodat_portable (ow_directory ow) n OWNER_ALL) (\<lambda>_. ?I)"
    unfolding chmodat_portable_def
    by (rule holds_bind[OF holds_post[OF holds_pre[OF act[OF calm]]]]) (auto intro: holds_return)
  have tail: "holds K h0 (\<lambda>t. ?I t \<and> opened ow d t)
      (io_bind (sys (FStat d)) (\<lambda>opened. io_bind (io_check (private_stat_ok i e (rep_stat opened)) msg) (\<lambda>_.
        io_bind (authenticate_directory_acl d) (\<lambda>_. io_return (d, i)))))
      (\<lambda>r t. only_permitted ow u t \<and> made ow n t \<and> F t \<and> (\<forall>d j. r = Ok (d, j) \<longrightarrow> j = i \<and> opened ow d t))" for d e msg
  proof -
    have "calm (\<lambda>t. made ow n t \<and> F t \<and> opened ow d t)" using assms by (intro calm_conj) simp_all
    note stable_permitted[OF this]
    then have st: "stable (\<lambda>t. ?I t \<and> opened ow d t)" by (simp add: conj_assoc)
    show ?thesis
      by (rule holds_seq[OF quiet_ioD[OF _ st]], (intro quiet_intros; simp),
          rule holds_seq[OF quiet_ioD[OF _ st]], (intro quiet_intros),
          rule holds_seq[OF quiet_ioD[OF _ st]], (intro quiet_intros)) (auto intro: holds_return)
  qed
  show ?thesis
    unfolding normalize_private_def conj_assoc
    apply (rule holds_euid)
    apply (rule holds_seq[OF look[OF avoids_lift]])
     apply (rule holds_seq[OF look[OF avoids_lift]])
      apply (rule holds_seq[OF chmod])
       apply (rule holds_seq[OF look[OF quiet_looking(4)]])
        apply (rule holds_seq[OF look[OF quiet_check]])
         apply (rule holds_seq[OF look[OF avoids_lift]])
          apply (rule holds_bind[OF open_spec[OF assms]])
           apply (rule holds_pre[OF tail])
           apply auto
    done
qed

lemma create_spec:
  assumes "calm F"
  shows "holds K h0 (\<lambda>t. only_permitted ow (k_euid K) t \<and> F t
        \<and> map_option (\<lambda>bytes. ''.chp-cleanup-'' @ hex_suffix bytes) (last_random t) = Some n)
    (create_authenticated_private_directory (ow_directory ow) b n preserve fault)
    (\<lambda>r t. only_permitted ow (k_euid K) t \<and> F t
      \<and> (\<forall>d i. r = Ok (d, i) \<longrightarrow> made ow n t \<and> seen_private ow (k_euid K) n i t \<and> opened ow d t))"
proof -
  let ?u = "k_euid K"
  let ?I = "\<lambda>t. only_permitted ow ?u t \<and> made ow n t \<and> F t"
  have mk: "holds K h0 (\<lambda>t. only_permitted ow ?u t \<and> F t
        \<and> map_option (\<lambda>bytes. ''.chp-cleanup-'' @ hex_suffix bytes) (last_random t) = Some n)
      (sys (MkdirAt (ow_directory ow) n OWNER_ALL)) (\<lambda>r t. only_permitted ow ?u t \<and> F t \<and> (is_ok r \<longrightarrow> made ow n t))"
    unfolding made_def by (rule holds_pre[OF act[OF assms]]) auto
  note guard = provisional_guard_spec[OF assms, of K h0 ow n b]
  have prov: "holds K h0 ?I
      (case fault StageOpen of
          Err e \<Rightarrow> if preserve then io_fail e
            else on_error (io_fail e) (provisional_guard_drop (ow_directory ow) b n)
        | Ok _ \<Rightarrow> on_error (provisional_identity (ow_directory ow) n) (provisional_guard_drop (ow_directory ow) b n))
      (\<lambda>r t. ?I t \<and> (\<forall>i. r = Ok i \<longrightarrow> seen_private ow ?u n i t))"
  proof (cases "fault StageOpen")
    case (Ok x)
    then show ?thesis
      by (auto intro!: holds_on_error[OF provisional_identity_spec[OF assms]] holds_post[OF holds_pre[OF guard]])
  next
    case (Err e)
    have "holds K h0 ?I (on_error (io_fail e) (provisional_guard_drop (ow_directory ow) b n))
        (\<lambda>r t. ?I t \<and> (\<forall>i. r = Ok i \<longrightarrow> seen_private ow ?u n i t))"
      by (rule holds_on_error[where R = "\<lambda>r t. \<not> is_ok r \<and> ?I t"])
        (auto intro!: holds_fail holds_post[OF holds_pre[OF guard]])
    with Err show ?thesis by (auto intro: holds_fail)
  qed
  show ?thesis
    unfolding create_authenticated_private_directory_def
  proof (rule holds_bind[OF mk], goal_cases)
    case (1 a)
    show ?case
    proof (rule holds_bind[OF holds_pre[OF prov]], goal_cases)
      case (2 i)
      have calm: "calm (\<lambda>t. seen_private ow ?u n i t \<and> F t)" using assms by (intro calm_conj) simp_all
      show ?case
        by (rule holds_on_error[OF holds_pre[OF normalize_spec[OF calm]]])
          (auto intro!: holds_post[OF holds_pre[OF namespace_guard_spec[OF assms]]])
    qed auto
  qed auto
qed

section \<open>The quarantine\<close>

definition unmoved :: "owned_path \<Rightarrow> history \<Rightarrow> bool" where
  "unmoved ow t \<longleftrightarrow> (\<forall>d. \<not> moved ow d t)"

definition moved_only :: "owned_path \<Rightarrow> nat \<Rightarrow> history \<Rightarrow> bool" where
  "moved_only ow d t \<longleftrightarrow> moved ow d t \<and> (\<forall>d'. moved ow d' t \<longrightarrow> d' = d)"

lemma calm_moves [simp]: "calm (unmoved ow)" "calm (moved_only ow d)" "calm (done_ok c)"
  unfolding calm_def unmoved_def moved_only_def moved_def by (auto simp: done_ok_Cons)

lemma random_spec:
  assumes "stable I"
  shows "holds K h0 I random_private_name
    (\<lambda>r t. I t \<and> (\<forall>n. r = Ok n \<longrightarrow>
       map_option (\<lambda>bytes. ''.chp-cleanup-'' @ hex_suffix bytes) (last_random t) = Some n))"
  unfolding random_private_name_def random_name_def
proof (rule holds_case)
  show "holds K h0 I (sys (RandBytes 16)) (\<lambda>r t. I t \<and> (\<forall>rep. r = Ok rep \<longrightarrow> last_random t = Some (rep_bytes rep)))"
    using assms by (intro holds_sys) (auto simp: stable_def split: option.splits)
next
  fix r :: "(io_error, reply) result"
  show "holds K h0 (\<lambda>t. I t \<and> (\<forall>rep. r = Ok rep \<longrightarrow> last_random t = Some (rep_bytes rep)))
      (case r of Err _ \<Rightarrow> io_fail (io_other ''could not generate a private cleanup name'')
        | Ok r \<Rightarrow> io_return (''.chp-cleanup-'' @ hex_suffix (rep_bytes r)))
      (\<lambda>r t. I t \<and> (\<forall>n. r = Ok n \<longrightarrow>
         map_option (\<lambda>bytes. ''.chp-cleanup-'' @ hex_suffix bytes) (last_random t) = Some n))"
    by (cases r) (auto intro: holds_return holds_fail)
qed

lemma move_spec:
  "holds K h0 (\<lambda>t. only_permitted ow u t \<and> made ow n t \<and> seen_private ow u n i t \<and> opened ow d t \<and> unmoved ow t)
    (rename_relative_noreplace (ow_directory ow) (ow_public_name ow) d PRIVATE_CANDIDATE_NAME)
    (\<lambda>r t. only_permitted ow u t \<and> made ow n t \<and> seen_private ow u n i t
      \<and> (if is_ok r then moved_only ow d t else unmoved ow t))"
  unfolding rename_relative_noreplace_def
proof (rule holds_bind)
  let ?c = "RenameAt (ow_directory ow) (ow_public_name ow) d PRIVATE_CANDIDATE_NAME"
  show "holds K h0 (\<lambda>t. only_permitted ow u t \<and> made ow n t \<and> seen_private ow u n i t \<and> opened ow d t \<and> unmoved ow t)
      (sys ?c) (\<lambda>r t. only_permitted ow u t \<and> made ow n t \<and> seen_private ow u n i t
        \<and> (if is_ok r then moved_only ow d t else unmoved ow t))"
    by (rule holds_sys)
      (auto simp: made_mono seen_private_mono moved_only_def unmoved_def moved_def done_ok_Cons split: option.splits)
qed (auto intro: holds_return)

definition quarantined :: "owned_path \<Rightarrow> u32 \<Rightarrow> unix_quarantine \<Rightarrow> history \<Rightarrow> bool" where
  "quarantined ow u q t \<longleftrightarrow>
     made ow (q_name q) t \<and> seen_private ow u (q_name q) (q_identity q) t \<and> moved_only ow (q_directory q) t"

abbreviation after_quarantine ::
  "owned_path \<Rightarrow> u32 \<Rightarrow> (io_error, unix_quarantine option) result \<Rightarrow> history \<Rightarrow> bool" where
  "after_quarantine ow u r t \<equiv> only_permitted ow u t
     \<and> (case r of Ok (Some q) \<Rightarrow> quarantined ow u q t | _ \<Rightarrow> unmoved ow t)"

lemma rename_step:
  "holds K h0 (\<lambda>t. only_permitted ow u t \<and> made ow n t \<and> seen_private ow u n i t \<and> opened ow d t \<and> unmoved ow t)
    (io_case (rename_relative_noreplace (ow_directory ow) (ow_public_name ow) d PRIVATE_CANDIDATE_NAME) (\<lambda>renamed.
       case renamed of
         Ok _ \<Rightarrow> io_return (Some \<lparr>q_name = n, q_directory = d, q_identity = i\<rparr>)
       | Err e \<Rightarrow>
           io_case (namespace_guard_drop (ow_directory ow) (ow_boundary ow) n i) (\<lambda>_.
             if io_error_kind_of e = EntryNotFound then io_return None else io_fail e)))
    (after_quarantine ow u)"
proof (rule holds_case[OF move_spec], goal_cases)
  case (1 renamed)
  show ?case
  proof (cases renamed)
    case (Ok x)
    then show ?thesis by (auto intro: holds_return simp: quarantined_def)
  next
    case (Err e)
    have "holds K h0 (\<lambda>t. only_permitted ow u t \<and> made ow n t \<and> seen_private ow u n i t \<and> unmoved ow t)
      (io_case (namespace_guard_drop (ow_directory ow) (ow_boundary ow) n i) (\<lambda>_.
             if io_error_kind_of e = EntryNotFound then io_return None else io_fail e)) (after_quarantine ow u)"
      by (rule holds_case[OF namespace_guard_spec]) (auto intro: holds_return holds_fail)
    with Err show ?thesis by simp
  qed
qed

lemma rename_attempt:
  "holds K h0 (\<lambda>t. only_permitted ow u t \<and> made ow n t \<and> seen_private ow u n i t \<and> opened ow d t \<and> unmoved ow t)
    (io_bind (on_error (io_lift (fault AtRename)) (namespace_guard_drop (ow_directory ow) (ow_boundary ow) n i)) (\<lambda>_.
     io_case (rename_relative_noreplace (ow_directory ow) (ow_public_name ow) d PRIVATE_CANDIDATE_NAME) (\<lambda>renamed.
       case renamed of
         Ok _ \<Rightarrow> io_return (Some \<lparr>q_name = n, q_directory = d, q_identity = i\<rparr>)
       | Err e \<Rightarrow>
           io_case (namespace_guard_drop (ow_directory ow) (ow_boundary ow) n i) (\<lambda>_.
             if io_error_kind_of e = EntryNotFound then io_return None else io_fail e))))
    (after_quarantine ow u)"
proof (rule holds_bind[OF _ rename_step])
  show "holds K h0 (\<lambda>t. only_permitted ow u t \<and> made ow n t \<and> seen_private ow u n i t \<and> opened ow d t \<and> unmoved ow t)
      (on_error (io_lift (fault AtRename)) (namespace_guard_drop (ow_directory ow) (ow_boundary ow) n i))
      (\<lambda>_ t. only_permitted ow u t \<and> made ow n t \<and> seen_private ow u n i t \<and> opened ow d t \<and> unmoved ow t)"
    by (rule holds_on_error[OF holds_lift[of _ "\<lambda>_ t. only_permitted ow u t \<and> made ow n t
          \<and> seen_private ow u n i t \<and> opened ow d t \<and> unmoved ow t"]])
      (auto intro!: namespace_guard_spec calm_conj)
qed auto

lemma quarantine_attempts_spec:
  "holds K h0 (\<lambda>t. only_permitted ow (k_euid K) t \<and> unmoved ow t) (quarantine_attempts n ow fault)
     (after_quarantine ow (k_euid K))"
proof (induction n)
  case 0
  show ?case by (auto intro: holds_fail)
next
  case (Suc n)
  show ?case
    unfolding quarantine_attempts.simps
  proof (rule holds_bind[OF random_spec[OF stable_permitted]], goal_cases)
    case (2 name)
    show ?case
    proof (rule holds_case[OF holds_pre[OF create_spec[of "unmoved ow"]]], goal_cases)
      case (3 created)
      then show ?case
        using Suc.IH rename_attempt[of K h0 ow "k_euid K" name _ _ fault]
        by (cases created) (auto intro: holds_fail simp: conj_ac)
    qed auto
  qed auto
qed

lemma quarantine_spec:
  "holds K h0 (\<lambda>t. only_permitted ow (k_euid K) t \<and> unmoved ow t) (quarantine_entry ow fault)
     (after_quarantine ow (k_euid K))"
  unfolding quarantine_entry_def
  by (rule holds_seq[OF quiet_ioD[OF quiet_retained stable_permitted] quarantine_attempts_spec]) simp_all

section \<open>Cleanup\<close>

lemma remove_private_directory_spec:
  assumes "calm F"
  shows "holds K h0 (\<lambda>t. only_permitted ow u t \<and> made ow (q_name q) t
        \<and> seen_private ow u (q_name q) (q_identity q) t \<and> F t)
    (remove_private_directory ow q) (\<lambda>_ t. only_permitted ow u t \<and> F t)"
proof -
  have calm: "calm (\<lambda>t. made ow (q_name q) t \<and> seen_private ow u (q_name q) (q_identity q) t \<and> F t)"
    using assms by (intro calm_conj) simp_all
  show ?thesis
    unfolding remove_private_directory_def
  proof (rule holds_bind[OF statat_spec[OF stable_permitted[OF calm]]], goal_cases)
    case (1 st)
    show ?case
    proof (cases "identity_matches (q_identity q) (stat_identity st)")
      case True
      then have "q_identity q = stat_identity st"
        by (simp add: identity_matches_def stat_identity_def flip: stat_identity_iff)
      then have "holds K h0 (\<lambda>t. (only_permitted ow u t \<and> made ow (q_name q) t
            \<and> seen_private ow u (q_name q) (q_identity q) t \<and> F t)
            \<and> last_stat (ow_directory ow) (q_name q) t = (case Ok st of Ok st \<Rightarrow> Some st | Err _ \<Rightarrow> None))
          (io_bind (sys (UnlinkAt (ow_directory ow) (q_name q) True)) (\<lambda>_. io_return ()))
          (\<lambda>_ t. only_permitted ow u t \<and> F t)"
        by (intro holds_bind[OF holds_pre[OF act[OF assms]]]) (auto intro: holds_return)
      with True show ?thesis by (simp add: io_check_def io_bind_def io_case_def io_return_def holds_def)
    next
      case False
      then show ?thesis by (simp add: io_check_def io_bind_def io_case_def io_fail_def holds_def)
    qed
  qed auto
qed

definition settled :: "owned_path \<Rightarrow> nat \<Rightarrow> history \<Rightarrow> bool" where
  "settled ow d t \<longleftrightarrow> done_ok (UnlinkAt d PRIVATE_CANDIDATE_NAME False) t
     \<or> done_ok (RenameAt d PRIVATE_CANDIDATE_NAME (ow_directory ow) (ow_public_name ow)) t"

lemma calm_settled [simp]: "calm (settled ow d)"
  by (auto simp: calm_def settled_def done_ok_Cons)

text \<open>What is true of the calls once the candidate was looked at.\<close>

abbreviation looked_at :: "owned_path \<Rightarrow> u32 \<Rightarrow> unix_quarantine \<Rightarrow> bool \<Rightarrow> history \<Rightarrow> bool" where
  "looked_at ow u q matches t \<equiv> only_permitted ow u t \<and> quarantined ow u q t
     \<and> (map_option stat_identity (last_stat (q_directory q) PRIVATE_CANDIDATE_NAME t) = Some (ow_identity ow)) = matches"

abbreviation after_settling :: "owned_path \<Rightarrow> u32 \<Rightarrow> unix_quarantine \<Rightarrow> (io_error, unit) result \<Rightarrow> history \<Rightarrow> bool" where
  "after_settling ow u q r t \<equiv> only_permitted ow u t \<and> moved_only ow (q_directory q) t
     \<and> (is_ok r \<longrightarrow> settled ow (q_directory q) t)"

lemma settle_spec:
  assumes "holds K h0 P (sys c) (\<lambda>r t. only_permitted ow u t \<and> quarantined ow u q t \<and> (is_ok r \<longrightarrow> settled ow (q_directory q) t))"
  shows "holds K h0 P (io_bind (sys c) (\<lambda>_. remove_private_directory ow q)) (after_settling ow u q)"
proof (rule holds_bind[OF assms], goal_cases)
  case (1 rep)
  have "calm (\<lambda>t. moved_only ow (q_directory q) t \<and> settled ow (q_directory q) t)" by (intro calm_conj) simp_all
  from remove_private_directory_spec[OF this, of K h0 ow u q]
  show ?case by (rule holds_post[OF holds_pre]) (auto simp: quarantined_def)
qed (auto simp: quarantined_def)

lemma remove_spec: "holds K h0 (looked_at ow u q True) (remove_quarantine ow q) (after_settling ow u q)"
  unfolding remove_quarantine_def
proof (rule settle_spec)
  have calm: "calm (quarantined ow u q)" unfolding quarantined_def by (intro calm_conj) simp_all
  show "holds K h0 (looked_at ow u q True) (sys (UnlinkAt (q_directory q) PRIVATE_CANDIDATE_NAME False))
      (\<lambda>r t. only_permitted ow u t \<and> quarantined ow u q t \<and> (is_ok r \<longrightarrow> settled ow (q_directory q) t))"
    by (rule holds_post[OF holds_pre[OF act[OF calm]]]) (auto simp: quarantined_def moved_only_def settled_def)
qed

lemma restore_spec: "holds K h0 (looked_at ow u q False) (restore_quarantine ow q) (after_settling ow u q)"
proof -
  let ?c = "RenameAt (q_directory q) PRIVATE_CANDIDATE_NAME (ow_directory ow) (ow_public_name ow)"
  have "holds K h0 (looked_at ow u q False) (sys ?c)
      (\<lambda>r t. only_permitted ow u t \<and> quarantined ow u q t \<and> (is_ok r \<longrightarrow> settled ow (q_directory q) t))"
    by (rule holds_sys)
      (auto simp: quarantined_def made_mono seen_private_mono moved_only_def moved_def settled_def done_ok_Cons
        split: option.splits)
  moreover have "restore_quarantine ow q = io_bind (sys ?c) (\<lambda>_. remove_private_directory ow q)"
    by (intro ext) (simp add: restore_quarantine_def rename_relative_noreplace_def io_bind_def io_case_def
        io_return_def io_fail_def split: prod.split result.split)
  ultimately show ?thesis using settle_spec by simp
qed

lemma matches_spec:
  "holds K h0 (\<lambda>t. only_permitted ow u t \<and> quarantined ow u q t) (quarantine_matches ow q)
     (\<lambda>r t. \<exists>m. r = Ok m \<and> looked_at ow u q m t)"
proof -
  have calm: "calm (quarantined ow u q)" unfolding quarantined_def by (intro calm_conj) simp_all
  show ?thesis
    unfolding quarantine_matches_def
  proof (rule holds_case[OF statat_spec[OF stable_permitted[OF calm]]], goal_cases)
    case (1 found)
    then show ?case by (cases found) (auto intro: holds_return simp: stat_identity_iff)
  qed
qed

lemma cleanup_spec:
  assumes "ow_active ow"
  shows "holds K h0 (\<lambda>t. t = []) (cleanup ow fault)
    (\<lambda>r t. only_permitted ow (k_euid K) t
      \<and> (\<exists>p. r = Ok (p, ow\<lparr>ow_active := False\<rparr>) \<and> (p = None \<longrightarrow> (\<forall>d. moved ow d t \<longrightarrow> settled ow d t))))"
proof -
  let ?u = "k_euid K"
  let ?Q = "\<lambda>r t. only_permitted ow ?u t
      \<and> (\<exists>p. r = Ok (p, ow\<lparr>ow_active := False\<rparr>) \<and> (p = None \<longrightarrow> (\<forall>d. moved ow d t \<longrightarrow> settled ow d t)))"
  have settle: "holds K h0 (\<lambda>t. only_permitted ow ?u t \<and> quarantined ow ?u q t)
      (io_bind (quarantine_matches ow q) (\<lambda>matches.
         io_case (if matches then remove_quarantine ow q else restore_quarantine ow q) (\<lambda>r.
           io_return (if is_ok r then None else Some (quarantine_path ow q), ow\<lparr>ow_active := False\<rparr>)))) ?Q" for q
  proof (rule holds_bind[OF matches_spec], goal_cases)
    case (1 m)
    have "holds K h0 (looked_at ow ?u q m) (if m then remove_quarantine ow q else restore_quarantine ow q)
        (after_settling ow ?u q)"
      using remove_spec restore_spec by (cases m) simp_all
    from holds_case[OF this] show ?case
      by (rule holds_pre) (auto intro!: holds_return simp: moved_only_def)
  qed auto
  have start: "holds K h0 (\<lambda>t. t = []) (quarantine_entry ow fault) (after_quarantine ow ?u)"
    by (rule holds_pre[OF quarantine_spec]) (auto simp: unmoved_def moved_def done_ok_def)
  show ?thesis
    using assms unfolding cleanup_def Let_def
  proof (simp, intro holds_case[OF start], goal_cases)
    case (1 r)
    then show ?case
      using settle by (auto intro!: holds_return simp: unmoved_def split: result.split option.split)
  qed
qed


text \<open>
  A kernel in which everything is as the process left it: descriptor 3 is the root directory, a
  directory opened below it is descriptor 4, and a created file is descriptor 5.
\<close>

definition sample_stat :: "u32 \<Rightarrow> u64 \<Rightarrow> stat_buf" where
  "sample_stat mode inode = \<lparr>stat_dev = 1, stat_ino = inode, stat_mode = mode, stat_uid = 1000\<rparr>"

definition sample_reply :: "nat \<Rightarrow> stat_buf \<Rightarrow> reply" where
  "sample_reply fd st = \<lparr>rep_error = None, rep_fd = fd, rep_stat = st, rep_path = ''/run'', rep_bytes = [CHR 0x0A]\<rparr>"

fun sample_answer :: "syscall \<Rightarrow> reply" where
  "sample_answer (GetXattr d n) = sample_reply 0 (sample_stat 0 0)\<lparr>rep_error := Some ENODATA\<rparr>"
| "sample_answer (OpenPath p) = sample_reply 3 (sample_stat 0 0)"
| "sample_answer (FStat d) =
     sample_reply 0 (if d = 3 then sample_stat 0x41C0 3 else if d = 4 then sample_stat 0x41C0 9 else sample_stat 0x81A4 7)"
| "sample_answer (StatAt d n) = sample_reply 0 (if d = 3 then sample_stat 0x41C0 9 else sample_stat 0x81A4 7)"
| "sample_answer (CreateAt d n) = sample_reply 5 (sample_stat 0 0)"
| "sample_answer _ = sample_reply 4 (sample_stat 0 0)"

definition sample_kernel :: kernel where
  "sample_kernel = \<lparr>k_euid = 1000, k_reply = (\<lambda>h c. sample_answer c)\<rparr>"

definition sample_owned :: owned_path where
  "sample_owned =
     \<lparr>ow_public_path = ''/proxy.pid'', ow_identity = \<lparr>id_device = 1, id_inode = 7\<rparr>, ow_active = True,
      ow_directory = 3, ow_directory_path = ''/'', ow_public_name = ''proxy.pid'',
      ow_boundary = \<lparr>canonical_path = ''/'', components =
        [\<lparr>bc_identity = \<lparr>id_device = 1, id_inode = 3\<rparr>, bc_name = None, bc_owner = 1000, bc_authority = 0\<rparr>]\<rparr>\<rparr>"


end
