(* ===== verification/Boundary_Safety.thy ===== *)
theory Boundary_Safety
  imports Path_Safety
begin

text \<open>
  What the authentication of a directory establishes, for every behaviour of the kernel: each
  component of an accepted boundary was seen to be a directory that only its owner, the process or
  the superuser, can rename entries in.
\<close>

section \<open>Evidence in a record of calls\<close>

definition seen_authority :: "u32 \<Rightarrow> nat \<Rightarrow> boundary_authority \<Rightarrow> history \<Rightarrow> bool" where
  "seen_authority euid d a t \<longleftrightarrow>
     list_ex (\<lambda>(c, r). c = FStat d \<and> rep_error r = None \<and> is_directory (stat_mode (rep_stat r))
         \<and> boundary_mode_is_safe (stat_mode (rep_stat r)) (stat_uid (rep_stat r)) euid
         \<and> ba_owner a = stat_uid (rep_stat r)
         \<and> ba_authority a = stat_mode (rep_stat r) AND (S_ISVTX OR OTHERS_WRITE)) t
     \<and> list_all (\<lambda>name. list_ex (\<lambda>(c, r). c = GetXattr d name \<and> rep_error r = Some ENODATA) t) acl_names"

definition seen_identity :: "nat \<Rightarrow> file_identity \<Rightarrow> history \<Rightarrow> bool" where
  "seen_identity d i t \<longleftrightarrow>
     list_ex (\<lambda>(c, r). c = FStat d \<and> rep_error r = None \<and> stat_identity (rep_stat r) = i) t"

definition vetted :: "u32 \<Rightarrow> nat \<Rightarrow> boundary_component \<Rightarrow> history \<Rightarrow> bool" where
  "vetted euid d c t \<longleftrightarrow>
     seen_authority euid d \<lparr>ba_owner = bc_owner c, ba_authority = bc_authority c\<rparr> t
     \<and> seen_identity d (bc_identity c) t"

definition all_vetted :: "u32 \<Rightarrow> boundary_component list \<Rightarrow> history \<Rightarrow> bool" where
  "all_vetted euid cs t \<longleftrightarrow> (\<forall>c \<in> set cs. \<exists>d. vetted euid d c t)"

definition named_after :: "path \<Rightarrow> boundary_component list \<Rightarrow> bool" where
  "named_after p cs \<longleftrightarrow> map bc_name cs = None # map Some (normal_components (path_components p))"

text \<open>The calls that change the file system, oldest last.\<close>

definition changes :: "history \<Rightarrow> syscall list" where
  "changes t = filter (\<lambda>c. \<not> looks_only c) (map fst t)"

lemma seen_authority_mono: "seen_authority u d a t \<Longrightarrow> seen_authority u d a (e # t)"
  by (auto simp: seen_authority_def list_all_iff)

lemma seen_identity_mono: "seen_identity d i t \<Longrightarrow> seen_identity d i (e # t)"
  by (simp add: seen_identity_def)

lemma vetted_mono: "vetted u d c t \<Longrightarrow> vetted u d c (e # t)"
  by (simp add: vetted_def seen_authority_mono seen_identity_mono)

lemma all_vetted_mono: "all_vetted u cs t \<Longrightarrow> all_vetted u cs (e # t)"
  by (auto simp: all_vetted_def intro: vetted_mono)

section \<open>Successful computations\<close>

lemma io_bind_Ok:
  "io_bind m f K h = (Ok b, h'') \<longleftrightarrow> (\<exists>a h'. m K h = (Ok a, h') \<and> f a K h' = (Ok b, h''))"
  by (auto simp: io_bind_def io_case_def io_fail_def split: prod.splits result.splits)

lemma sys_Ok: "sys c K h = (Ok r, h') \<longleftrightarrow> r = k_reply K h c \<and> rep_error r = None \<and> h' = (c, r) # h"
  by (auto simp: sys_def Let_def split: option.splits)

lemma sys_Err: "sys c K h = (Err e, h') \<longleftrightarrow>
    (\<exists>n. rep_error (k_reply K h c) = Some n \<and> e = OsError n) \<and> h' = (c, k_reply K h c) # h"
  by (auto simp: sys_def Let_def split: option.splits)

lemma check_Ok: "io_check b s K h = (Ok x, h') \<longleftrightarrow> b \<and> h' = h"
  by (auto simp: io_check_def io_return_def io_fail_def)

lemma return_Ok: "io_return a K h = (Ok b, h') \<longleftrightarrow> b = a \<and> h' = h"
  by (auto simp: io_return_def)

lemmas ok_rules = io_bind_Ok sys_Ok check_Ok return_Ok io_euid_def Let_def

lemma quiet_changes: "quiet_io m \<Longrightarrow> m K h = (r, h') \<Longrightarrow> \<exists>t. h' = t @ h \<and> changes t = []"
proof -
  assume m: "quiet_io m" "m K h = (r, h')"
  have "stable (\<lambda>t. changes t = [])" by (simp add: stable_def changes_def)
  from holdsD[OF quiet_ioD[OF m(1) this] _ m(2)] show ?thesis by (simp add: changes_def)
qed

lemma acl_Ok:
  "acl_loop d names K h = (Ok x, h') \<Longrightarrow> \<exists>t. h' = t @ h \<and> changes t = []
     \<and> list_all (\<lambda>name. list_ex (\<lambda>(c, r). c = GetXattr d name \<and> rep_error r = Some ENODATA) t) names"
proof (induction names arbitrary: h)
  case Nil
  then show ?case by (simp add: return_Ok changes_def)
next
  case (Cons name names)
  let ?r = "k_reply K h (GetXattr d name)"
  have "rep_error ?r = Some ENODATA \<and> acl_loop d names K ((GetXattr d name, ?r) # h) = (Ok x, h')"
    using Cons.prems
    by (auto simp: io_case_def sys_def Let_def io_fail_def posix_acl_xattr_error_is_definitively_absent_def
        split: option.splits if_splits)
  then obtain t where "rep_error ?r = Some ENODATA" "h' = t @ (GetXattr d name, ?r) # h" "changes t = []"
    "list_all (\<lambda>name. list_ex (\<lambda>(c, r). c = GetXattr d name \<and> rep_error r = Some ENODATA) t) names"
    using Cons.IH by blast
  then show ?case
    by (intro exI[of _ "t @ [(GetXattr d name, ?r)]"]) (auto simp: changes_def list_all_iff)
qed

lemma authority_Ok:
  assumes "authenticate_boundary_directory d K h = (Ok a, h')"
  shows "\<exists>t. h' = t @ h \<and> changes t = [] \<and> seen_authority (k_euid K) d a t"
proof -
  let ?r = "k_reply K h (FStat d)"
  obtain x where r: "rep_error ?r = None" "is_directory (stat_mode (rep_stat ?r))"
      "boundary_mode_is_safe (stat_mode (rep_stat ?r)) (stat_uid (rep_stat ?r)) (k_euid K)"
      "ba_owner a = stat_uid (rep_stat ?r)"
      "ba_authority a = stat_mode (rep_stat ?r) AND (S_ISVTX OR OTHERS_WRITE)"
    and acl: "acl_loop d acl_names K ((FStat d, ?r) # h) = (Ok x, h')"
    using assms by (auto simp: authenticate_boundary_directory_def authenticate_directory_acl_def ok_rules)
  from acl_Ok[OF acl] r show ?thesis
    by (fastforce simp: seen_authority_def list_all_iff changes_def)
qed

lemma from_file_Ok:
  "from_file d K h = (Ok i, h') \<Longrightarrow> \<exists>t. h' = t @ h \<and> changes t = [] \<and> seen_identity d i t"
  by (auto simp: from_file_def ok_rules changes_def seen_identity_def)

lemma seen_append:
  "seen_authority u d a t \<Longrightarrow> seen_authority u d a (t' @ t)"
  "seen_identity d i t \<Longrightarrow> seen_identity d i (t' @ t)"
  "all_vetted u cs t \<Longrightarrow> all_vetted u cs (t' @ t)"
  by (induction t') (auto intro: seen_authority_mono seen_identity_mono all_vetted_mono)

lemma seen_earlier:
  "seen_authority u d a t' \<Longrightarrow> seen_authority u d a (t' @ t)"
  "seen_identity d i t' \<Longrightarrow> seen_identity d i (t' @ t)"
  "all_vetted u cs t' \<Longrightarrow> all_vetted u cs (t' @ t)"
proof -
  show a: "seen_authority u d a t' \<Longrightarrow> seen_authority u d a (t' @ t)" for d a
    by (auto simp: seen_authority_def list_all_iff)
  show i: "seen_identity d i t' \<Longrightarrow> seen_identity d i (t' @ t)" for d i
    by (simp add: seen_identity_def)
  show "all_vetted u cs t' \<Longrightarrow> all_vetted u cs (t' @ t)"
    by (auto simp: all_vetted_def vetted_def intro: a i)
qed

lemma changes_append [simp]: "changes (t' @ t) = changes t' @ changes t"
  by (simp add: changes_def)

section \<open>Captured boundaries\<close>

lemma vet_Ok:
  assumes "authenticate_boundary_directory d K h = (Ok a, h1)" "from_file d K h1 = (Ok i, h2)"
  shows "\<exists>t. h2 = t @ h \<and> changes t = []
    \<and> vetted (k_euid K) d \<lparr>bc_identity = i, bc_name = n, bc_owner = ba_owner a, bc_authority = ba_authority a\<rparr> t"
proof -
  obtain t1 t2 where "h1 = t1 @ h" "changes t1 = []" "seen_authority (k_euid K) d a t1"
      "h2 = t2 @ h1" "changes t2 = []" "seen_identity d i t2"
    using authority_Ok[OF assms(1)] from_file_Ok[OF assms(2)] by blast
  then show ?thesis
    by (cases a, intro exI[of _ "t2 @ t1"]) (simp add: vetted_def seen_append seen_earlier)
qed

lemma capture_loop_Ok:
  assumes "capture_loop d cs names K h = (Ok (d', cs'), h')"
  shows "\<exists>t new. h' = t @ h \<and> changes t = [] \<and> cs' = cs @ new \<and> map bc_name new = map Some names
    \<and> all_vetted (k_euid K) new t \<and> (if new = [] then d' = d else vetted (k_euid K) d' (last new) t)"
  using assms
proof (induction names arbitrary: d cs h)
  case Nil
  then show ?case by (simp add: return_Ok changes_def all_vetted_def)
next
  case (Cons name names)
  obtain child a i x h1 h2 h3 h4 where steps:
      "open_directory_at d name K h = (Ok child, h1)"
      "authenticate_boundary_directory child K h1 = (Ok a, h2)" "from_file child K h2 = (Ok i, h3)"
      "authenticate_child_identity d name i K h3 = (Ok x, h4)"
    and rest: "capture_loop child (cs @ [\<lparr>bc_identity = i, bc_name = Some name, bc_owner = ba_owner a,
        bc_authority = ba_authority a\<rparr>]) names K h4 = (Ok (d', cs'), h')"
    using Cons.prems by (auto simp: io_bind_Ok)
  let ?c = "\<lparr>bc_identity = i, bc_name = Some name, bc_owner = ba_owner a, bc_authority = ba_authority a\<rparr>"
  obtain t1 t2 t3 where t: "h1 = t1 @ h" "changes t1 = []" "h3 = t2 @ h1" "changes t2 = []"
      "vetted (k_euid K) child ?c t2" "h4 = t3 @ h3" "changes t3 = []"
    using quiet_changes[OF quiet_looking(3) steps(1)] vet_Ok[OF steps(2,3), of "Some name"]
      quiet_changes[OF quiet_looking(8) steps(4)] by blast
  obtain t4 new where "h' = t4 @ h4" "changes t4 = []" "cs' = (cs @ [?c]) @ new" "map bc_name new = map Some names"
      "all_vetted (k_euid K) new t4" "if new = [] then d' = child else vetted (k_euid K) d' (last new) t4"
    using Cons.IH[OF rest] by blast
  with t show ?case
    by (intro exI[of _ "t4 @ t3 @ t2 @ t1"] exI[of _ "?c # new"])
      (auto simp: all_vetted_def vetted_def intro: seen_append seen_earlier)
qed

lemma boundary_capture_Ok:
  assumes "boundary_capture p K h = (Ok (b, d), h')"
  shows "\<exists>t. h' = t @ h \<and> changes t = [] \<and> named_after (canonical_path b) (components b)
    \<and> all_vetted (k_euid K) (components b) t \<and> vetted (k_euid K) d (last (components b)) t"
proof -
  let ?rep = "k_reply K h (Canonicalize p)"
  let ?h1 = "(Canonicalize p, ?rep) # h"
  obtain root a i h2 h3 h4 where steps: "open_directory ''/'' K ?h1 = (Ok root, h2)"
      "authenticate_boundary_directory root K h2 = (Ok a, h3)" "from_file root K h3 = (Ok i, h4)"
    and loop: "capture_loop root [\<lparr>bc_identity = i, bc_name = None, bc_owner = ba_owner a,
        bc_authority = ba_authority a\<rparr>] (normal_components (path_components (rep_path ?rep))) K h4
        = (Ok (d, components b), h')"
    and b: "canonical_path b = rep_path ?rep"
    using assms by (auto simp: boundary_capture_def ok_rules)
  let ?c = "\<lparr>bc_identity = i, bc_name = None, bc_owner = ba_owner a, bc_authority = ba_authority a\<rparr>"
  obtain t1 t2 where t: "h2 = t1 @ ?h1" "changes t1 = []" "h4 = t2 @ h2" "changes t2 = []"
      "vetted (k_euid K) root ?c t2"
    using quiet_changes[OF quiet_looking(2) steps(1)] vet_Ok[OF steps(2,3), of None] by blast
  obtain t3 new where l: "h' = t3 @ h4" "changes t3 = []" "components b = [?c] @ new"
      "map bc_name new = map Some (normal_components (path_components (rep_path ?rep)))"
      "all_vetted (k_euid K) new t3" "if new = [] then d = root else vetted (k_euid K) d (last new) t3"
    using capture_loop_Ok[OF loop] by blast
  show ?thesis
    using t l b
    by (intro exI[of _ "t3 @ t2 @ t1 @ [(Canonicalize p, ?rep)]"])
      (auto simp: all_vetted_def vetted_def named_after_def changes_def intro: seen_append seen_earlier)
qed

lemma quiet_capture_loop [quiet_intros]: "quiet_io (capture_loop d cs names)"
  by (induction d cs names rule: capture_loop.induct) (auto intro!: quiet_intros)

lemma quiet_prefix_loop [quiet_intros]: "quiet_io (prefix_loop n d cs)"
  by (induction n d cs rule: prefix_loop.induct) (auto intro!: quiet_intros split: option.split)

lemma quiet_boundary [quiet_intros]:
  "quiet_io (boundary_capture p)" "quiet_io (authenticate_prefix b n)" "quiet_io (boundary_authenticate b)"
  "quiet_io (authenticate_ancestors b)" "quiet_io (authenticate_retained_with_ancestors b d)"
  unfolding boundary_capture_def authenticate_prefix_def boundary_authenticate_def authenticate_ancestors_def
    authenticate_retained_with_ancestors_def
  by (auto intro!: quiet_intros split: prod.split)

section \<open>Creating a file\<close>

lemma create_new_file_Ok:
  assumes "create_new_file p K h = (Ok (fd, ow), h')"
  shows "path_file_name p = Some (ow_public_name ow) \<and> ow_active ow
    \<and> (\<exists>t1 t2 rep. h' = t2 @ (CreateAt (ow_directory ow) (ow_public_name ow), rep) # t1 @ h
         \<and> rep_error rep = None \<and> rep_fd rep = fd \<and> changes t1 = [] \<and> changes t2 = []
         \<and> named_after (canonical_path (ow_boundary ow)) (components (ow_boundary ow))
         \<and> all_vetted (k_euid K) (components (ow_boundary ow)) t1
         \<and> vetted (k_euid K) (ow_directory ow) (last (components (ow_boundary ow))) t1
         \<and> seen_identity fd (ow_identity ow) t2)"
proof -
  obtain n b d y h1 h2 i where n: "path_file_name p = Some n"
    and cap: "boundary_capture (parent_or_dot p) K h = (Ok (b, d), h1)"
    and auth: "authenticate_retained_with_ancestors b d K h1 = (Ok y, h2)"
    and create: "rep_error (k_reply K h2 (CreateAt d n)) = None" "fd = rep_fd (k_reply K h2 (CreateAt d n))"
    and opened: "from_file fd K ((CreateAt d n, k_reply K h2 (CreateAt d n)) # h2) = (Ok i, h')"
    and ow: "ow = \<lparr>ow_public_path = p, ow_identity = i, ow_active = True, ow_directory = d,
        ow_directory_path = canonical_path b, ow_public_name = n, ow_boundary = b\<rparr>"
    using assms by (auto simp: create_new_file_def ok_rules io_fail_def split: option.splits)
  obtain t1 where t1: "h1 = t1 @ h" "changes t1 = []" "named_after (canonical_path b) (components b)"
      "all_vetted (k_euid K) (components b) t1" "vetted (k_euid K) d (last (components b)) t1"
    using boundary_capture_Ok[OF cap] by blast
  obtain t2 where t2: "h2 = t2 @ h1" "changes t2 = []" using quiet_changes[OF quiet_boundary(5) auth] by blast
  obtain t3 where t3: "h' = t3 @ (CreateAt d n, k_reply K h2 (CreateAt d n)) # h2" "changes t3 = []"
      "seen_identity fd i t3"
    using from_file_Ok[OF opened] by blast
  show ?thesis
    using n ow create t1 t2 t3
    by (intro conjI, simp, simp, rule_tac x = "t2 @ t1" in exI, rule_tac x = t3 in exI)
      (auto simp: vetted_def intro: seen_append)
qed

lemma create_new_file_calls:
  "holds K h (\<lambda>t. t = []) (create_new_file p)
     (\<lambda>_ t. changes t = [] \<or> (\<exists>d n. path_file_name p = Some n \<and> changes t = [CreateAt d n]))"
proof (cases "path_file_name p")
  case None
  then show ?thesis by (auto simp: create_new_file_def changes_def intro: holds_fail)
next
  case (Some n)
  have st: "stable (\<lambda>t. changes t = cs)" for cs by (simp add: stable_def changes_def)
  have made: "holds K h (\<lambda>t. changes t = []) (sys (CreateAt d n)) (\<lambda>_ t. changes t = [CreateAt d n])" for d
    by (rule holds_sys) (auto simp: changes_def)
  have known: "holds K h (\<lambda>t. changes t = [CreateAt d n]) (io_bind (from_file fd) (\<lambda>i. io_return (g i)))
      (\<lambda>_ t. changes t = [CreateAt d n])" for d fd and g :: "file_identity \<Rightarrow> nat \<times> owned_path"
    by (rule quiet_ioD[OF _ st]) (intro quiet_intros)
  have "holds K h (\<lambda>t. changes t = []) (create_new_file p)
      (\<lambda>_ t. changes t = [] \<or> (\<exists>d. changes t = [CreateAt d n]))"
    unfolding create_new_file_def Some option.case
    by (rule holds_seq[OF quiet_ioD[OF quiet_boundary(1) st]], simp add: split_beta,
        rule holds_seq[OF quiet_ioD[OF quiet_boundary(5) st]],
        rule holds_bind[OF made holds_post[OF known]]) auto
  then show ?thesis by (rule holds_post[OF holds_pre]) (use Some in \<open>auto simp: changes_def\<close>)
qed


definition created_safely :: "path \<Rightarrow> kernel \<Rightarrow> history \<Rightarrow> bool" where
  "created_safely p K h \<longleftrightarrow> (case create_new_file p K h of (Ok _, _) \<Rightarrow> True | _ \<Rightarrow> False)"


end
