(* ===== verification/Public_Service.thy ===== *)
theory Public_Service
  imports Listeners Boundary_Safety
begin

text \<open>
  The public listener of \<open>src/src/api_server.rs\<close>: its pre-bound socket is handed to the server
  framework by number, the framework's service is polled once or twice before the service counts as
  ready, and every way out closes, cleans up and reports. The framework's service future and the flag
  that asks for shutdown are answered like kernel calls: a poll answers zero while it is pending, one
  when it ended, and another number when it panicked.
\<close>

section \<open>The descriptor between two owners\<close>

record raw_fd_handoff_guard =
  hg_fd :: nat
  hg_identity :: file_identity
  hg_socket_address :: "string option"
  hg_armed :: bool

definition socket_address_identity :: "nat \<Rightarrow> string option io" where
  "socket_address_identity fd =
     io_case (sys (SocketName fd)) (\<lambda>r.
       case r of
         Ok r \<Rightarrow> io_return (Some (rep_bytes r))
       | Err e \<Rightarrow> if e = OsError ENOTSOCK then io_return None else io_fail e)"

definition handoff_new :: "nat \<Rightarrow> raw_fd_handoff_guard io" where
  "handoff_new fd =
     io_bind (sys (FStat fd)) (\<lambda>r.
     io_bind (socket_address_identity fd) (\<lambda>address.
       io_return \<lparr>hg_fd = fd, hg_identity = stat_identity (rep_stat r), hg_socket_address = address, hg_armed = False\<rparr>))"

definition handoff_arm :: "raw_fd_handoff_guard \<Rightarrow> raw_fd_handoff_guard" where
  "handoff_arm g = g\<lparr>hg_armed := True\<rparr>"

definition handoff_disarm :: "raw_fd_handoff_guard \<Rightarrow> raw_fd_handoff_guard" where
  "handoff_disarm g = g\<lparr>hg_armed := False\<rparr>"

definition handoff_drop :: "raw_fd_handoff_guard \<Rightarrow> unit io" where
  "handoff_drop g =
     (if \<not> hg_armed g then io_return ()
      else
        io_case (sys (FStat (hg_fd g))) (\<lambda>found.
          case found of
            Err _ \<Rightarrow> io_return ()
          | Ok r \<Rightarrow>
              if stat_identity (rep_stat r) \<noteq> hg_identity g then io_return ()
              else
                io_case (socket_address_identity (hg_fd g)) (\<lambda>address.
                  if address = Ok (hg_socket_address g)
                  then io_bind (ask (CloseDescriptor (hg_fd g))) (\<lambda>_. io_return ())
                  else io_return ())))"

section \<open>Running the service\<close>

datatype public_service_outcome = FailedBeforeReady | PanickedAfterReady | Exited

text \<open>Both polls that may happen before readiness; the result of the service when it already ended.\<close>

definition first_poll ::
  "raw_fd_handoff_guard option \<Rightarrow> (nat option \<times> raw_fd_handoff_guard option) io" where
  "first_poll handoff =
     io_bind (ask PollService) (\<lambda>p.
       if rep_fd p \<noteq> 0 then io_return (Some (rep_fd p), handoff)
       else
         (case handoff of
            None \<Rightarrow> io_return (None, None)
          | Some guard \<Rightarrow>
              io_bind (ask ReleaseAdoptionLock) (\<lambda>_.
              io_bind (ask PollService) (\<lambda>p.
                io_return (if rep_fd p = 0 then None else Some (rep_fd p), Some (handoff_disarm guard))))))"

definition service_finish :: "unit io" where
  "service_finish = io_bind (ask DropService) (\<lambda>_. io_bind (ask StopRelay) (\<lambda>_. io_return ()))"

definition failed_before_ready ::
  "raw_fd_handoff_guard option \<Rightarrow> (public_service_outcome \<times> raw_fd_handoff_guard option) io" where
  "failed_before_ready handoff =
     io_bind service_finish (\<lambda>_.
     io_bind (ask ForgetNotifier) (\<lambda>_. io_return (FailedBeforeReady, handoff)))"

definition run_public_service_future ::
  "raw_fd_handoff_guard option \<Rightarrow> bool io \<Rightarrow> (public_service_outcome \<times> raw_fd_handoff_guard option) io" where
  "run_public_service_future handoff verify_ready =
     at_exit
       (io_bind (first_poll handoff) (\<lambda>(ended, handoff).
          if ended \<noteq> None then failed_before_ready handoff
          else
            io_case verify_ready (\<lambda>verified.
              if verified \<noteq> Ok True then failed_before_ready handoff
              else
                io_bind (ask NotifyReady) (\<lambda>_.
                io_bind (ask AwaitService) (\<lambda>p.
                io_bind service_finish (\<lambda>_.
                  io_return (if rep_fd p = 1 then Exited else PanickedAfterReady, handoff)))))))
       (io_bind (ask AcknowledgeStopped) (\<lambda>_. io_return ()))"

section \<open>Starting the service\<close>

datatype public_listener_reservation = TcpReserved nat string | UnixReserved owned_path nat

fun reservation_owner :: "public_listener_reservation \<Rightarrow> owned_path option" where
  "reservation_owner (TcpReserved socket key) = None"
| "reservation_owner (UnixReserved ow socket) = Some ow"

definition cleanup_drop :: "owned_path option \<Rightarrow> unit io" where
  "cleanup_drop owner = (case owner of None \<Rightarrow> io_return () | Some ow \<Rightarrow> owner_drop ow)"

definition signal_startup_failure :: "unit io" where
  "signal_startup_failure = io_bind (ask SignalStartupFailure) (\<lambda>_. io_return ())"

definition into_parts :: "public_listener_reservation \<Rightarrow> (string \<times> nat \<times> owned_path option) io" where
  "into_parts reservation =
     (case reservation of
        TcpReserved socket key \<Rightarrow> io_return (key, socket, None)
      | UnixReserved ow socket \<Rightarrow>
          on_error
            (io_bind (stable_entry_path ow) (\<lambda>p.
               if utf8_valid p then io_bind (ask (AddListener p)) (\<lambda>_. io_return (p, socket, Some ow))
               else io_fail (IoError InvalidInput ''Unix socket path is not UTF-8'')))
            (owner_drop ow))"

definition drop_public_listener_resources :: "owned_path option \<Rightarrow> raw_fd_handoff_guard \<Rightarrow> unit io" where
  "drop_public_listener_resources owner handoff =
     io_bind (cleanup_drop owner) (\<lambda>_. handoff_drop handoff)"

definition serve_reserved :: "string \<Rightarrow> nat \<Rightarrow> owned_path option \<Rightarrow> raw_fd_handoff_guard \<Rightarrow> unit io" where
  "serve_reserved key fd owner handoff =
     io_bind (ask (RegisterDescriptor key fd)) (\<lambda>_.
     io_bind (run_public_service_future (Some (handoff_arm handoff))
                (case owner of Some ow \<Rightarrow> configured_entry_matches ow | None \<Rightarrow> io_return True))
       (\<lambda>(outcome, returned).
     case returned of
       None \<Rightarrow> io_fail (Panicking ''public handoff guard is returned'')
     | Some handoff \<Rightarrow>
         io_bind (ask ShutdownRequested) (\<lambda>s.
         io_bind (if outcome \<noteq> Exited \<or> rep_fd s = 0 then signal_startup_failure else io_return ()) (\<lambda>_.
           drop_public_listener_resources owner handoff))))"

text \<open>
  \<open>start_service\<close>: without the framework's table or without a reservation, on a failed resolution of
  the address or identity of the descriptor, the failure is signalled and everything taken is dropped.
\<close>

definition start_service :: "bool \<Rightarrow> public_listener_reservation option \<Rightarrow> unit io" where
  "start_service fds reservation =
     at_exit
       (if \<not> fds \<or> reservation = None then
          io_bind signal_startup_failure (\<lambda>_.
          io_bind (cleanup_drop (Option.bind reservation reservation_owner)) (\<lambda>_.
          io_bind (ask ForgetNotifier) (\<lambda>_. io_return ())))
        else
          io_case (into_parts (the reservation)) (\<lambda>parts.
            case parts of
              Err _ \<Rightarrow>
                io_bind signal_startup_failure (\<lambda>_. io_bind (ask ForgetNotifier) (\<lambda>_. io_return ()))
            | Ok (key, fd, owner) \<Rightarrow>
                io_case (handoff_new fd) (\<lambda>guarded.
                  case guarded of
                    Err _ \<Rightarrow>
                      io_bind signal_startup_failure (\<lambda>_.
                      io_bind (cleanup_drop owner) (\<lambda>_.
                      io_bind (ask ForgetNotifier) (\<lambda>_. io_return ())))
                  | Ok handoff \<Rightarrow> serve_reserved key fd owner handoff)))
       (io_bind (ask AcknowledgeStopped) (\<lambda>_. io_return ()))"

end
