(* ===== verification/Listeners_Safety.thy ===== *)
theory Listeners_Safety
  imports Listeners Boundary_Safety
begin

text \<open>What a successful publication of a Unix socket has established, for every behaviour of the kernel.\<close>

section \<open>Successful steps\<close>

lemma at_exit_Ok:
  "at_exit m g K h = (Ok a, h') \<longleftrightarrow> (\<exists>h1 r. m K h = (Ok a, h1) \<and> g K h1 = (r, h'))"
  by (auto simp: at_exit_def io_case_def io_lift_def split: prod.splits)

lemma on_error_Ok: "on_error m g K h = (Ok a, h') \<longleftrightarrow> m K h = (Ok a, h')"
  by (auto simp: on_error_def io_case_def io_return_def io_fail_def split: prod.splits result.splits)

lemma statat_Ok:
  "statat d n K h = (Ok st, h') \<longleftrightarrow>
     (\<exists>r. r = k_reply K h (StatAt d n) \<and> rep_error r = None \<and> st = rep_stat r \<and> h' = (StatAt d n, r) # h)"
  by (auto simp: statat_def ok_rules)

definition verified_socket :: "owned_path \<Rightarrow> u32 \<Rightarrow> reply \<Rightarrow> bool" where
  "verified_socket ow mode r \<longleftrightarrow>
     rep_error r = None \<and> stat_identity (rep_stat r) = ow_identity ow
     \<and> stat_mode (rep_stat r) AND S_IFMT = S_IFSOCK \<and> stat_mode (rep_stat r) AND PERMISSIONS = mode"

lemma verify_Ok:
  "verify_owned_socket ow (Some mode) K h = (Ok x, h') \<Longrightarrow>
     \<exists>r. verified_socket ow mode r \<and> h' = (StatAt (ow_directory ow) (ow_public_name ow), r) # h"
  by (auto simp: verify_owned_socket_def ok_rules statat_Ok verified_socket_def stat_identityI)

section \<open>Computations on files\<close>

fun is_service :: "syscall \<Rightarrow> bool" where
  "is_service (Service _) = True"
| "is_service _ = False"

abbreviation on_files :: "'a io \<Rightarrow> bool" where
  "on_files \<equiv> avoids is_service"

lemma on_files_quiet: "quiet_io m \<Longrightarrow> on_files m"
  by (erule avoids_mono) (auto elim: is_service.elims)

lemmas on_files_looking [avoid_intros] = quiet_looking[THEN on_files_quiet] quiet_retained[THEN on_files_quiet]
  quiet_check[THEN on_files_quiet] quiet_boundary[THEN on_files_quiet]

lemma on_files_guards [avoid_intros]:
  "on_files (provisional_guard_drop d b n)" "on_files (namespace_guard_drop d b n i)"
  unfolding provisional_guard_drop_def namespace_guard_drop_def
  by (auto intro!: avoid_intros split: result.split)

lemma on_files_steps [avoid_intros]:
  "on_files (provisional_identity d n)" "on_files (chmodat_portable d n m)" "on_files random_stage_name"
  "on_files random_private_name" "on_files (rename_relative_noreplace d n d' n')"
  unfolding provisional_identity_def chmodat_portable_def random_stage_name_def random_private_name_def
    random_name_def rename_relative_noreplace_def
  by (auto intro!: avoid_intros split: result.split)

lemma on_files_normalize [avoid_intros]: "on_files (normalize_private fault d n i)"
  unfolding normalize_private_def by (intro avoid_intros; simp)

lemma on_files_create [avoid_intros]: "on_files (create_authenticated_private_directory d b n preserve fault)"
  unfolding create_authenticated_private_directory_def
  by (auto intro!: avoid_intros split: result.split)

lemma on_files_stage [avoid_intros]: "on_files (stage_attempts k a fault)"
  by (induction k) (auto intro!: avoid_intros split: result.split prod.split)

lemma on_files_private [avoid_intros]: "on_files (create_private_directory a fault)"
  unfolding create_private_directory_def by (intro avoid_intros)

lemma on_files_quarantine [avoid_intros]: "on_files (quarantine_attempts k ow fault)"
  by (induction k) (auto intro!: avoid_intros split: result.split prod.split)

lemma on_files_cleanup [avoid_intros]: "on_files (cleanup ow fault)" "on_files (owner_drop ow)"
proof -
  show "on_files (cleanup ow fault)" for fault
    unfolding cleanup_def quarantine_entry_def quarantine_matches_def remove_quarantine_def restore_quarantine_def
      remove_private_directory_def Let_def
    by (auto intro!: avoid_intros split: result.split option.split)
  then show "on_files (owner_drop ow)" unfolding owner_drop_def by (intro avoid_intros)
qed

section \<open>Publication\<close>

lemma publish_into_Ok:
  assumes "publish_into ow anchor p n K h = (Ok ow', h')"
  shows "\<exists>t r. h' = (RenameAt (ow_directory ow) (ow_public_name ow) (an_directory anchor) n, r) # t @ h
    \<and> rep_error r = None \<and> changes t = []
    \<and> ow_public_name ow' = n \<and> ow_identity ow' = ow_identity ow \<and> ow_active ow' = ow_active ow
    \<and> ow_boundary ow' = an_boundary anchor"
proof -
  obtain x h1 d h2 where auth: "authenticate_retained_with_ancestors (an_boundary anchor) (an_directory anchor) K h = (Ok x, h1)"
    and dup: "try_clone (an_directory anchor) K h1 = (Ok d, h2)"
    and ren: "rep_error (k_reply K h2 (RenameAt (ow_directory ow) (ow_public_name ow) (an_directory anchor) n)) = None"
      "h' = (RenameAt (ow_directory ow) (ow_public_name ow) (an_directory anchor) n,
             k_reply K h2 (RenameAt (ow_directory ow) (ow_public_name ow) (an_directory anchor) n)) # h2"
    and ow': "ow' = ow\<lparr>ow_directory := d, ow_boundary := an_boundary anchor,
       ow_directory_path := an_directory_path anchor, ow_public_name := n, ow_public_path := p\<rparr>"
    using assms by (auto simp: publish_into_def rename_relative_noreplace_def ok_rules)
  obtain t1 t2 where "h1 = t1 @ h" "changes t1 = []" "h2 = t2 @ h1" "changes t2 = []"
    using quiet_changes[OF quiet_boundary(5) auth] quiet_changes[OF quiet_looking(5) dup] by blast
  then show ?thesis using ren ow' by (intro exI[of _ "t2 @ t1"]) auto
qed

lemma on_files_verify [avoid_intros]: "on_files (verify_owned_socket ow m)"
  unfolding verify_owned_socket_def by (intro avoid_intros; simp)

lemma publish_socket_Ok:
  assumes "publish_socket anchor staging p n socket ow K h = (Ok (s, ow'), h')"
  shows "\<exists>t1 t2 st r. h' = (RenameAt (ow_directory ow) (ow_public_name ow) (an_directory anchor) n, r)
        # t2 @ (StatAt (ow_directory ow) (ow_public_name ow), st) # t1 @ h
    \<and> rep_error r = None \<and> changes t2 = [] \<and> verified_socket ow SOCKET_MODE st
    \<and> ow_public_name ow' = n \<and> ow_identity ow' = ow_identity ow \<and> ow_active ow' = ow_active ow
    \<and> ow_boundary ow' = an_boundary anchor"
proof -
  obtain x h1 h2 where pre: "io_bind (sys (ListenOn socket 1024)) (\<lambda>_. io_bind (sys (SetNonblocking socket)) (\<lambda>_.
        io_bind (from_file (ow_directory ow)) (\<lambda>identity.
        io_bind (io_check (identity = pd_identity staging) ''socket is not owned by the private publication directory'') (\<lambda>_.
        io_bind (verify_owned_socket ow None) (\<lambda>_.
          chmodat_portable (ow_directory ow) (ow_public_name ow) SOCKET_MODE))))) K h = (Ok (), h1)"
    and ver: "verify_owned_socket ow (Some SOCKET_MODE) K h1 = (Ok x, h2)"
    and pub: "publish_into ow anchor p n K h2 = (Ok ow', h')"
    using assms by (auto simp: publish_socket_def prepare_socket_def io_bind_Ok return_Ok)
  have "\<exists>t. h1 = t @ h"
    using pre by (rule avoids_grows[where B = is_service, rotated]) (intro avoid_intros; simp)
  moreover obtain st where "verified_socket ow SOCKET_MODE st"
      "h2 = (StatAt (ow_directory ow) (ow_public_name ow), st) # h1"
    using verify_Ok[OF ver] by blast
  ultimately show ?thesis using publish_into_Ok[OF pub] by auto
qed

lemma own_entry_active:
  "own_entry d n K h = (Ok ow, h') \<Longrightarrow> ow_active ow \<and> ow_public_name ow = n"
  by (auto simp: own_entry_def ok_rules)

lemma on_files_staging [avoid_intros]:
  "on_files (stable_path d)" "on_files (own_entry d n)" "on_files (with_child b n fd i)"
  unfolding stable_path_def own_entry_def with_child_def by (auto intro!: avoid_intros)

lemma bind_staged_Ok:
  assumes "bind_staged anchor staging p n K h = (Ok (s, ow'), h')"
  shows "\<exists>d t1 t2 st r. h' = (RenameAt d STAGED_NAME (an_directory anchor) n, r) # t2 @ (StatAt d STAGED_NAME, st) # t1 @ h
    \<and> rep_error r = None \<and> changes t2 = [] \<and> verified_socket ow' SOCKET_MODE st
    \<and> ow_public_name ow' = n \<and> ow_active ow' \<and> ow_boundary ow' = an_boundary anchor"
proof -
  obtain socket ow h1 h2 sp where
    pre: "io_bind (stable_path staging) (\<lambda>sp. io_bind (sys NewSocket) (\<lambda>r.
       io_bind (sys (SocketAddress (path_join sp STAGED_NAME))) (\<lambda>_.
         sys (BindSocket (rep_fd r) (path_join sp STAGED_NAME))))) K h = (Ok sp, h1)"
    and own: "own_entry staging STAGED_NAME K h1 = (Ok ow, h2)"
    and pub: "publish_socket anchor staging p n socket ow K h2 = (Ok (s, ow'), h')"
    using assms by (auto simp: bind_staged_def io_bind_Ok on_error_Ok Let_def)
  have "\<exists>t. h1 = t @ h"
    using pre by (rule avoids_grows[where B = is_service, rotated]) (intro avoid_intros; simp)
  moreover have "\<exists>t. h2 = t @ h1"
    using own by (rule avoids_grows[where B = is_service, rotated]) (intro avoid_intros; simp)
  ultimately obtain t where "h2 = t @ h" by auto
  then show ?thesis
    using publish_socket_Ok[OF pub] own_entry_active[OF own] by (fastforce simp: verified_socket_def)
qed

lemma drop_changes:
  "holds K h (\<lambda>t. t = []) (private_directory_drop d)
     (\<lambda>_ t. changes t = [] \<or> changes t = [UnlinkAt (pd_parent d) (pd_name d) True])"
proof -
  let ?u = "UnlinkAt (pd_parent d) (pd_name d) True"
  let ?Q = "\<lambda>t. changes t = [] \<or> changes t = [?u]"
  have st: "stable (\<lambda>t. changes t = [])" by (simp add: stable_def changes_def)
  have unlink: "holds K h (\<lambda>t. changes t = []) (io_case (sys ?u) (\<lambda>_. io_return ())) (\<lambda>_. ?Q)"
    by (rule holds_case[OF holds_sys[where Q = "\<lambda>_ t. changes t = [?u]"]])
      (auto simp: changes_def intro: holds_return)
  have look: "holds K h (\<lambda>t. changes t = []) (io_case (statat (pd_parent d) (pd_name d)) (\<lambda>found.
      case found of Ok st \<Rightarrow> if P st then io_case (sys ?u) (\<lambda>_. io_return ()) else io_return () | Err _ \<Rightarrow> io_return ()))
      (\<lambda>_. ?Q)" for P
  proof (rule holds_case[OF quiet_ioD[OF quiet_looking(4) st]], goal_cases)
    case (1 found)
    then show ?case using unlink by (cases found) (auto intro: holds_return)
  qed
  have "holds K h (\<lambda>t. changes t = []) (private_directory_drop d) (\<lambda>_. ?Q)"
  proof (cases "pd_active d")
    case True
    show ?thesis
      unfolding private_directory_drop_def
      using True look by (auto intro!: holds_case[OF quiet_ioD[OF quiet_retained st]] intro: holds_return)
  qed (auto intro: holds_return simp: private_directory_drop_def)
  then show ?thesis by (rule holds_pre) (simp add: changes_def)
qed

lemma anchored_capture_Ok:
  assumes "anchored_capture p K h = (Ok a, h')"
  shows "\<exists>t. h' = t @ h \<and> named_after (canonical_path (an_boundary a)) (components (an_boundary a))
    \<and> all_vetted (k_euid K) (components (an_boundary a)) t
    \<and> vetted (k_euid K) (an_directory a) (last (components (an_boundary a))) t"
  using assms boundary_capture_Ok
  by (fastforce simp: anchored_capture_def io_bind_Ok return_Ok split: prod.splits)


text \<open>A kernel that binds \<open>/run/api.sock\<close>: descriptor 4 is \<open>/run\<close>, descriptor 6 the staging directory.\<close>

fun socket_answer :: "syscall \<Rightarrow> reply" where
  "socket_answer (GetXattr d n) = sample_reply 0 (sample_stat 0 0)\<lparr>rep_error := Some ENODATA\<rparr>"
| "socket_answer (OpenPath p) = sample_reply 3 (sample_stat 0 0)"
| "socket_answer (OpenDirAt d n) = sample_reply (if d = 3 then 4 else 6) (sample_stat 0 0)"
| "socket_answer (Duplicate d) = sample_reply d (sample_stat 0 0)"
| "socket_answer (FStat d) =
     sample_reply 0 (sample_stat 0x41C0 (if d = 3 then 3 else if d = 4 then 9 else 11))"
| "socket_answer (StatAt d n) =
     sample_reply 0 (if d = 3 then sample_stat 0x41C0 9 else if d = 4 then sample_stat 0x41C0 11 else sample_stat 0xC1B0 7)"
| "socket_answer _ = sample_reply 8 (sample_stat 0 0)"

definition socket_kernel :: kernel where
  "socket_kernel = \<lparr>k_euid = 1000, k_reply = (\<lambda>h c. socket_answer c)\<rparr>"

definition bound_ok :: "path \<Rightarrow> kernel \<Rightarrow> bool" where
  "bound_ok p K \<longleftrightarrow> is_ok (fst (bind_unix_socket p K []))"


end
