(* ===== verification/Public_Safety.thy ===== *)
theory Public_Safety
  imports Public_Service Listeners_Safety
begin

text \<open>When the public service reports readiness, and that it always reports how it ended.\<close>

section \<open>Reports in a record of calls\<close>

definition announced :: "history \<Rightarrow> bool" where
  "announced t \<longleftrightarrow> list_ex (\<lambda>(c, r). c = Service NotifyReady) t"

definition signalled :: "history \<Rightarrow> bool" where
  "signalled t \<longleftrightarrow> list_ex (\<lambda>(c, r). c = Service SignalStartupFailure) t"

text \<open>Readiness is announced only when the calls before it satisfy \<open>ok\<close>.\<close>

fun ready_when :: "(history \<Rightarrow> bool) \<Rightarrow> history \<Rightarrow> bool" where
  "ready_when ok [] = True"
| "ready_when ok ((c, r) # t) = ((c = Service NotifyReady \<longrightarrow> ok t) \<and> ready_when ok t)"

text \<open>
  The last call saw the owned object under the public name in a directory that was opened at the place
  the parent of the configured path resolved to.
\<close>

definition reopened_at :: "owned_path \<Rightarrow> nat \<Rightarrow> history \<Rightarrow> bool" where
  "reopened_at ow d t \<longleftrightarrow>
     (\<exists>c o'. (Canonicalize (parent_or_dot (ow_public_path ow)), c) \<in> set t \<and> rep_error c = None
        \<and> (OpenPath (rep_path c), o') \<in> set t \<and> rep_error o' = None \<and> rep_fd o' = d)"

definition reachable :: "owned_path \<Rightarrow> history \<Rightarrow> bool" where
  "reachable ow t \<longleftrightarrow>
     (\<exists>d. reopened_at ow d t
        \<and> map_option stat_identity (last_stat d (ow_public_name ow) t) = Some (ow_identity ow))"

definition usable :: "owned_path option \<Rightarrow> history \<Rightarrow> bool" where
  "usable owner t \<longleftrightarrow> (case owner of None \<Rightarrow> True | Some ow \<Rightarrow> reachable ow t)"

abbreviation unready_io :: "'a io \<Rightarrow> bool" where
  "unready_io \<equiv> avoids (\<lambda>c. c = Service NotifyReady)"

lemma unready_files: "on_files m \<Longrightarrow> unready_io m"
  by (erule avoids_mono) auto

definition lasting :: "(history \<Rightarrow> bool) \<Rightarrow> bool" where
  "lasting F \<longleftrightarrow> (\<forall>t e. F t \<longrightarrow> F (e # t))"

lemma lasting_facts [simp]:
  "lasting announced" "lasting signalled" "lasting (\<lambda>t. True)" "lasting (\<lambda>t. announced t \<or> signalled t)"
  by (auto simp: lasting_def announced_def signalled_def)

lemma unready_keeps:
  "unready_io m \<Longrightarrow> lasting F \<Longrightarrow> holds K h0 (\<lambda>t. ready_when ok t \<and> F t) m (\<lambda>_ t. ready_when ok t \<and> F t)"
  by (erule avoidsD) (auto simp: lasting_def)

section \<open>The parts\<close>

lemma quiet_entry: "quiet_io (directory_identity b)"
  unfolding directory_identity_def by (intro quiet_intros)

lemma unready_socket_address: "unready_io (socket_address_identity fd)"
  unfolding socket_address_identity_def by (auto intro!: avoid_intros split: result.split)

lemma unready_handoff: "unready_io (handoff_new fd)" "unready_io (handoff_drop g)"
  unfolding handoff_new_def handoff_drop_def
  by (auto intro!: avoid_intros unready_socket_address split: result.split)

lemma unready_owner: "unready_io (cleanup_drop owner)"
  unfolding cleanup_drop_def by (auto intro!: avoids_return unready_files on_files_cleanup split: option.split)

lemma quiet_stable_entry: "quiet_io (stable_entry_path ow)"
  unfolding stable_entry_path_def by (intro quiet_intros)

lemma unready_parts: "unready_io (into_parts reservation)"
  unfolding into_parts_def
  by (auto intro!: avoid_intros unready_files[OF on_files_quiet[OF quiet_stable_entry]]
      unready_files[OF on_files_cleanup(2)] split: public_listener_reservation.split)

lemma unready_finish: "unready_io service_finish" "unready_io (failed_before_ready g)"
  "unready_io (first_poll g)" "unready_io signal_startup_failure"
  unfolding failed_before_ready_def service_finish_def first_poll_def signal_startup_failure_def
  by (auto intro!: avoid_intros split: option.split)

lemma reopened_entry_spec:
  assumes "stable I"
  shows "holds K h0 (\<lambda>t. I t \<and> reopened_at ow d t)
      (io_bind (from_file d) (\<lambda>id1. io_bind (directory_identity (ow_boundary ow)) (\<lambda>expected.
         if id1 \<noteq> expected then io_return False
         else io_bind (from_file d) (\<lambda>id2. io_bind (from_file (ow_directory ow)) (\<lambda>id3.
           if id2 \<noteq> id3 then io_return False
           else io_bind (statat d (ow_public_name ow)) (\<lambda>st.
             io_return (id_device (ow_identity ow) = stat_dev st \<and> id_inode (ow_identity ow) = stat_ino st)))))))
      (\<lambda>r t. I t \<and> (r = Ok True \<longrightarrow> reachable ow t))"
proof -
  have st: "stable (\<lambda>t. I t \<and> reopened_at ow d t)"
    using assms by (auto simp: stable_def reopened_at_def)
  have last: "holds K h0 (\<lambda>t. I t \<and> reopened_at ow d t) (io_bind (statat d (ow_public_name ow)) (\<lambda>st.
        io_return (id_device (ow_identity ow) = stat_dev st \<and> id_inode (ow_identity ow) = stat_ino st)))
      (\<lambda>r t. I t \<and> (r = Ok True \<longrightarrow> reachable ow t))"
    by (rule holds_bind[OF statat_spec[OF st]])
      (auto intro!: holds_return simp: reachable_def stat_identity_iff intro: exI[of _ d])
  note step = holds_seq[OF quiet_ioD[OF _ st]]
  show ?thesis
    by (auto intro!: step[OF quiet_looking(1)] step[OF quiet_entry] holds_return last)
qed

lemma entry_matches_spec:
  assumes "stable I"
  shows "holds K h0 I (configured_entry_matches ow) (\<lambda>r t. I t \<and> (r = Ok True \<longrightarrow> reachable ow t))"
proof -
  let ?cs = "Canonicalize (parent_or_dot (ow_public_path ow))"
  have canon: "holds K h0 I (sys ?cs)
      (\<lambda>r t. I t \<and> (\<forall>c. r = Ok c \<longrightarrow> rep_error c = None \<and> (?cs, c) \<in> set t))"
    using assms by (intro holds_sys) (auto simp: stable_def split: option.split)
  have opened: "holds K h0 (\<lambda>t. I t \<and> rep_error c = None \<and> (?cs, c) \<in> set t) (open_directory (rep_path c))
      (\<lambda>r t. I t \<and> (\<forall>d. r = Ok d \<longrightarrow> reopened_at ow d t))" for c
  proof -
    have "holds K h0 (\<lambda>t. I t \<and> rep_error c = None \<and> (?cs, c) \<in> set t) (sys (OpenPath (rep_path c)))
        (\<lambda>r t. I t \<and> (\<forall>o'. r = Ok o' \<longrightarrow> reopened_at ow (rep_fd o') t))"
      using assms by (intro holds_sys) (auto simp: stable_def reopened_at_def split: option.split)
    then show ?thesis
      unfolding open_directory_def by (rule holds_bind) (auto intro: holds_return)
  qed
  show ?thesis
    unfolding configured_entry_matches_def
    by (rule holds_case[OF quiet_ioD[OF quiet_boundary(3) assms]])
      (auto intro!: holds_return holds_bind[OF canon] holds_bind[OF holds_pre[OF opened]]
        intro: holds_pre[OF reopened_entry_spec[OF assms]])
qed

lemma verify_spec:
  assumes "stable I"
  shows "holds K h0 I (case owner of Some ow \<Rightarrow> configured_entry_matches ow | None \<Rightarrow> io_return True)
    (\<lambda>r t. I t \<and> (r = Ok True \<longrightarrow> usable owner t))"
  using entry_matches_spec[OF assms] by (cases owner) (auto intro: holds_return simp: usable_def)

lemma stable_ready: "lasting F \<Longrightarrow> stable (\<lambda>t. ready_when ok t \<and> F t)"
  by (auto simp: stable_def lasting_def)

section \<open>The whole service\<close>

lemma ask_spec:
  assumes "lasting F" "c \<noteq> NotifyReady"
  shows "holds K h0 (\<lambda>t. ready_when ok t \<and> F t) (ask c) (\<lambda>r t. is_ok r \<and> ready_when ok t \<and> F t)"
  using assms by (intro holds_ask) (auto simp: lasting_def)

lemma ask_then:
  assumes "lasting F" "c \<noteq> NotifyReady" "\<And>rep. holds K h0 (\<lambda>t. ready_when ok t \<and> F t) (f rep) Q"
  shows "holds K h0 (\<lambda>t. ready_when ok t \<and> F t) (io_bind (ask c) f) Q"
  by (rule holds_bind[OF ask_spec[OF assms(1,2)]]) (auto intro: holds_pre[OF assms(3)])

lemma first_poll_spec:
  assumes "lasting F"
  shows "holds K h0 (\<lambda>t. ready_when ok t \<and> F t) (first_poll (Some g))
    (\<lambda>r t. (\<exists>e g'. r = Ok (e, Some g')) \<and> ready_when ok t \<and> F t)"
  unfolding first_poll_def
  by (auto intro!: ask_then[OF assms] holds_return)

lemma finish_spec:
  assumes "lasting F" "\<And>x. holds K h0 (\<lambda>t. ready_when ok t \<and> F t) (f x) Q"
  shows "holds K h0 (\<lambda>t. ready_when ok t \<and> F t) (io_bind service_finish f) Q"
proof -
  have "holds K h0 (\<lambda>t. ready_when ok t \<and> F t) service_finish (\<lambda>r t. is_ok r \<and> ready_when ok t \<and> F t)"
    unfolding service_finish_def by (auto intro!: ask_then[OF assms(1)] holds_return)
  then show ?thesis by (rule holds_bind) (auto intro: holds_pre[OF assms(2)])
qed

definition after_run ::
  "(history \<Rightarrow> bool) \<Rightarrow> (io_error, public_service_outcome \<times> raw_fd_handoff_guard option) result \<Rightarrow> history \<Rightarrow> bool" where
  "after_run ok r t \<longleftrightarrow> ready_when ok t
     \<and> (\<exists>outcome g. r = Ok (outcome, Some g) \<and> (outcome \<noteq> FailedBeforeReady \<longrightarrow> announced t))"

lemma failed_spec:
  "holds K h0 (\<lambda>t. ready_when ok t \<and> True) (failed_before_ready (Some g)) (after_run ok)"
  unfolding failed_before_ready_def
  by (intro finish_spec ask_then) (auto intro: holds_return simp: after_run_def)

lemma announce_spec:
  "holds K h0 (\<lambda>t. ready_when ok t \<and> ok t)
     (io_bind (ask NotifyReady) (\<lambda>_. io_bind (ask AwaitService) (\<lambda>p. io_bind service_finish (\<lambda>_.
        io_return (if rep_fd p = 1 then Exited else PanickedAfterReady, Some g))))) (after_run ok)"
proof (rule holds_bind)
  show "holds K h0 (\<lambda>t. ready_when ok t \<and> ok t) (ask NotifyReady)
      (\<lambda>r t. is_ok r \<and> ready_when ok t \<and> announced t)"
    by (rule holds_ask) (auto simp: announced_def)
next
  fix rep
  have "holds K h0 (\<lambda>t. ready_when ok t \<and> announced t)
      (io_bind (ask AwaitService) (\<lambda>p. io_bind service_finish (\<lambda>_.
         io_return (if rep_fd p = 1 then Exited else PanickedAfterReady, Some g)))) (after_run ok)"
    by (intro ask_then finish_spec) (auto intro: holds_return simp: after_run_def)
  then show "holds K h0 (\<lambda>t. is_ok (Ok rep) \<and> ready_when ok t \<and> announced t)
      (io_bind (ask AwaitService) (\<lambda>p. io_bind service_finish (\<lambda>_.
         io_return (if rep_fd p = 1 then Exited else PanickedAfterReady, Some g)))) (after_run ok)"
    by (rule holds_pre) simp
qed auto

lemma run_spec:
  assumes verify: "\<And>I. stable I \<Longrightarrow> holds K h0 I verify (\<lambda>r t. I t \<and> (r = Ok True \<longrightarrow> ok t))"
  shows "holds K h0 (\<lambda>t. ready_when ok t) (run_public_service_future (Some g) verify) (after_run ok)"
proof -
  have decide: "holds K h0 (\<lambda>t. ready_when ok t \<and> True) (io_case verify (\<lambda>verified.
      if verified \<noteq> Ok True then failed_before_ready (Some g')
      else io_bind (ask NotifyReady) (\<lambda>_. io_bind (ask AwaitService) (\<lambda>p. io_bind service_finish (\<lambda>_.
        io_return (if rep_fd p = 1 then Exited else PanickedAfterReady, Some g')))))) (after_run ok)" for g'
  proof (rule holds_case[OF verify[OF stable_ready]], simp, goal_cases)
    case (1 r)
    show ?case
      using holds_pre[OF failed_spec, of "\<lambda>t. (ready_when ok t \<and> True) \<and> (r = Ok True \<longrightarrow> ok t)"]
        holds_pre[OF announce_spec, of "\<lambda>t. (ready_when ok t \<and> True) \<and> (r = Ok True \<longrightarrow> ok t)" ok]
      by (cases "r = Ok True") simp_all
  qed
  have body: "holds K h0 (\<lambda>t. ready_when ok t \<and> True)
      (io_bind (first_poll (Some g)) (\<lambda>(ended, handoff).
          if ended \<noteq> None then failed_before_ready handoff
          else io_case verify (\<lambda>verified.
              if verified \<noteq> Ok True then failed_before_ready handoff
              else io_bind (ask NotifyReady) (\<lambda>_. io_bind (ask AwaitService) (\<lambda>p. io_bind service_finish (\<lambda>_.
                  io_return (if rep_fd p = 1 then Exited else PanickedAfterReady, handoff))))))) (after_run ok)"
    by (rule holds_bind[OF first_poll_spec])
      (use decide failed_spec[of K h0 ok] in \<open>auto simp: holds_def\<close>)
  have leave: "holds K h0 (after_run ok r) (io_case (io_bind (ask AcknowledgeStopped) (\<lambda>_. io_return ())) (\<lambda>_. io_lift r))
      (after_run ok)" for r
    by (rule holds_case[where R = "\<lambda>_. after_run ok r"], rule holds_bind[where R = "\<lambda>_. after_run ok r"])
      (auto intro!: holds_ask holds_return holds_lift simp: announced_def after_run_def)
  show ?thesis
    unfolding run_public_service_future_def at_exit_def
    by (rule holds_case[OF _ leave]) (rule holds_pre[OF body], simp)
qed

lemma signal_spec:
  assumes "lasting F"
  shows "holds K h0 (\<lambda>t. ready_when ok t \<and> F t) signal_startup_failure
    (\<lambda>r t. is_ok r \<and> ready_when ok t \<and> signalled t \<and> F t)"
  unfolding signal_startup_failure_def
  by (rule holds_bind[where R = "\<lambda>r t. is_ok r \<and> ready_when ok t \<and> signalled t \<and> F t"])
    (use assms in \<open>auto intro!: holds_ask holds_return simp: signalled_def lasting_def\<close>)

abbreviation told :: "owned_path option \<Rightarrow> history \<Rightarrow> bool" where
  "told owner t \<equiv> ready_when (usable owner) t \<and> (announced t \<or> signalled t)"

lemma serve_rest:
  "holds K h0 (\<lambda>t. ready_when (usable owner) t \<and> (outcome \<noteq> FailedBeforeReady \<longrightarrow> announced t))
     (io_bind (ask ShutdownRequested) (\<lambda>s.
        io_bind (if outcome \<noteq> Exited \<or> rep_fd s = 0 then signal_startup_failure else io_return ()) (\<lambda>_.
          drop_public_listener_resources owner g)))
     (\<lambda>_. told owner)"
proof -
  have drop: "holds K h0 (told owner) (drop_public_listener_resources owner g) (\<lambda>_. told owner)"
    unfolding drop_public_listener_resources_def
    by (rule unready_keeps) (auto intro!: avoids_bind unready_owner unready_handoff)
  have report: "holds K h0 (\<lambda>t. ready_when (usable owner) t \<and> (outcome \<noteq> FailedBeforeReady \<longrightarrow> announced t))
      (if outcome \<noteq> Exited \<or> n = 0 then signal_startup_failure else io_return ())
      (\<lambda>r t. is_ok r \<and> told owner t)" for n :: nat
  proof (cases "outcome \<noteq> Exited \<or> n = 0")
    case True
    have "holds K h0 (\<lambda>t. ready_when (usable owner) t \<and> True) signal_startup_failure
        (\<lambda>r t. is_ok r \<and> ready_when (usable owner) t \<and> signalled t \<and> True)"
      by (rule signal_spec) simp
    with True show ?thesis by (simp, elim holds_post[OF holds_pre]) auto
  qed (auto intro: holds_return)
  show ?thesis
    by (rule ask_then, simp add: lasting_def announced_def, simp, rule holds_bind[OF report])
      (auto intro: holds_pre[OF drop])
qed

lemma serve_run:
  "holds K h0 (\<lambda>t. ready_when (usable owner) t)
     (io_bind (run_public_service_future (Some g) (case owner of Some ow \<Rightarrow> configured_entry_matches ow | None \<Rightarrow> io_return True))
        (\<lambda>(outcome, returned). case returned of
           None \<Rightarrow> io_fail (Panicking ''public handoff guard is returned'')
         | Some handoff \<Rightarrow> io_bind (ask ShutdownRequested) (\<lambda>s.
             io_bind (if outcome \<noteq> Exited \<or> rep_fd s = 0 then signal_startup_failure else io_return ()) (\<lambda>_.
               drop_public_listener_resources owner handoff))))
     (\<lambda>_. told owner)"
proof (rule holds_bind[OF run_spec[OF verify_spec]], simp, goal_cases)
  case (1 a)
  obtain outcome returned where a: "a = (outcome, returned)" by (cases a)
  show ?case
  proof (cases returned)
    case None
    then show ?thesis by (simp add: a holds_def after_run_def)
  next
    case (Some g')
    have "holds K h0 (after_run (usable owner) (Ok a)) (io_bind (ask ShutdownRequested) (\<lambda>s.
           io_bind (if outcome \<noteq> Exited \<or> rep_fd s = 0 then signal_startup_failure else io_return ()) (\<lambda>_.
             drop_public_listener_resources owner g'))) (\<lambda>_. told owner)"
      by (rule holds_pre[OF serve_rest]) (auto simp: after_run_def a)
    then show ?thesis by (simp add: a Some)
  qed
qed (auto simp: after_run_def)

lemma serve_spec:
  "holds K h0 (\<lambda>t. ready_when (usable owner) t) (serve_reserved key fd owner g) (\<lambda>_. told owner)"
proof -
  have "holds K h0 (\<lambda>t. ready_when (usable owner) t) (ask (RegisterDescriptor key fd))
      (\<lambda>r t. is_ok r \<and> ready_when (usable owner) t)"
    by (rule holds_ask) auto
  then show ?thesis
    unfolding serve_reserved_def
  proof (rule holds_bind)
    fix rep
    show "holds K h0 (\<lambda>t. is_ok (Ok rep) \<and> ready_when (usable owner) t)
       (io_bind (run_public_service_future (Some (handoff_arm g)) (case owner of Some ow \<Rightarrow> configured_entry_matches ow | None \<Rightarrow> io_return True))
          (\<lambda>(outcome, returned). case returned of
             None \<Rightarrow> io_fail (Panicking ''public handoff guard is returned'')
           | Some handoff \<Rightarrow> io_bind (ask ShutdownRequested) (\<lambda>s.
               io_bind (if outcome \<noteq> Exited \<or> rep_fd s = 0 then signal_startup_failure else io_return ()) (\<lambda>_.
                 drop_public_listener_resources owner handoff)))) (\<lambda>_. told owner)"
      by (rule holds_pre[OF serve_run]) simp
  qed auto
qed

lemma early_spec:
  assumes "unready_io (f ())"
  shows "holds K h0 (\<lambda>t. ready_when ok t) (io_bind signal_startup_failure f)
    (\<lambda>_ t. ready_when ok t \<and> (announced t \<or> signalled t))"
proof (rule holds_bind)
  show "holds K h0 (\<lambda>t. ready_when ok t) signal_startup_failure
      (\<lambda>r t. is_ok r \<and> ready_when ok t \<and> signalled t \<and> True)"
    by (rule holds_pre[OF signal_spec[of "\<lambda>t. True"]]) auto
  fix a
  have "holds K h0 (\<lambda>t. ready_when ok t \<and> signalled t) (f a) (\<lambda>_ t. ready_when ok t \<and> signalled t)"
    using assms by (cases a) (auto intro: unready_keeps)
  then show "holds K h0 (\<lambda>t. is_ok (Ok a) \<and> ready_when ok t \<and> signalled t \<and> True) (f a)
      (\<lambda>_ t. ready_when ok t \<and> (announced t \<or> signalled t))"
    by (rule holds_post[OF holds_pre]) auto
qed auto

lemma parts_owner:
  "into_parts reservation K h = (Ok (key, fd, owner), h') \<Longrightarrow> owner = reservation_owner reservation"
  by (auto simp: into_parts_def on_error_Ok io_bind_Ok return_Ok io_fail_def
      split: public_listener_reservation.splits if_splits)

lemma parts_spec:
  "holds K h0 (\<lambda>t. ready_when ok t) (into_parts reservation)
     (\<lambda>r t. ready_when ok t \<and> (\<forall>key fd owner. r = Ok (key, fd, owner) \<longrightarrow> owner = reservation_owner reservation))"
proof (rule holdsI)
  fix t assume "ready_when ok t"
  then obtain r t' where "into_parts reservation K (t @ h0) = (r, t' @ h0)" "ready_when ok t'"
    using unready_keeps[OF unready_parts[of reservation], of "\<lambda>t. True" K h0 ok] by (auto simp: holds_def)
  then show "\<exists>r t'. into_parts reservation K (t @ h0) = (r, t' @ h0) \<and> ready_when ok t'
      \<and> (\<forall>key fd owner. r = Ok (key, fd, owner) \<longrightarrow> owner = reservation_owner reservation)"
    using parts_owner by blast
qed

lemma handoff_spec: "holds K h0 (\<lambda>t. ready_when ok t) (handoff_new fd) (\<lambda>_ t. ready_when ok t)"
  using unready_keeps[OF unready_handoff(1), of "\<lambda>t. True"] by simp

lemma start_body:
  "\<exists>m. start_service fds reservation = at_exit m (io_bind (ask AcknowledgeStopped) (\<lambda>_. io_return ()))
    \<and> holds K h (\<lambda>t. ready_when (usable (Option.bind reservation reservation_owner)) t) m
        (\<lambda>_ t. ready_when (usable (Option.bind reservation reservation_owner)) t \<and> (announced t \<or> signalled t))"
  unfolding start_service_def
proof (rule exI, rule conjI[OF refl], goal_cases)
  case 1
  let ?ok = "usable (Option.bind reservation reservation_owner)"
  let ?Q = "\<lambda>_ t. ready_when ?ok t \<and> (announced t \<or> signalled t)"
  have forget: "unready_io (io_bind (ask ForgetNotifier) (\<lambda>_. io_return ()))" by (auto intro!: avoid_intros)
  have guarded: "holds K h (\<lambda>t. ready_when (usable owner) t)
      (io_case (handoff_new fd) (\<lambda>guarded. case guarded of
          Err _ \<Rightarrow> io_bind signal_startup_failure (\<lambda>_. io_bind (cleanup_drop owner) (\<lambda>_.
            io_bind (ask ForgetNotifier) (\<lambda>_. io_return ())))
        | Ok handoff \<Rightarrow> serve_reserved key fd owner handoff))
      (\<lambda>_ t. ready_when (usable owner) t \<and> (announced t \<or> signalled t))" for key fd owner
    by (rule holds_case[OF handoff_spec])
      (auto intro!: early_spec avoids_bind unready_owner forget serve_spec split: result.split)
  show ?case
  proof (cases "\<not> fds \<or> reservation = None")
    case True
    then show ?thesis by (auto intro!: early_spec avoids_bind unready_owner forget)
  next
    case False
    then obtain rs where rs: "reservation = Some rs" by auto
    have "holds K h (\<lambda>t. ready_when ?ok t) (io_case (into_parts rs) (\<lambda>parts. case parts of
          Err _ \<Rightarrow> io_bind signal_startup_failure (\<lambda>_. io_bind (ask ForgetNotifier) (\<lambda>_. io_return ()))
        | Ok (key, fd, owner) \<Rightarrow> io_case (handoff_new fd) (\<lambda>guarded. case guarded of
            Err _ \<Rightarrow> io_bind signal_startup_failure (\<lambda>_. io_bind (cleanup_drop owner) (\<lambda>_.
              io_bind (ask ForgetNotifier) (\<lambda>_. io_return ())))
          | Ok handoff \<Rightarrow> serve_reserved key fd owner handoff))) ?Q"
    proof (rule holds_case[OF parts_spec], goal_cases)
      case (1 parts)
      show ?case
      proof (cases parts)
        case (Err e)
        then show ?thesis by (auto intro!: early_spec forget)
      next
        case (Ok p)
        obtain key fd owner where p: "p = (key, fd, owner)" by (cases p)
        show ?thesis using guarded[of owner fd key] rs unfolding Ok p by (auto simp: holds_def)
      qed
    qed
    then show ?thesis using False rs by simp
  qed
qed

text \<open>
  C13. The public service tells the framework that it is ready only when the configured path leads to
  its own socket: directly before every such report the last call saw the owned object under the
  public name in a directory opened where the parent of the configured path resolved to. However the framework, the kernel
  and other processes behave, the service reports readiness or signals a startup failure, and its last
  act is to acknowledge that it accepts nothing more.
\<close>

theorem service_ready_only_when_reachable:
  assumes "start_service fds reservation K h = (r, h')"
  shows "\<exists>t rep. h' = (Service AcknowledgeStopped, rep) # t @ h
    \<and> ready_when (usable (Option.bind reservation reservation_owner)) t
    \<and> (announced t \<or> signalled t)"
proof -
  let ?owner = "Option.bind reservation reservation_owner"
  let ?Q = "\<lambda>_ t. ready_when (usable ?owner) t \<and> (announced t \<or> signalled t)"
  obtain m where m: "start_service fds reservation
      = at_exit m (io_bind (ask AcknowledgeStopped) (\<lambda>_. io_return ()))"
    and body: "holds K h (\<lambda>t. ready_when (usable ?owner) t) m ?Q"
    using start_body by blast
  obtain r1 h1 where run: "m K h = (r1, h1)" by fastforce
  then obtain t where "h1 = t @ h" "?Q r1 t" using holdsD[OF body _ run] by auto
  then show ?thesis
    using assms run by (auto simp: m at_exit_def io_case_def io_bind_def ask_def Let_def io_return_def io_lift_def)
qed

text \<open>A service that starts: the framework's future is pending at both polls and ends normally.\<close>

fun service_answer :: "syscall \<Rightarrow> reply" where
  "service_answer (Service PollService) = sample_reply 0 (sample_stat 0 0)"
| "service_answer (Service AwaitService) = sample_reply 1 (sample_stat 0 0)"
| "service_answer (StatAt d n) = sample_reply 0 (sample_stat 0xC180 7)"
| "service_answer c = sample_answer c"

definition service_kernel :: kernel where
  "service_kernel = \<lparr>k_euid = 1000, k_reply = (\<lambda>h c. service_answer c)\<rparr>"

theorem service_ready_only_when_reachable_witness:
  "(\<exists>t rep. snd (start_service True (Some (UnixReserved sample_owned 6)) service_kernel [])
        = (Service AcknowledgeStopped, rep) # t @ []
      \<and> ready_when (usable (Option.bind (Some (UnixReserved sample_owned 6)) reservation_owner)) t
      \<and> (announced t \<or> signalled t))
   \<and> announced (snd (start_service True (Some (UnixReserved sample_owned 6)) service_kernel []))"
proof
  show "announced (snd (start_service True (Some (UnixReserved sample_owned 6)) service_kernel []))"
    by code_simp
  show "\<exists>t rep. snd (start_service True (Some (UnixReserved sample_owned 6)) service_kernel [])
        = (Service AcknowledgeStopped, rep) # t @ []
      \<and> ready_when (usable (Option.bind (Some (UnixReserved sample_owned 6)) reservation_owner)) t
      \<and> (announced t \<or> signalled t)"
    by (rule service_ready_only_when_reachable[OF prod.collapse[symmetric]])
qed

end
