(* ===== verification/Shutdown.thy ===== *)
theory Shutdown
  imports Listeners Traffic Activity_Writer
begin

text \<open>
  \<open>src/src/shutdown.rs\<close>: the file that holds the process number while the proxy runs, and the
  coordinator that leads the process through its shutdown. The coordinator waits for other parts of
  the proxy, so it is a step relation: the other parts take their own steps, time passes in
  milliseconds, and a timer fires at its deadline at the latest.
\<close>

section \<open>Deadlines\<close>

text \<open>Durations in milliseconds.\<close>

definition TERMINAL_MUTATION_DRAIN_TIMEOUT :: nat where
  "TERMINAL_MUTATION_DRAIN_TIMEOUT = 5000"

definition ACCEPT_STOP_TIMEOUT :: nat where
  "ACCEPT_STOP_TIMEOUT = 1000"

definition ACTIVITY_FLUSH_TIMEOUT :: nat where
  "ACTIVITY_FLUSH_TIMEOUT = 1000"

definition TRAFFIC_DRAIN_TIMEOUT :: nat where
  "TRAFFIC_DRAIN_TIMEOUT = 2000"

definition ORDERED_SHUTDOWN_PHASE_DEADLINES :: "(string \<times> nat) list" where
  "ORDERED_SHUTDOWN_PHASE_DEADLINES =
     [(''management and public accept-stop'', ACCEPT_STOP_TIMEOUT),
      (''terminal mutation drain'', TERMINAL_MUTATION_DRAIN_TIMEOUT),
      (''activity watermark flush'', ACTIVITY_FLUSH_TIMEOUT),
      (''admitted traffic drain'', TRAFFIC_DRAIN_TIMEOUT)]"

definition SHUTDOWN_GRACE_PERIOD_SECONDS :: nat where
  "SHUTDOWN_GRACE_PERIOD_SECONDS =
     ACCEPT_STOP_TIMEOUT div 1000 + TERMINAL_MUTATION_DRAIN_TIMEOUT div 1000
     + ACTIVITY_FLUSH_TIMEOUT div 1000 + TRAFFIC_DRAIN_TIMEOUT div 1000 + 1"

definition RUNTIME_SHUTDOWN_TIMEOUT_SECONDS :: nat where
  "RUNTIME_SHUTDOWN_TIMEOUT_SECONDS = 1"

lemmas shutdown_timeouts =
  TERMINAL_MUTATION_DRAIN_TIMEOUT_def ACCEPT_STOP_TIMEOUT_def ACTIVITY_FLUSH_TIMEOUT_def TRAFFIC_DRAIN_TIMEOUT_def

section \<open>The file of the process number\<close>

datatype pid_file_error = PidCreate io_error | PidWrite io_error

record pid_file_guard =
  pg_owned :: owned_path
  pg_file :: nat

definition pid_guard_drop :: "pid_file_guard \<Rightarrow> unit io" where
  "pid_guard_drop g = owner_drop (pg_owned g)"

text \<open>
  \<open>writeln!\<close> writes the digits and the line end one after the other. A guard whose file could not be
  written is dropped.
\<close>

definition write_pid :: "u32 \<Rightarrow> pid_file_guard \<Rightarrow> pid_file_guard io" where
  "write_pid pid g =
     on_error
       (io_bind (sys (WriteAll (pg_file g) (decimal (unat pid)))) (\<lambda>_.
        io_bind (sys (WriteAll (pg_file g) [CHR 0x0A])) (\<lambda>_.
        io_bind (sys (SyncData (pg_file g))) (\<lambda>_. io_return g))))
       (pid_guard_drop g)"

definition acquire :: "u32 \<Rightarrow> path \<Rightarrow> kernel \<Rightarrow> history \<Rightarrow> (pid_file_error, pid_file_guard) result \<times> history" where
  "acquire pid p K h =
     (case create_new_file p K h of
        (Err e, h) \<Rightarrow> (Err (PidCreate e), h)
      | (Ok (file, owned), h) \<Rightarrow>
          (case write_pid pid \<lparr>pg_owned = owned, pg_file = file\<rparr> K h of
             (Err e, h) \<Rightarrow> (Err (PidWrite e), h)
           | (Ok g, h) \<Rightarrow> (Ok g, h)))"

section \<open>The coordinator\<close>

text \<open>What the coordinator logs; a timeout carries its limit.\<close>

datatype shutdown_log =
    AcceptStopTimedOut nat
  | MutationDrainTimedOut usize nat
  | DetachedMutationFailed mutation_operation
  | DetachedMutationPanicked mutation_operation string
  | DiagnosticsOverflowed usize usize
  | ActivityFlushTimedOut nat
  | TrafficDrainTimedOut nat nat
  | ShutdownCompleted

fun is_timeout :: "shutdown_log \<Rightarrow> bool" where
  "is_timeout (AcceptStopTimedOut _) = True"
| "is_timeout (MutationDrainTimedOut _ _) = True"
| "is_timeout (ActivityFlushTimedOut _) = True"
| "is_timeout (TrafficDrainTimedOut _ _) = True"
| "is_timeout _ = False"

text \<open>Where the coordinator is, with the deadline of the wait it is in.\<close>

datatype shutdown_phase =
    Watching
  | StoppingAccepts nat
  | DrainingMutations nat
  | FlushingActivity nat u64
  | DrainingTraffic nat
  | ShutDown

record shutdown_sys =
  sd_now :: nat
  sd_requested :: nat
  sd_phase :: shutdown_phase
  sd_management :: management
  sd_traffic :: traffic_sys
  sd_tracker :: tracker_state
  sd_pending :: pending_activities
  sd_log :: "shutdown_log list"

definition log_outcome :: "nat \<Rightarrow> drain_outcome \<Rightarrow> shutdown_log list" where
  "log_outcome limit out =
     (if timed_out out then [MutationDrainTimedOut (active_mutations out) limit] else [])
     @ map (\<lambda>f. DetachedMutationFailed (failure_operation f)) (detached_failures out)
     @ map (\<lambda>p. DetachedMutationPanicked (panic_operation p) (panic_text p)) (detached_panics out)
     @ (if dropped_detached_failures out \<noteq> 0 \<or> dropped_detached_panics out \<noteq> 0
        then [DiagnosticsOverflowed (dropped_detached_failures out) (dropped_detached_panics out)] else [])"

definition log_message :: "shutdown_log \<Rightarrow> shutdown_sys \<Rightarrow> shutdown_sys" where
  "log_message m s = s\<lparr>sd_log := sd_log s @ [m]\<rparr>"

text \<open>The drain has returned: its outcome is logged and the flush takes its watermark.\<close>

definition after_drain :: "nat \<Rightarrow> drain_outcome \<times> tracker_state \<Rightarrow> shutdown_sys \<Rightarrow> shutdown_sys" where
  "after_drain limit r s =
     s\<lparr>sd_tracker := snd r, sd_log := sd_log s @ log_outcome limit (fst r),
       sd_phase := FlushingActivity (sd_now s + ACTIVITY_FLUSH_TIMEOUT) (accepted_through (sd_pending s))\<rparr>"

definition start_drain :: "nat \<Rightarrow> shutdown_sys \<Rightarrow> shutdown_sys" where
  "start_drain limit s =
     (case drain_enter (sd_tracker s) of
        (Some out, t) \<Rightarrow> after_drain limit (out, t) s
      | (None, t) \<Rightarrow> s\<lparr>sd_tracker := t, sd_phase := DrainingMutations (sd_now s + limit)\<rparr>)"

definition start_traffic_drain :: "shutdown_sys \<Rightarrow> shutdown_sys" where
  "start_traffic_drain s = s\<lparr>sd_phase := DrainingTraffic (sd_now s + TRAFFIC_DRAIN_TIMEOUT)\<rparr>"

definition complete_shutdown :: "shutdown_sys \<Rightarrow> shutdown_sys" where
  "complete_shutdown s = (log_message ShutdownCompleted s)\<lparr>sd_phase := ShutDown\<rparr>"

inductive coordinator_step :: "nat \<Rightarrow> shutdown_sys \<Rightarrow> shutdown_sys \<Rightarrow> bool" for limit :: nat where
  requested: "sd_phase s = Watching
    \<Longrightarrow> coordinator_step limit s
          (s\<lparr>sd_requested := sd_now s, sd_phase := StoppingAccepts (sd_now s + ACCEPT_STOP_TIMEOUT)\<rparr>)"
| accepts_stopped: "sd_phase s = StoppingAccepts d \<Longrightarrow> mg_accepts_stopped (sd_management s)
    \<Longrightarrow> tr_accepts_stopped (ts_traffic (sd_traffic s)) \<Longrightarrow> coordinator_step limit s (start_drain limit s)"
| accepts_timeout: "sd_phase s = StoppingAccepts d \<Longrightarrow> d \<le> sd_now s
    \<Longrightarrow> coordinator_step limit s (start_drain limit (log_message (AcceptStopTimedOut ACCEPT_STOP_TIMEOUT) s))"
| drained: "sd_phase s = DrainingMutations d \<Longrightarrow> drain_check (sd_tracker s) = (Some out, t)
    \<Longrightarrow> coordinator_step limit s (after_drain limit (out, t) s)"
| drain_timeout: "sd_phase s = DrainingMutations d \<Longrightarrow> d \<le> sd_now s
    \<Longrightarrow> coordinator_step limit s (after_drain limit (drain_deadline (sd_tracker s)) s)"
| flushed: "sd_phase s = FlushingActivity d watermark \<Longrightarrow> watermark_is_complete watermark (sd_pending s)
    \<Longrightarrow> coordinator_step limit s (start_traffic_drain s)"
| flush_timeout: "sd_phase s = FlushingActivity d watermark \<Longrightarrow> d \<le> sd_now s
    \<Longrightarrow> coordinator_step limit s (start_traffic_drain (log_message (ActivityFlushTimedOut ACTIVITY_FLUSH_TIMEOUT) s))"
| traffic_drained: "sd_phase s = DrainingTraffic d \<Longrightarrow> tr_active (ts_traffic (sd_traffic s)) = 0
    \<Longrightarrow> coordinator_step limit s (complete_shutdown s)"
| traffic_timeout: "sd_phase s = DrainingTraffic d \<Longrightarrow> d \<le> sd_now s
    \<Longrightarrow> coordinator_step limit s (complete_shutdown
          (log_message (TrafficDrainTimedOut (tr_active (ts_traffic (sd_traffic s))) TRAFFIC_DRAIN_TIMEOUT) s))"

inductive_cases coordinator_stepE: "coordinator_step limit s s'"

text \<open>
  The rest of the proxy: the management server, requests, mutations, the activity writer. Time passes
  only while the coordinator's current wait has not reached its deadline.
\<close>

fun deadline :: "shutdown_phase \<Rightarrow> nat option" where
  "deadline (StoppingAccepts d) = Some d"
| "deadline (DrainingMutations d) = Some d"
| "deadline (FlushingActivity d _) = Some d"
| "deadline (DrainingTraffic d) = Some d"
| "deadline _ = None"

inductive proxy_step :: "shutdown_sys \<Rightarrow> shutdown_sys \<Rightarrow> bool" where
  tick: "(case deadline (sd_phase s) of Some d \<Rightarrow> sd_now s < d | None \<Rightarrow> True)
    \<Longrightarrow> proxy_step s (s\<lparr>sd_now := Suc (sd_now s)\<rparr>)"
| management_stop: "proxy_step s (s\<lparr>sd_management := request_stop (sd_management s)\<rparr>)"
| management_stopped: "proxy_step s (s\<lparr>sd_management := management_acknowledge (sd_management s)\<rparr>)"
| traffic_moves: "traffic_step (sd_traffic s) t \<Longrightarrow> proxy_step s (s\<lparr>sd_traffic := t\<rparr>)"
| mutation_begins: "proxy_step s (s\<lparr>sd_tracker := snd (tracker_begin (sd_tracker s))\<rparr>)"
| mutation_ends: "active (sd_tracker s) \<noteq> 0
    \<Longrightarrow> proxy_step s (s\<lparr>sd_tracker := tracker_finish failure panic (sd_tracker s)\<rparr>)"
| mutation_panics: "proxy_step s (s\<lparr>sd_tracker := panic_seal (sd_tracker s)\<rparr>)"
| mutation_uncertain: "proxy_step s (s\<lparr>sd_tracker := indeterminate_seal (sd_tracker s)\<rparr>)"
| activity_accepted: "accept_observation capacity k time (sd_pending s) = Accepted n p
    \<Longrightarrow> proxy_step s (s\<lparr>sd_pending := p\<rparr>)"
| activity_taken: "take_ready (sd_pending s) = Taken k time n p \<Longrightarrow> proxy_step s (s\<lparr>sd_pending := p\<rparr>)"
| activity_persisted: "proxy_step s (s\<lparr>sd_pending := complete_persist k (sd_pending s)\<rparr>)"

inductive_cases proxy_stepE: "proxy_step s s'"

inductive shutdown_step :: "nat \<Rightarrow> shutdown_sys \<Rightarrow> shutdown_sys \<Rightarrow> bool" for limit :: nat where
  coordinator: "coordinator_step limit s s' \<Longrightarrow> shutdown_step limit s s'"
| proxy: "proxy_step s s' \<Longrightarrow> shutdown_step limit s s'"

inductive_cases shutdown_stepE: "shutdown_step limit s s'"

end
