(* ===== verification/Shutdown_Safety.thy ===== *)
theory Shutdown_Safety
  imports Shutdown Listeners_Safety
begin

text \<open>The shutdown ends in time and in order; which paths a process-number file may have.\<close>

section \<open>The coordinator keeps its deadlines\<close>

fun stage :: "shutdown_phase \<Rightarrow> nat" where
  "stage Watching = 0"
| "stage (StoppingAccepts _) = 1"
| "stage (DrainingMutations _) = 2"
| "stage (FlushingActivity _ _) = 3"
| "stage (DrainingTraffic _) = 4"
| "stage ShutDown = 5"

fun allowance :: "nat \<Rightarrow> shutdown_phase \<Rightarrow> nat" where
  "allowance limit (StoppingAccepts _) = ACCEPT_STOP_TIMEOUT"
| "allowance limit (DrainingMutations _) = ACCEPT_STOP_TIMEOUT + limit"
| "allowance limit (FlushingActivity _ _) = ACCEPT_STOP_TIMEOUT + limit + ACTIVITY_FLUSH_TIMEOUT"
| "allowance limit (DrainingTraffic _) =
     ACCEPT_STOP_TIMEOUT + limit + ACTIVITY_FLUSH_TIMEOUT + TRAFFIC_DRAIN_TIMEOUT"
| "allowance limit _ = 0"

definition on_time :: "nat \<Rightarrow> shutdown_sys \<Rightarrow> bool" where
  "on_time limit s \<longleftrightarrow>
     (\<forall>d. deadline (sd_phase s) = Some d \<longrightarrow> sd_now s \<le> d \<and> d \<le> sd_requested s + allowance limit (sd_phase s))"

definition sealed_early :: "shutdown_sys \<Rightarrow> bool" where
  "sealed_early s \<longleftrightarrow> (2 \<le> stage (sd_phase s) \<longrightarrow> seal (sd_tracker s) \<noteq> SealOpen)"

definition clean :: "shutdown_sys \<Rightarrow> bool" where
  "clean s \<longleftrightarrow> \<not> list_ex is_timeout (sd_log s)"

definition stopped :: "shutdown_sys \<Rightarrow> bool" where
  "stopped s \<longleftrightarrow> mg_accepts_stopped (sd_management s) \<and> tr_accepts_stopped (ts_traffic (sd_traffic s))"

definition traffic_ok :: "traffic_sys \<Rightarrow> bool" where
  "traffic_ok t \<longleftrightarrow> traffic_inv t \<and> (tr_accepts_stopped (ts_traffic t) \<longrightarrow> \<not> tr_accepting (ts_traffic t))"

definition orderly :: "shutdown_sys \<Rightarrow> bool" where
  "orderly s \<longleftrightarrow>
     (clean s \<longrightarrow> (2 \<le> stage (sd_phase s) \<longrightarrow> stopped s)
        \<and> (3 \<le> stage (sd_phase s) \<longrightarrow> active (sd_tracker s) = 0)
        \<and> (sd_phase s = ShutDown \<longrightarrow> closed_empty (sd_traffic s)))"

definition shutdown_inv :: "nat \<Rightarrow> shutdown_sys \<Rightarrow> bool" where
  "shutdown_inv limit s \<longleftrightarrow> on_time limit s \<and> sealed_early s \<and> traffic_ok (sd_traffic s) \<and> orderly s"

lemmas shutdown_inv_defs = on_time_def sealed_early_def clean_def stopped_def orderly_def

subsection \<open>Traffic\<close>

lemma traffic_ok_step:
  assumes "traffic_step t t'" "traffic_ok t"
  shows "traffic_ok t' \<and> (tr_accepts_stopped (ts_traffic t) \<longrightarrow> tr_accepts_stopped (ts_traffic t'))"
proof -
  have "traffic_inv t'" using assms traffic_run_inv[OF move[OF stay assms(1)]] by (simp add: traffic_ok_def)
  moreover have "(tr_accepts_stopped (ts_traffic t') \<longrightarrow> \<not> tr_accepting (ts_traffic t'))
      \<and> (tr_accepts_stopped (ts_traffic t) \<longrightarrow> tr_accepts_stopped (ts_traffic t'))"
    using assms by (cases rule: traffic_step.cases) (auto simp: traffic_ok_def set_pc_def set_active_def)
  ultimately show ?thesis by (simp add: traffic_ok_def)
qed

lemma empty_closes:
  assumes "traffic_ok t" "tr_accepts_stopped (ts_traffic t)" "tr_active (ts_traffic t) = 0"
  shows "closed_empty t"
proof -
  have "slots t = 0" using assms by (simp add: traffic_ok_def traffic_inv_def)
  then have "Admitted \<notin> set (ts_requests t)" by (auto simp: slots_def filter_empty_conv holds_slot_def)
  then show ?thesis using assms by (simp add: traffic_ok_def closed_empty_def)
qed

subsection \<open>The tracker\<close>

lemma push_seal: "seal (push_diagnostic d s) = seal s" "active (push_diagnostic d s) = active s"
  by (auto simp: push_diagnostic_def Let_def split: list.splits diagnostic.splits)

lemma tracker_finish_seal: "seal (tracker_finish f p s) = seal s"
  by (auto simp: tracker_finish_def Let_def push_seal split: option.splits)

lemma tracker_begin_seal:
  "seal (snd (tracker_begin s)) = seal s"
  "seal s \<noteq> SealOpen \<Longrightarrow> snd (tracker_begin s) = s"
  by (auto simp: tracker_begin_def split: mutation_seal.splits)

lemma drain_facts:
  "seal (snd (take_outcome b s)) = seal s" "active (snd (take_outcome b s)) = active s"
  "timed_out (fst (take_outcome b s)) = b"
  "drain_enter s = (r, s') \<Longrightarrow> seal s' \<noteq> SealOpen"
  "drain_enter s = (Some out, s') \<Longrightarrow> active s' = 0"
  "drain_check s = (Some out, s') \<Longrightarrow> seal s' = seal s \<and> active s' = 0"
  by (auto simp: take_outcome_def drain_enter_def drain_check_def Let_def split: if_splits)

subsection \<open>Steps\<close>

lemma log_outcome_clean: "list_ex is_timeout (log_outcome limit out) = timed_out out"
  by (auto simp: log_outcome_def list_ex_iff)

lemma proxy_step_inv: "proxy_step s s' \<Longrightarrow> shutdown_inv limit s \<Longrightarrow> shutdown_inv limit s'"
proof (erule proxy_stepE, goal_cases)
  case 1
  then show ?case by (auto simp: shutdown_inv_def shutdown_inv_defs split: option.splits)
next
  case (4 t)
  then show ?case
    using traffic_ok_step[of "sd_traffic s" t] closed_empty_step[of "sd_traffic s" t]
    by (auto simp: shutdown_inv_def shutdown_inv_defs)
qed (auto simp: shutdown_inv_def shutdown_inv_defs request_stop_def management_acknowledge_def
    tracker_finish_seal tracker_begin_seal panic_seal_def indeterminate_seal_def)

lemma after_drain_inv:
  assumes "shutdown_inv limit s" "stage (sd_phase s) \<in> {1, 2}" "clean s \<Longrightarrow> stopped s"
    and "seal (snd r) \<noteq> SealOpen" "\<not> timed_out (fst r) \<Longrightarrow> active (snd r) = 0"
  shows "shutdown_inv limit (after_drain limit r s)"
  using assms
  by (cases "sd_phase s") (auto simp: shutdown_inv_def shutdown_inv_defs after_drain_def log_outcome_clean)

lemma start_drain_inv:
  assumes "shutdown_inv limit s" "sd_phase s = StoppingAccepts d" "clean s \<Longrightarrow> stopped s"
  shows "shutdown_inv limit (start_drain limit s)"
proof (cases "drain_enter (sd_tracker s)")
  case (Pair r t)
  show ?thesis
  proof (cases r)
    case None
    then show ?thesis
      using assms Pair drain_facts(4)[OF Pair]
      by (auto simp: start_drain_def shutdown_inv_def shutdown_inv_defs)
  next
    case (Some out)
    then show ?thesis
      using after_drain_inv[OF assms(1) _ assms(3), of "(out, t)"] assms(2) Pair drain_facts(4)[OF Pair]
        drain_facts(5)[of "sd_tracker s" out t]
      by (simp add: start_drain_def)
  qed
qed

lemma log_timeout_inv:
  "shutdown_inv limit s \<Longrightarrow> is_timeout m \<Longrightarrow> shutdown_inv limit (log_message m s) \<and> \<not> clean (log_message m s)"
  by (auto simp: shutdown_inv_def shutdown_inv_defs log_message_def)

lemma start_traffic_inv:
  "shutdown_inv limit s \<Longrightarrow> sd_phase s = FlushingActivity d w \<Longrightarrow> shutdown_inv limit (start_traffic_drain s)"
  by (auto simp: shutdown_inv_def shutdown_inv_defs start_traffic_drain_def)

lemma complete_inv:
  "shutdown_inv limit s \<Longrightarrow> sd_phase s = DrainingTraffic d \<Longrightarrow> (clean s \<Longrightarrow> closed_empty (sd_traffic s))
   \<Longrightarrow> shutdown_inv limit (complete_shutdown s)"
  by (auto simp: shutdown_inv_def shutdown_inv_defs complete_shutdown_def log_message_def)

lemma log_message_phase [simp]: "sd_phase (log_message m s) = sd_phase s"
  by (simp add: log_message_def)

lemma drain_returns_inv:
  assumes "shutdown_inv limit s" "sd_phase s = DrainingMutations d"
    and "seal (snd r) = seal (sd_tracker s)" "\<not> timed_out (fst r) \<Longrightarrow> active (snd r) = 0"
  shows "shutdown_inv limit (after_drain limit r s)"
  using assms by (intro after_drain_inv) (auto simp: shutdown_inv_def sealed_early_def orderly_def)

lemma coordinator_step_inv:
  "coordinator_step limit s s' \<Longrightarrow> shutdown_inv limit s \<Longrightarrow> shutdown_inv limit s'"
proof (erule coordinator_stepE, goal_cases)
  case 1
  then show ?case by (auto simp: shutdown_inv_def shutdown_inv_defs)
next
  case (2 d)
  then show ?case by (auto intro: start_drain_inv simp: stopped_def)
next
  case (3 d)
  then show ?case
    using log_timeout_inv[of limit s "AcceptStopTimedOut ACCEPT_STOP_TIMEOUT"] by (auto intro: start_drain_inv)
next
  case (4 d out t)
  then show ?case
    using drain_returns_inv[of limit s d "(out, t)"] drain_facts(6)[OF 4(4)] by simp
next
  case (5 d)
  then show ?case
    using drain_returns_inv[of limit s d "drain_deadline (sd_tracker s)"] by (simp add: drain_deadline_def drain_facts)
next
  case (6 d w)
  then show ?case by (auto intro: start_traffic_inv)
next
  case (7 d w)
  then show ?case
    using log_timeout_inv[of limit s "ActivityFlushTimedOut ACTIVITY_FLUSH_TIMEOUT"] by (auto intro: start_traffic_inv)
next
  case (8 d)
  have "clean s \<Longrightarrow> closed_empty (sd_traffic s)"
    using 8 by (intro empty_closes) (auto simp: shutdown_inv_def shutdown_inv_defs)
  then show ?case using 8 by (auto intro: complete_inv)
next
  case (9 d)
  then show ?case
    using log_timeout_inv[of limit s "TrafficDrainTimedOut (tr_active (ts_traffic (sd_traffic s))) TRAFFIC_DRAIN_TIMEOUT"]
    by (auto intro: complete_inv)
qed

lemma shutdown_step_inv: "shutdown_step limit s s' \<Longrightarrow> shutdown_inv limit s \<Longrightarrow> shutdown_inv limit s'"
  by (erule shutdown_stepE) (auto intro: coordinator_step_inv proxy_step_inv)

definition shutdown_init :: shutdown_sys where
  "shutdown_init =
     \<lparr>sd_now = 0, sd_requested = 0, sd_phase = Watching, sd_management = management_default,
      sd_traffic = traffic_start, sd_tracker = tracker_default, sd_pending = pending_default, sd_log = []\<rparr>"

lemma shutdown_init_inv: "shutdown_inv limit shutdown_init"
  using traffic_start_inv
  by (simp add: shutdown_init_def shutdown_inv_def shutdown_inv_defs traffic_ok_def traffic_start_def traffic_new_def)

lemma shutdown_reachable_inv: "(shutdown_step limit)\<^sup>*\<^sup>* shutdown_init s \<Longrightarrow> shutdown_inv limit s"
  by (induction rule: rtranclp_induct) (auto intro: shutdown_init_inv shutdown_step_inv)

lemma coordinator_never_stuck:
  assumes "sd_phase s \<noteq> Watching" "sd_phase s \<noteq> ShutDown"
  shows "shutdown_step limit s (s\<lparr>sd_now := Suc (sd_now s)\<rparr>) \<or> (\<exists>s'. coordinator_step limit s s')"
proof (cases "case deadline (sd_phase s) of Some d \<Rightarrow> sd_now s < d | None \<Rightarrow> True")
  case True
  then show ?thesis by (auto intro: shutdown_step.intros proxy_step.intros)
next
  case False
  then have "\<exists>s'. coordinator_step limit s s'"
    using assms coordinator_step.accepts_timeout[of s] coordinator_step.drain_timeout[of s]
      coordinator_step.flush_timeout[of s] coordinator_step.traffic_timeout[of s]
    by (cases "sd_phase s") (auto simp: not_less)
  then show ?thesis ..
qed

lemma grace_contains:
  "allowance TERMINAL_MUTATION_DRAIN_TIMEOUT phase < 1000 * SHUTDOWN_GRACE_PERIOD_SECONDS"
  by (cases phase) (simp_all add: shutdown_timeouts SHUTDOWN_GRACE_PERIOD_SECONDS_def)

text \<open>
  C14. The ordered shutdown fits into the grace period the server framework is given, whatever the
  listeners, requests, mutations and the activity writer do: when that period has passed since the
  request, the coordinator is through with all its phases, and until then it always has a next step. A
  finished shutdown has closed the registry for mutations; and if no phase timed out, both listeners have
  stopped accepting, no mutation is active, and no request is admitted.
\<close>

theorem shutdown_within_grace:
  assumes "(shutdown_step TERMINAL_MUTATION_DRAIN_TIMEOUT)\<^sup>*\<^sup>* shutdown_init s" "sd_phase s \<noteq> Watching"
  shows "(sd_requested s + 1000 * SHUTDOWN_GRACE_PERIOD_SECONDS \<le> sd_now s \<longrightarrow> sd_phase s = ShutDown)
    \<and> (sd_phase s = ShutDown
       \<or> shutdown_step TERMINAL_MUTATION_DRAIN_TIMEOUT s (s\<lparr>sd_now := Suc (sd_now s)\<rparr>)
       \<or> (\<exists>s'. coordinator_step TERMINAL_MUTATION_DRAIN_TIMEOUT s s'))
    \<and> (sd_phase s = ShutDown \<longrightarrow> seal (sd_tracker s) \<noteq> SealOpen
       \<and> (clean s \<longrightarrow> stopped s \<and> active (sd_tracker s) = 0 \<and> closed_empty (sd_traffic s)))"
proof (intro conjI)
  have inv: "shutdown_inv TERMINAL_MUTATION_DRAIN_TIMEOUT s" using shutdown_reachable_inv[OF assms(1)] .
  show "sd_requested s + 1000 * SHUTDOWN_GRACE_PERIOD_SECONDS \<le> sd_now s \<longrightarrow> sd_phase s = ShutDown"
    using inv assms(2) grace_contains[of "sd_phase s"]
    by (cases "sd_phase s") (auto simp: shutdown_inv_def on_time_def)
  show "sd_phase s = ShutDown
      \<or> shutdown_step TERMINAL_MUTATION_DRAIN_TIMEOUT s (s\<lparr>sd_now := Suc (sd_now s)\<rparr>)
      \<or> (\<exists>s'. coordinator_step TERMINAL_MUTATION_DRAIN_TIMEOUT s s')"
    using coordinator_never_stuck assms(2) by blast
  show "sd_phase s = ShutDown \<longrightarrow> seal (sd_tracker s) \<noteq> SealOpen
      \<and> (clean s \<longrightarrow> stopped s \<and> active (sd_tracker s) = 0 \<and> closed_empty (sd_traffic s))"
    using inv by (auto simp: shutdown_inv_def sealed_early_def orderly_def)
qed

text \<open>A shutdown in which nothing has to be waited for.\<close>

definition stopped_traffic :: traffic_sys where
  "stopped_traffic =
     \<lparr>ts_traffic = \<lparr>tr_accepting = False, tr_active = 0, tr_accepts_stopped = True\<rparr>, ts_requests = []\<rparr>"

definition quick_1 :: shutdown_sys where
  "quick_1 = shutdown_init\<lparr>sd_management := management_acknowledge management_default\<rparr>"

definition quick_2 :: shutdown_sys where
  "quick_2 = quick_1\<lparr>sd_traffic := stopped_traffic\<rparr>"

definition quick_3 :: shutdown_sys where
  "quick_3 = quick_2\<lparr>sd_requested := 0, sd_phase := StoppingAccepts ACCEPT_STOP_TIMEOUT\<rparr>"

definition quick_4 :: shutdown_sys where
  "quick_4 = start_drain TERMINAL_MUTATION_DRAIN_TIMEOUT quick_3"

definition quick_5 :: shutdown_sys where
  "quick_5 = complete_shutdown (start_traffic_drain quick_4)"

lemma quick_traffic: "\<exists>t. traffic_step traffic_start t \<and> traffic_step t stopped_traffic"
proof (intro exI conjI)
  show "traffic_step traffic_start (traffic_start\<lparr>ts_traffic := (ts_traffic traffic_start)\<lparr>tr_accepting := False\<rparr>\<rparr>)"
    by (rule traffic_step.stop_accepting)
  show "traffic_step (traffic_start\<lparr>ts_traffic := (ts_traffic traffic_start)\<lparr>tr_accepting := False\<rparr>\<rparr>) stopped_traffic"
    using traffic_step.stop_acknowledged[of "traffic_start\<lparr>ts_traffic := (ts_traffic traffic_start)\<lparr>tr_accepting := False\<rparr>\<rparr>"]
    by (simp add: traffic_start_def traffic_new_def stopped_traffic_def)
qed

lemma quick_stops: "(shutdown_step limit)\<^sup>*\<^sup>* shutdown_init quick_2"
proof -
  obtain t where t: "traffic_step traffic_start t" "traffic_step t stopped_traffic" using quick_traffic by blast
  have "shutdown_step limit shutdown_init quick_1"
    using shutdown_step.proxy[OF proxy_step.management_stopped, of limit shutdown_init]
    by (simp add: quick_1_def shutdown_init_def)
  moreover have "shutdown_step limit quick_1 (quick_1\<lparr>sd_traffic := t\<rparr>)"
    by (intro shutdown_step.proxy proxy_step.traffic_moves) (simp add: quick_1_def shutdown_init_def t)
  moreover have "shutdown_step limit (quick_1\<lparr>sd_traffic := t\<rparr>) quick_2"
    using shutdown_step.proxy[OF proxy_step.traffic_moves[of "quick_1\<lparr>sd_traffic := t\<rparr>" stopped_traffic]] t
    by (simp add: quick_2_def)
  ultimately show ?thesis by (meson converse_rtranclp_into_rtranclp rtranclp.rtrancl_refl)
qed

lemma quick_phases: "(shutdown_step TERMINAL_MUTATION_DRAIN_TIMEOUT)\<^sup>*\<^sup>* quick_2 quick_5"
proof -
  let ?L = TERMINAL_MUTATION_DRAIN_TIMEOUT
  note quick = quick_1_def quick_2_def quick_3_def shutdown_init_def stopped_traffic_def management_acknowledge_def
  have "shutdown_step ?L quick_2 quick_3"
    using shutdown_step.coordinator[OF coordinator_step.requested[of quick_2]] by (simp add: quick)
  moreover have "shutdown_step ?L quick_3 quick_4"
    unfolding quick_4_def
    by (intro shutdown_step.coordinator coordinator_step.accepts_stopped[where d = ACCEPT_STOP_TIMEOUT]) (simp_all add: quick)
  moreover have four: "sd_phase quick_4 = FlushingActivity ACTIVITY_FLUSH_TIMEOUT 0" "sd_pending quick_4 = pending_default"
      "sd_traffic quick_4 = stopped_traffic"
    by (simp_all add: quick_4_def start_drain_def drain_enter_def after_drain_def take_outcome_def Let_def
        tracker_default_def pending_default_def quick)
  have "shutdown_step ?L quick_4 (start_traffic_drain quick_4)"
    by (rule shutdown_step.coordinator, rule coordinator_step.flushed[OF four(1)])
      (simp add: four watermark_is_complete_def pending_default_def)
  moreover have "shutdown_step ?L (start_traffic_drain quick_4) quick_5"
    unfolding quick_5_def
    by (rule shutdown_step.coordinator, rule coordinator_step.traffic_drained)
      (simp_all add: start_traffic_drain_def four stopped_traffic_def)
  ultimately show ?thesis by (meson converse_rtranclp_into_rtranclp rtranclp.rtrancl_refl)
qed

theorem shutdown_within_grace_witness:
  "clean quick_5 \<and> stopped quick_5 \<and> active (sd_tracker quick_5) = 0 \<and> closed_empty (sd_traffic quick_5)"
proof -
  have phase: "sd_phase quick_5 = ShutDown" by (simp add: quick_5_def complete_shutdown_def)
  have ok: "clean quick_5" by code_simp
  show ?thesis
    using shutdown_within_grace[OF rtranclp_trans[OF quick_stops quick_phases]] phase ok by simp
qed

section \<open>The file of the process number\<close>

text \<open>An acquired file was written and synchronised: the last three calls are on its own descriptor.\<close>

lemma acquired_file_is_written:
  assumes "acquire pid p K h = (Ok g, h')"
  shows "\<exists>r1 r2 r3 t. h' = (SyncData (pg_file g), r3) # (WriteAll (pg_file g) [CHR 0x0A], r2)
      # (WriteAll (pg_file g) (decimal (unat pid)), r1) # t
    \<and> rep_error r1 = None \<and> rep_error r2 = None \<and> rep_error r3 = None
    \<and> create_new_file p K h = (Ok (pg_file g, pg_owned g), t)"
  using assms
  by (auto simp: acquire_def write_pid_def on_error_Ok io_bind_Ok sys_Ok return_Ok
      split: prod.splits result.splits)

lemma bare_parent:
  assumes "path_components p = [Normal n]"
  shows "path_file_name p = Some n" "parent_or_dot p = []"
  using assms by (simp_all add: path_file_name_def parent_or_dot_def path_parent_def)

lemma capture_fails:
  assumes "rep_error (k_reply K h (Canonicalize cs)) = Some e"
  shows "fst (boundary_capture cs K h) = Err (OsError e)"
  using assms by (simp add: boundary_capture_def io_bind_def io_case_def sys_def Let_def io_fail_def)

lemma io_bind_fails: "fst (m K h) = Err e \<Longrightarrow> fst (io_bind m f K h) = Err e"
  by (cases "m K h") (simp add: io_bind_def io_case_def io_fail_def)

text \<open>
  C15. A file name without a directory is refused: the parent of such a path is the empty path and not
  missing, so the current directory is not used in its place, and resolving the empty path fails. A
  process-number file and a listening socket named this way stop the start with "not found".
\<close>

theorem bare_pid_file_refused:
  assumes "path_components p = [Normal n]"
    and "\<And>h. rep_error (k_reply K h (Canonicalize [])) = Some ENOENT"
  shows "fst (acquire pid p K h) = Err (PidCreate (OsError ENOENT))
    \<and> fst (bind_unix_socket p K h) = Err (OsError ENOENT)
    \<and> fst (ensure_listener_paths_distinct [Unix p] K h) = Err (OsError ENOENT)"
proof (intro conjI)
  have refused: "fst (boundary_capture [] K h) = Err (OsError ENOENT)" by (rule capture_fails) (rule assms(2))
  have "fst (create_new_file p K h) = Err (OsError ENOENT)"
    by (simp add: create_new_file_def bare_parent[OF assms(1)] io_bind_fails refused)
  then show "fst (acquire pid p K h) = Err (PidCreate (OsError ENOENT))"
    by (cases "create_new_file p K h") (simp add: acquire_def)
  show "fst (bind_unix_socket p K h) = Err (OsError ENOENT)"
    by (simp add: bind_unix_socket_def anchored_capture_def bare_parent[OF assms(1)] io_bind_fails refused)
  have "fst (sys (Canonicalize []) K h) = Err (OsError ENOENT)" using assms(2) by (simp add: sys_def Let_def)
  then show "fst (ensure_listener_paths_distinct [Unix p] K h) = Err (OsError ENOENT)"
    by (simp add: ensure_listener_paths_distinct_def bare_parent[OF assms(1)] io_bind_fails)
qed

definition empty_path_kernel :: kernel where
  "empty_path_kernel =
     \<lparr>k_euid = 1000, k_reply = (\<lambda>h c. \<lparr>rep_error = (if c = Canonicalize [] then Some ENOENT else None), rep_fd = 3,
        rep_stat = \<lparr>stat_dev = 1, stat_ino = 2, stat_mode = 0x41C0, stat_uid = 1000\<rparr>, rep_path = ''/'', rep_bytes = []\<rparr>)\<rparr>"

theorem bare_pid_file_refused_witness:
  "fst (acquire 42 ''proxy.pid'' empty_path_kernel []) = Err (PidCreate (OsError ENOENT))"
proof -
  have "path_components ''proxy.pid'' = [Normal ''proxy.pid'']" by code_simp
  then show ?thesis
    using bare_pid_file_refused[of "''proxy.pid''" "''proxy.pid''" empty_path_kernel 42 "[]"]
    by (simp add: empty_path_kernel_def)
qed

end
