(* ===== verification/Tls_Policy.thy ===== *)
theory Tls_Policy
  imports Config
begin

text \<open>
  The TLS policies that the configuration asks for: the acceptor of the listeners
  (\<open>build_ssl_acceptor\<close> in \<open>src/src/api_server.rs\<close>, with the \<open>openssl\<close> package) and the client that
  fetches custom error pages (\<open>with_tls_policy_and_lookup\<close> in \<open>src/src/errors.rs\<close>, with \<open>rustls\<close>). The
  packages are arguments; what the code builds with them is the record of what it set.
\<close>

section \<open>The acceptor of a listener\<close>

datatype listener_error =
    IncompleteTlsIdentity
  | InvalidTls string

datatype ssl_version = TLS1 | TLS1_1 | TLS1_2 | TLS1_3

datatype verify_mode = VerifyNone | VerifyPeerOrFail | VerifyPeerAcceptAll

record 'key ssl_env =
  ssl_new :: bool
  ssl_read :: "path \<Rightarrow> string option"
  ssl_pem_key :: "string \<Rightarrow> 'key option"
  ssl_pem_key_passphrase :: "string \<Rightarrow> string \<Rightarrow> 'key option"
  ssl_set_key :: "'key \<Rightarrow> bool"
  ssl_set_chain :: "path \<Rightarrow> bool"
  ssl_set_ca :: "path \<Rightarrow> bool"
  ssl_set_version :: "ssl_version \<Rightarrow> bool"
  ssl_set_ciphers :: "string \<Rightarrow> bool"
  ssl_set_dh :: "string \<Rightarrow> bool"
  ssl_key_matches :: "'key \<Rightarrow> path \<Rightarrow> bool"

record 'key acceptor =
  ac_key :: 'key
  ac_chain :: path
  ac_ca :: "path option"
  ac_verify :: verify_mode
  ac_versions :: "(ssl_version \<times> ssl_version) option"
  ac_ciphers :: "string option"
  ac_dh :: "string option"

definition require :: "bool \<Rightarrow> string \<Rightarrow> (listener_error, unit) result" where
  "require b what = (if b then Ok () else Err (InvalidTls what))"

definition protocol_version :: "string \<Rightarrow> (listener_error, ssl_version) result" where
  "protocol_version protocol =
     (if protocol \<in> {''TLSv1'', ''TLSv1.0''} then Ok TLS1
      else if protocol \<in> {''TLSv1_1'', ''TLSv1.1''} then Ok TLS1_1
      else if protocol \<in> {''TLSv1_2'', ''TLSv1.2''} then Ok TLS1_2
      else if protocol \<in> {''TLSv1_3'', ''TLSv1.3''} then Ok TLS1_3
      else Err (InvalidTls ''unsupported protocol''))"

definition load_private_key :: "'key ssl_env \<Rightarrow> path \<Rightarrow> string option \<Rightarrow> (listener_error, 'key) result" where
  "load_private_key env p passphrase =
     and_then (ok_or (InvalidTls ''private key'') (ssl_read env p)) (\<lambda>pem.
       ok_or (InvalidTls ''private key'')
         (case passphrase of
            Some passphrase \<Rightarrow> ssl_pem_key_passphrase env pem passphrase
          | None \<Rightarrow> ssl_pem_key env pem))"

definition acceptor_verify :: "tls_config \<Rightarrow> verify_mode" where
  "acceptor_verify tls =
     (if tls_request_cert tls then
        (if tls_reject_unauthorized tls then VerifyPeerOrFail else VerifyPeerAcceptAll)
      else VerifyNone)"

definition build_ssl_acceptor :: "'key ssl_env \<Rightarrow> tls_config \<Rightarrow> (listener_error, 'key acceptor) result" where
  "build_ssl_acceptor env tls =
     and_then (ok_or IncompleteTlsIdentity (tls_cert tls)) (\<lambda>cert.
     and_then (ok_or IncompleteTlsIdentity (tls_key tls)) (\<lambda>key.
     and_then (require (ssl_new env) ''acceptor policy'') (\<lambda>_.
     and_then (load_private_key env key (tls_key_passphrase tls)) (\<lambda>private_key.
     and_then (require (ssl_set_key env private_key) ''private key'') (\<lambda>_.
     and_then (require (ssl_set_chain env cert) ''certificate chain'') (\<lambda>_.
     and_then (require (case tls_ca tls of Some ca \<Rightarrow> ssl_set_ca env ca | None \<Rightarrow> True) ''client CA'') (\<lambda>_.
     and_then
       (case tls_protocol tls of
          None \<Rightarrow> Ok None
        | Some protocol \<Rightarrow>
            and_then (protocol_version protocol) (\<lambda>version.
            and_then (require (ssl_set_version env version) ''protocol'') (\<lambda>_. Ok (Some (version, version)))))
       (\<lambda>versions.
     and_then (require (case tls_ciphers tls of Some c \<Rightarrow> ssl_set_ciphers env c | None \<Rightarrow> True) ''cipher policy'')
       (\<lambda>_.
     and_then
       (case tls_dhparam tls of
          None \<Rightarrow> Ok None
        | Some dhparam \<Rightarrow>
            and_then (ok_or (InvalidTls ''DH parameters'') (ssl_read env dhparam)) (\<lambda>pem.
            and_then (require (ssl_set_dh env pem) ''DH parameters'') (\<lambda>_. Ok (Some pem))))
       (\<lambda>dh.
     and_then (require (ssl_key_matches env private_key cert) ''identity mismatch'') (\<lambda>_.
       Ok \<lparr>ac_key = private_key, ac_chain = cert, ac_ca = tls_ca tls, ac_verify = acceptor_verify tls,
           ac_versions = versions, ac_ciphers = tls_ciphers tls, ac_dh = dh\<rparr>)))))))))))"

lemma require_Ok [simp]: "require b what = Ok x \<longleftrightarrow> b"
  by (simp add: require_def)

text \<open>
  A built acceptor has the configured identity, whose key matches the certificate, demands client
  certificates exactly when both options are set, and pins the configured protocol version.
\<close>

lemma acceptor_follows_config:
  assumes "build_ssl_acceptor env tls = Ok a"
  shows "tls_cert tls = Some (ac_chain a) \<and> ssl_key_matches env (ac_key a) (ac_chain a)
    \<and> (ac_verify a = VerifyPeerOrFail \<longleftrightarrow> tls_request_cert tls \<and> tls_reject_unauthorized tls)
    \<and> (ac_versions a = None \<longleftrightarrow> tls_protocol tls = None)
    \<and> (\<forall>p. tls_protocol tls = Some p \<longrightarrow> (\<exists>v. protocol_version p = Ok v \<and> ac_versions a = Some (v, v)))"
  using assms
  by (cases "tls_cert tls"; cases "tls_key tls"; cases "tls_protocol tls")
    (auto simp: build_ssl_acceptor_def acceptor_verify_def split: if_splits)

lemma acceptor_needs_identity:
  "tls_cert tls = None \<or> tls_key tls = None \<Longrightarrow> build_ssl_acceptor env tls = Err IncompleteTlsIdentity"
  by (cases "tls_cert tls") (auto simp: build_ssl_acceptor_def)

section \<open>The client of the custom error target\<close>

datatype 'e renderer_build_error =
    ReadTls string 'e
  | InvalidCa
  | InvalidIdentity
  | ClientError

record ('e, 'cert, 'pkey) rustls_env =
  rl_read :: "path \<Rightarrow> ('e, string) result"
  rl_certificates :: "string \<Rightarrow> 'cert list option"
  rl_add_root :: "'cert \<Rightarrow> bool"
  rl_public_roots :: "'cert list"
  rl_versions :: bool
  rl_private_key :: "string \<Rightarrow> 'pkey option"
  rl_client_auth :: "'cert list \<Rightarrow> 'pkey \<Rightarrow> bool"

datatype 'cert verifier = TrustRoots "'cert list" | NoCertificateVerification

record ('cert, 'pkey) client_policy =
  cp_verifier :: "'cert verifier"
  cp_identity :: "('cert list \<times> 'pkey) option"

definition client_roots ::
  "('e, 'cert, 'pkey) rustls_env \<Rightarrow> tls_config option \<Rightarrow> ('e renderer_build_error, 'cert list) result" where
  "client_roots env tls =
     (case Option.bind tls tls_ca of
        None \<Rightarrow> Ok (rl_public_roots env)
      | Some p \<Rightarrow>
          and_then (map_err (ReadTls ''CA certificate'') (rl_read env p)) (\<lambda>pem.
          and_then (ok_or InvalidCa (rl_certificates env pem)) (\<lambda>certificates.
            if certificates = [] then Err InvalidCa
            else if list_all (rl_add_root env) certificates then Ok certificates
            else Err InvalidCa)))"

definition client_identity ::
  "('e, 'cert, 'pkey) rustls_env \<Rightarrow> tls_config option
   \<Rightarrow> ('e renderer_build_error, ('cert list \<times> 'pkey) option) result" where
  "client_identity env tls =
     (case (Option.bind tls tls_cert, Option.bind tls tls_key) of
        (Some certificate, Some key) \<Rightarrow>
          and_then (map_err (ReadTls ''client certificate'') (rl_read env certificate)) (\<lambda>pem.
          and_then (ok_or InvalidIdentity (rl_certificates env pem)) (\<lambda>certificates.
          and_then (map_err (ReadTls ''client key'') (rl_read env key)) (\<lambda>key_pem.
          and_then (ok_or InvalidIdentity (rl_private_key env key_pem)) (\<lambda>private_key.
            if certificates = [] then Err InvalidIdentity else Ok (Some (certificates, private_key))))))
      | _ \<Rightarrow> Ok None)"

definition with_tls_policy ::
  "('e, 'cert, 'pkey) rustls_env \<Rightarrow> bool \<Rightarrow> tls_config option
   \<Rightarrow> ('e renderer_build_error, ('cert, 'pkey) client_policy) result" where
  "with_tls_policy env verify_tls tls =
     and_then (client_roots env tls) (\<lambda>roots.
     and_then (if rl_versions env then Ok () else Err ClientError) (\<lambda>_.
     let verifier = (if verify_tls then TrustRoots roots else NoCertificateVerification)
     in and_then (client_identity env tls) (\<lambda>identity.
        case identity of
          Some own \<Rightarrow>
            if rl_client_auth env (fst own) (snd own)
            then Ok \<lparr>cp_verifier = verifier, cp_identity = identity\<rparr>
            else Err InvalidIdentity
        | None \<Rightarrow> Ok \<lparr>cp_verifier = verifier, cp_identity = None\<rparr>)))"

text \<open>
  With verification on, the client trusts exactly the configured bundle, which is not empty, or the
  public roots when none is configured.
\<close>

lemma verifying_client_trusts_configured_roots:
  fixes env :: "('e, 'cert, 'pkey) rustls_env"
  assumes "with_tls_policy env True tls = Ok c"
  shows "\<exists>roots. cp_verifier c = TrustRoots roots
    \<and> (case Option.bind tls tls_ca of
         None \<Rightarrow> roots = rl_public_roots env
       | Some p \<Rightarrow> roots \<noteq> [] \<and> (\<exists>pem. rl_read env p = Ok pem \<and> rl_certificates env pem = Some roots))"
proof -
  have ok: "map_err f r = Ok a \<longleftrightarrow> r = Ok a" for f :: "'x \<Rightarrow> 'y" and r and a :: 'z by (cases r) auto
  have opt: "ok_or e x = Ok a \<longleftrightarrow> x = Some a" for e :: 'x and x and a :: 'z by (cases x) auto
  obtain roots identity where roots: "client_roots env tls = Ok roots"
    and built: "(case identity of
        Some own \<Rightarrow> if rl_client_auth env (fst own) (snd own)
          then Ok \<lparr>cp_verifier = TrustRoots roots, cp_identity = identity\<rparr> else Err InvalidIdentity
      | None \<Rightarrow> Ok \<lparr>cp_verifier = TrustRoots roots, cp_identity = None\<rparr>)
        = (Ok c :: ('e renderer_build_error, _) result)"
    using assms by (auto simp: with_tls_policy_def Let_def simp del: split_paired_Ex)
  have "cp_verifier c = TrustRoots roots"
    using built by (cases identity) (auto split: if_splits)
  moreover have "case Option.bind tls tls_ca of
         None \<Rightarrow> roots = rl_public_roots env
       | Some p \<Rightarrow> roots \<noteq> [] \<and> (\<exists>pem. rl_read env p = Ok pem \<and> rl_certificates env pem = Some roots)"
    using roots by (auto simp: client_roots_def ok opt split: option.splits if_splits)
  ultimately show ?thesis by blast
qed

end
