(* ===== verification/Metrics_Page.thy ===== *)
theory Metrics_Page
  imports Metrics
begin

text \<open>
  The page that \<open>src/src/metrics.rs\<close> renders for Prometheus, with the quantiles of the two duration
  summaries. The rank of a quantile is computed in double precision as in the source, where a window's
  length, at most 4096, is an exact double; the samples
  themselves stay abstract, with their total order given by a key and their text by a function. The
  result is \<open>None\<close> where the source would index out of range and panic.
\<close>

section \<open>Ranks in double precision\<close>

text \<open>A positive double is a 53-bit integer over a power of two: the quantiles with their texts.\<close>

definition SUMMARY_QUANTILES :: "(string \<times> nat \<times> nat) list" where
  "SUMMARY_QUANTILES =
     [(''0.01'', 5764607523034235, 59), (''0.05'', 7205759403792794, 57), (''0.5'', 4503599627370496, 53),
      (''0.9'', 8106479329266893, 53), (''0.95'', 8556839292003942, 53), (''0.99'', 8917127262193582, 53),
      (''0.999'', 8998192055486251, 53)]"

fun bit_length :: "nat \<Rightarrow> nat" where
  "bit_length n = (if n = 0 then 0 else Suc (bit_length (n div 2)))"

declare bit_length.simps [simp del]

text \<open>The integer nearest to \<open>p / 2 ^ k\<close>, the even one of two.\<close>

definition nearest_even :: "nat \<Rightarrow> nat \<Rightarrow> nat" where
  "nearest_even p k =
     (let q = p div 2 ^ k; r = 2 * (p mod 2 ^ k)
      in if 2 ^ k < r \<or> (r = 2 ^ k \<and> odd q) then Suc q else q)"

text \<open>The product of two doubles, as the numerator over the same power of two.\<close>

definition double_product :: "nat \<Rightarrow> nat \<Rightarrow> nat" where
  "double_product n m =
     (let p = n * m; k = bit_length p - 53 in if k = 0 then p else nearest_even p k * 2 ^ k)"

text \<open>\<open>f64::round\<close>, halves away from zero.\<close>

definition quantile_index :: "nat \<Rightarrow> nat \<times> nat \<Rightarrow> nat" where
  "quantile_index n q = (case q of (m, e) \<Rightarrow> (double_product n m + 2 ^ (e - 1)) div 2 ^ e)"

section \<open>Snapshots\<close>

record 'f summary_snapshot =
  ss_count :: u64
  ss_sum :: 'f
  ss_sorted_recent :: "'f list"

definition summary_snapshot_of :: "'f summary \<Rightarrow> 'f summary_snapshot" where
  "summary_snapshot_of s = \<lparr>ss_count = sum_count s, ss_sum = sum_total s, ss_sorted_recent = sum_recent s\<rparr>"

definition snapshot_sort :: "('f \<Rightarrow> 'k::linorder) \<Rightarrow> 'f summary_snapshot \<Rightarrow> 'f summary_snapshot" where
  "snapshot_sort key s = s\<lparr>ss_sorted_recent := sort_key key (ss_sorted_recent s)\<rparr>"

definition quantile :: "'f \<Rightarrow> 'f summary_snapshot \<Rightarrow> nat \<times> nat \<Rightarrow> 'f option" where
  "quantile zero s q =
     (if ss_sorted_recent s = [] then Some zero
      else
        let index = quantile_index (length (ss_sorted_recent s) - 1) q
        in if index < length (ss_sorted_recent s) then Some (ss_sorted_recent s ! index) else None)"

record metrics_snapshot =
  snap_requests_api :: "(u16, u64) btree"
  snap_requests_proxy :: "(u16, u64) btree"
  snap_api_route_get :: u64
  snap_api_route_add :: u64
  snap_api_route_delete :: u64
  snap_requests_ws :: u64
  snap_requests_web :: u64
  snap_activity_persistence_failures :: u64
  snap_activity_dropped :: u64

definition metrics_snapshot_of :: "'f metrics \<Rightarrow> metrics_snapshot" where
  "metrics_snapshot_of m =
     \<lparr>snap_requests_api = requests_api m, snap_requests_proxy = requests_proxy m,
      snap_api_route_get = api_route_get m, snap_api_route_add = api_route_add m,
      snap_api_route_delete = api_route_delete m, snap_requests_ws = requests_ws m,
      snap_requests_web = requests_web m,
      snap_activity_persistence_failures = activity_persistence_failures m,
      snap_activity_dropped = activity_dropped m\<rparr>"

section \<open>The page\<close>

fun quantile_lines ::
  "('f \<Rightarrow> string) \<Rightarrow> 'f \<Rightarrow> string \<Rightarrow> 'f summary_snapshot \<Rightarrow> (string \<times> nat \<times> nat) list \<Rightarrow> string option" where
  "quantile_lines fmt zero name s [] = Some []"
| "quantile_lines fmt zero name s ((label, q) # qs) =
     Option.bind (quantile zero s q) (\<lambda>v.
     map_option (\<lambda>rest. name @ ''{quantile='' @ quote_char @ label @ quote_char @ ''} '' @ fmt v @ newline @ rest)
       (quantile_lines fmt zero name s qs))"

definition render_summary ::
  "('f \<Rightarrow> string) \<Rightarrow> 'f \<Rightarrow> string \<Rightarrow> string \<Rightarrow> 'f summary_snapshot \<Rightarrow> string option" where
  "render_summary fmt zero name help s =
     map_option (\<lambda>lines.
         ''# HELP '' @ name @ '' '' @ help @ newline @ ''# TYPE '' @ name @ '' summary'' @ newline
         @ lines @ name @ ''_sum '' @ fmt (ss_sum s) @ newline
         @ name @ ''_count '' @ decimal (unat (ss_count s)) @ newline @ newline)
       (quantile_lines fmt zero name s SUMMARY_QUANTILES)"

definition render_prometheus ::
  "('f \<Rightarrow> 'k::linorder) \<Rightarrow> ('f \<Rightarrow> string) \<Rightarrow> 'f \<Rightarrow> 'f metrics \<Rightarrow> string option" where
  "render_prometheus key fmt zero m =
     (let snapshot = metrics_snapshot_of m;
          find_target = snapshot_sort key (summary_snapshot_of (find_target_for_req m));
          last_activity = snapshot_sort key (summary_snapshot_of (last_activity_updating m))
      in Option.bind (render_summary fmt zero ''find_target_for_req'' ''Summary of find target requests'' find_target)
           (\<lambda>find_target_text.
         map_option (\<lambda>last_activity_text.
             render_counter ''api_route_get'' ''Count of API route get requests'' (snap_api_route_get snapshot)
             @ render_counter ''api_route_add'' ''Count of API route add requests'' (snap_api_route_add snapshot)
             @ render_counter ''api_route_delete'' ''Count of API route delete requests'' (snap_api_route_delete snapshot)
             @ find_target_text @ last_activity_text
             @ render_counter ''requests_ws'' ''Count of websocket requests'' (snap_requests_ws snapshot)
             @ render_counter ''requests_web'' ''Count of web requests'' (snap_requests_web snapshot)
             @ render_status_counter ''requests_proxy'' ''Count of proxy requests'' (snap_requests_proxy snapshot)
             @ render_status_counter ''requests_api'' ''Count of API requests'' (snap_requests_api snapshot))
           (render_summary fmt zero ''last_activity_updating'' ''Summary of last activity updating requests''
              last_activity)))"

section \<open>Ranks are in range\<close>

lemma bit_length_le: "n < 2 ^ k \<Longrightarrow> bit_length n \<le> k"
proof (induction n arbitrary: k rule: bit_length.induct)
  case (1 n)
  show ?case
  proof (cases "n = 0")
    case True
    then show ?thesis by (simp add: bit_length.simps)
  next
    case False
    with 1(2) obtain j where j: "k = Suc j" by (cases k) auto
    with 1(2) have "n div 2 < 2 ^ j" by auto
    then show ?thesis using 1(1)[OF False] False j by (subst bit_length.simps) simp
  qed
qed

lemma nearest_even_le:
  assumes "0 < k"
  shows "nearest_even p k * 2 ^ k \<le> p + 2 ^ (k - 1)"
proof -
  obtain j where j: "k = Suc j" using assms by (cases k) auto
  have p: "p div 2 ^ k * 2 ^ k + p mod 2 ^ k = p" by (rule div_mult_mod_eq)
  show ?thesis
  proof (cases "2 ^ k \<le> 2 * (p mod 2 ^ k)")
    case True
    then have "2 ^ k \<le> p mod 2 ^ k + 2 ^ j" by (simp add: j)
    then have "p div 2 ^ k * 2 ^ k + 2 ^ k \<le> p + 2 ^ j" using p by linarith
    then have "Suc (p div 2 ^ k) * 2 ^ k \<le> p + 2 ^ j" by (simp add: add.commute)
    moreover have "nearest_even p k \<le> Suc (p div 2 ^ k)" by (simp add: nearest_even_def Let_def)
    then have "nearest_even p k * 2 ^ k \<le> Suc (p div 2 ^ k) * 2 ^ k" by (rule mult_le_mono1)
    ultimately show ?thesis by (simp add: j)
  next
    case False
    then have eq: "nearest_even p k = p div 2 ^ k" by (auto simp: nearest_even_def Let_def)
    show ?thesis unfolding eq by (rule trans_le_add1) (rule div_times_less_eq_dividend)
  qed
qed

lemma double_product_le:
  assumes "n < 2 ^ 12" "m < 2 ^ 53"
  shows "double_product n m \<le> n * m + 2 ^ 11"
proof -
  have "n * m < 2 ^ 12 * 2 ^ 53" using assms by (rule mult_strict_mono) auto
  then have "n * m < 2 ^ 65" by simp
  then have k: "bit_length (n * m) - 53 \<le> 12" using bit_length_le[of "n * m" 65] by simp
  show ?thesis
  proof (cases "bit_length (n * m) - 53 = 0")
    case True
    then show ?thesis by (simp add: double_product_def Let_def)
  next
    case False
    then have "double_product n m \<le> n * m + 2 ^ (bit_length (n * m) - 53 - 1)"
      using nearest_even_le[of "bit_length (n * m) - 53" "n * m"] by (simp add: double_product_def Let_def)
    also have "\<dots> \<le> n * m + 2 ^ 11" using k by (intro add_left_mono power_increasing) auto
    finally show ?thesis .
  qed
qed

lemma quantile_index_le:
  assumes "n < 2 ^ 12" "m < 2 ^ 53" "53 \<le> e"
  shows "quantile_index n (m, e) \<le> n"
proof -
  obtain j where j: "e = Suc j" "12 \<le> j" using assms(3) by (cases e) auto
  have "(2::nat) ^ 53 \<le> 2 ^ e" using assms(3) by (intro power_increasing) auto
  then have "n * m \<le> n * 2 ^ e" using assms(2) by (intro mult_le_mono2) simp
  moreover have "(2::nat) ^ 11 < 2 ^ j" using j(2) by (intro power_strict_increasing) auto
  moreover have "(2::nat) ^ e = 2 ^ j + 2 ^ j" by (simp add: j(1))
  ultimately have "double_product n m + 2 ^ j < n * 2 ^ e + 2 ^ e"
    using double_product_le[OF assms(1,2)] by linarith
  then have "double_product n m + 2 ^ j < Suc n * 2 ^ e" by simp
  then have "(double_product n m + 2 ^ j) div 2 ^ e < Suc n" by (simp add: less_mult_imp_div_less)
  then show ?thesis by (simp add: quantile_index_def j(1))
qed

lemma quantiles_are_doubles: "(label, m, e) \<in> set SUMMARY_QUANTILES \<Longrightarrow> m < 2 ^ 53 \<and> 53 \<le> e"
  by (auto simp: SUMMARY_QUANTILES_def)

lemma quantile_in_range:
  assumes "length (ss_sorted_recent s) \<le> SUMMARY_WINDOW_CAPACITY" "(label, q) \<in> set SUMMARY_QUANTILES"
    and "ss_sorted_recent s \<noteq> []"
  shows "quantile_index (length (ss_sorted_recent s) - 1) q < length (ss_sorted_recent s)"
    and "quantile zero s q = Some (ss_sorted_recent s ! quantile_index (length (ss_sorted_recent s) - 1) q)"
proof -
  obtain m e where q: "q = (m, e)" by (cases q)
  have "quantile_index (length (ss_sorted_recent s) - 1) (m, e) \<le> length (ss_sorted_recent s) - 1"
    using assms quantiles_are_doubles[of label m e] q
    by (intro quantile_index_le) (auto simp: SUMMARY_WINDOW_CAPACITY_def)
  moreover have "0 < length (ss_sorted_recent s)" using assms(3) by simp
  ultimately show less: "quantile_index (length (ss_sorted_recent s) - 1) q < length (ss_sorted_recent s)"
    unfolding q by linarith
  then show "quantile zero s q = Some (ss_sorted_recent s ! quantile_index (length (ss_sorted_recent s) - 1) q)"
    using assms(3) by (simp add: quantile_def Let_def)
qed

lemma quantile_total:
  assumes "length (ss_sorted_recent s) \<le> SUMMARY_WINDOW_CAPACITY" "(label, q) \<in> set SUMMARY_QUANTILES"
  shows "quantile zero s q \<noteq> None"
  using quantile_in_range[OF assms] by (cases "ss_sorted_recent s = []") (auto simp: quantile_def)

lemma quantile_lines_total:
  assumes "length (ss_sorted_recent s) \<le> SUMMARY_WINDOW_CAPACITY" "set qs \<subseteq> set SUMMARY_QUANTILES"
  shows "\<exists>lines. quantile_lines fmt zero name s qs = Some lines"
  using assms(2)
proof (induction qs)
  case (Cons lq qs)
  obtain label q where lq: "lq = (label, q)" by (cases lq)
  obtain v where "quantile zero s q = Some v" using quantile_total[OF assms(1), of label q] Cons(2) lq by auto
  then show ?case using Cons lq by auto
qed simp

lemma render_summary_total:
  assumes "length (ss_sorted_recent s) \<le> SUMMARY_WINDOW_CAPACITY"
  shows "\<exists>page. render_summary fmt zero name help s = Some page"
  using quantile_lines_total[OF assms, of SUMMARY_QUANTILES fmt zero name] by (auto simp: render_summary_def)

section \<open>Recorded events\<close>

datatype 'f metrics_event =
    ApiRequest u16 | RouteGet | RouteAdd | RouteDelete | TargetFound 'f | ActivityUpdated 'f
  | WsRequest | WebRequest | ProxyRequest u16 | PersistenceFailed | ActivityDropped

fun record_event :: "('f \<Rightarrow> 'f \<Rightarrow> 'f) \<Rightarrow> 'f metrics_event \<Rightarrow> 'f metrics \<Rightarrow> 'f metrics" where
  "record_event add (ApiRequest status) = record_api_request status"
| "record_event add RouteGet = record_api_route_get"
| "record_event add RouteAdd = record_api_route_add"
| "record_event add RouteDelete = record_api_route_delete"
| "record_event add (TargetFound d) = record_find_target add d"
| "record_event add (ActivityUpdated d) = record_last_activity_update add d"
| "record_event add WsRequest = record_ws_request"
| "record_event add WebRequest = record_web_request"
| "record_event add (ProxyRequest status) = record_proxy_request status"
| "record_event add PersistenceFailed = record_activity_persistence_failure"
| "record_event add ActivityDropped = record_activity_drop"

fun found_durations :: "'f metrics_event list \<Rightarrow> 'f list" where
  "found_durations [] = []"
| "found_durations (TargetFound d # events) = d # found_durations events"
| "found_durations (_ # events) = found_durations events"

fun update_durations :: "'f metrics_event list \<Rightarrow> 'f list" where
  "update_durations [] = []"
| "update_durations (ActivityUpdated d # events) = d # update_durations events"
| "update_durations (_ # events) = update_durations events"

definition recorded :: "('f \<Rightarrow> 'f \<Rightarrow> 'f) \<Rightarrow> 'f \<Rightarrow> 'f metrics_event list \<Rightarrow> 'f metrics" where
  "recorded add zero events = fold (record_event add) events (metrics_new zero)"

lemmas record_defs = record_find_target_def record_last_activity_update_def
  record_api_request_def record_api_route_get_def record_api_route_add_def record_api_route_delete_def
  record_ws_request_def record_web_request_def record_proxy_request_def
  record_activity_persistence_failure_def record_activity_drop_def

lemma found_of_events:
  "find_target_for_req (fold (record_event add) events m) = summary_run add (found_durations events) (find_target_for_req m)"
proof (induction events arbitrary: m)
  case (Cons e events)
  then show ?case by (cases e) (simp_all add: summary_run_def record_defs)
qed (simp add: summary_run_def)

lemma updates_of_events:
  "last_activity_updating (fold (record_event add) events m) = summary_run add (update_durations events) (last_activity_updating m)"
proof (induction events arbitrary: m)
  case (Cons e events)
  then show ?case by (cases e) (simp_all add: summary_run_def record_defs)
qed (simp add: summary_run_def)

lemma recorded_windows:
  "sum_recent (find_target_for_req (recorded add zero events)) = newest 4096 (found_durations events)"
  "sum_recent (last_activity_updating (recorded add zero events)) = newest 4096 (update_durations events)"
  by (simp_all add: recorded_def found_of_events updates_of_events metrics_new_def summary_window_recent newest_def)

lemma renders_when:
  assumes "\<exists>p. render_summary fmt zero ''find_target_for_req'' ''Summary of find target requests''
      (snapshot_sort key (summary_snapshot_of (find_target_for_req m))) = Some p"
    and "\<exists>p. render_summary fmt zero ''last_activity_updating'' ''Summary of last activity updating requests''
      (snapshot_sort key (summary_snapshot_of (last_activity_updating m))) = Some p"
  shows "\<exists>page. render_prometheus key fmt zero m = Some page"
proof -
  obtain p q where "render_summary fmt zero ''find_target_for_req'' ''Summary of find target requests''
      (snapshot_sort key (summary_snapshot_of (find_target_for_req m))) = Some p"
    "render_summary fmt zero ''last_activity_updating'' ''Summary of last activity updating requests''
      (snapshot_sort key (summary_snapshot_of (last_activity_updating m))) = Some q"
    using assms by blast
  then show ?thesis unfolding render_prometheus_def Let_def by (simp only: Option.bind.simps option.map) blast
qed

lemma summary_renders:
  assumes "length (sum_recent s) \<le> SUMMARY_WINDOW_CAPACITY"
  shows "\<exists>page. render_summary fmt zero name what (snapshot_sort key (summary_snapshot_of s)) = Some page"
  by (rule render_summary_total) (use assms in \<open>simp add: snapshot_sort_def summary_snapshot_of_def\<close>)

lemma snapshot_quantile:
  assumes "sum_recent s = window" "length window \<le> SUMMARY_WINDOW_CAPACITY" "window \<noteq> []"
    and "(label, q) \<in> set SUMMARY_QUANTILES"
  shows "quantile_index (length window - 1) q < length window"
    and "quantile zero (snapshot_sort key (summary_snapshot_of s)) q
      = Some (sort_key key window ! quantile_index (length window - 1) q)"
proof -
  let ?s = "snapshot_sort key (summary_snapshot_of s)"
  have sorted: "ss_sorted_recent ?s = sort_key key window"
    by (simp add: snapshot_sort_def summary_snapshot_of_def assms(1))
  have "sort_key key window \<noteq> []" using assms(3) by (metis length_0_conv length_sort)
  then show "quantile_index (length window - 1) q < length window"
      "quantile zero ?s q = Some (sort_key key window ! quantile_index (length window - 1) q)"
    using quantile_in_range[of ?s label q] assms(2,4) by (simp_all add: sorted)
qed

text \<open>The durations that the summary of resolved targets shows after the events.\<close>

definition found_window :: "'f metrics_event list \<Rightarrow> 'f list" where
  "found_window events = newest 4096 (found_durations events)"

lemma newest_window: "length (newest 4096 xs) \<le> SUMMARY_WINDOW_CAPACITY" "newest 4096 xs = [] \<longleftrightarrow> xs = []"
  by (cases xs; simp add: newest_def SUMMARY_WINDOW_CAPACITY_def)+

text \<open>
  The metrics page can always be rendered: after any sequence of recorded events no quantile of the
  two duration summaries is looked up out of range, although the rank is rounded twice, to a double and
  to an integer. Each quantile of a summary with observations is the element at the computed rank of
  the sorted window of the most recent 4096 durations.
\<close>

theorem metrics_page_renders:
  fixes key :: "'a \<Rightarrow> 'k::linorder"
  assumes "found_durations events \<noteq> []" "(label, q) \<in> set SUMMARY_QUANTILES"
  shows "(\<exists>page. render_prometheus key fmt zero (recorded add zero events) = Some page)
    \<and> quantile_index (length (found_window events) - 1) q < length (found_window events)
    \<and> quantile zero (snapshot_sort key (summary_snapshot_of (find_target_for_req (recorded add zero events)))) q
        = Some (sort_key key (found_window events) ! quantile_index (length (found_window events) - 1) q)"
proof (intro conjI)
  let ?m = "recorded add zero events"
  have short: "length (sum_recent (find_target_for_req ?m)) \<le> SUMMARY_WINDOW_CAPACITY"
      "length (sum_recent (last_activity_updating ?m)) \<le> SUMMARY_WINDOW_CAPACITY"
    by (simp_all add: recorded_windows newest_window)
  show "\<exists>page. render_prometheus key fmt zero ?m = Some page"
    by (rule renders_when) (rule summary_renders[OF short(1)], rule summary_renders[OF short(2)])
  have w: "sum_recent (find_target_for_req ?m) = found_window events"
      "length (found_window events) \<le> SUMMARY_WINDOW_CAPACITY" "found_window events \<noteq> []"
    using assms(1) by (simp_all add: found_window_def recorded_windows newest_window)
  show "quantile_index (length (found_window events) - 1) q < length (found_window events)"
    by (rule snapshot_quantile(1)[OF w assms(2)])
  show "quantile zero (snapshot_sort key (summary_snapshot_of (find_target_for_req ?m))) q
      = Some (sort_key key (found_window events) ! quantile_index (length (found_window events) - 1) q)"
    by (rule snapshot_quantile(2)[OF w assms(2)])
qed

text \<open>Two durations; the median has rank one.\<close>

definition two_found :: "nat metrics_event list" where
  "two_found = [TargetFound 40, RouteGet, TargetFound 10]"

lemma two_found_window: "found_window two_found = [40, 10]"
  by (simp add: found_window_def two_found_def newest_def)

lemma median_is_quantile: "(''0.5'', 4503599627370496, 53) \<in> set SUMMARY_QUANTILES"
  by (simp add: SUMMARY_QUANTILES_def)

lemma two_found_rank: "quantile_index (Suc 0) (4503599627370496, 53) = 1"
proof -
  have "bit_length 4503599627370496 \<le> 53" by (rule bit_length_le) simp
  then show ?thesis by (simp add: quantile_index_def double_product_def Let_def)
qed

theorem metrics_page_renders_witness:
  "(\<exists>page. render_prometheus (\<lambda>n. n) decimal 0 (recorded (+) 0 two_found) = Some page)
   \<and> quantile 0 (snapshot_sort (\<lambda>n. n) (summary_snapshot_of (find_target_for_req (recorded (+) 0 two_found))))
       (4503599627370496, 53) = Some 40"
proof -
  have "found_durations two_found \<noteq> []" by (simp add: two_found_def)
  from metrics_page_renders[OF this median_is_quantile, of "\<lambda>n. n" decimal 0 "(+)"]
  show ?thesis by (simp add: two_found_window two_found_rank)
qed

end
