(* ===== verification/Spec2Isabelle.thy ===== *)
theory Spec2Isabelle
  imports Registry_Safety Activity_Writer Api_Safety Redis_Contract Sidecar_Safety Proxy_Safety Public_Safety
    Shutdown_Safety Tls_Policy Metrics_Page
begin

text \<open>
  This library models and verifies the reverse proxy under \<open>src/\<close>, a drop-in replacement of the
  configurable HTTP proxy of JupyterHub. Paths below are relative to \<open>src/src/\<close>.

  \<^bold>\<open>The program.\<close> A route maps a path prefix to an upstream target. The registry
  (\<open>route_table.rs\<close>) publishes an immutable snapshot of all routes to readers and writes every
  change first to a store: memory, Redis or an HTTP sidecar (\<open>store/\<close>). The management API
  (\<open>api.rs\<close>) changes and lists routes. The proxy (\<open>proxy.rs\<close>) resolves each public request in the
  snapshot, rewrites headers and redirects (\<open>upstream.rs\<close>), renders errors (\<open>errors.rs\<close>) and
  reports activity, which a writer (\<open>activity.rs\<close>) coalesces and persists. \<open>config.rs\<close> validates the
  command line and \<open>metrics.rs\<close> counts. \<open>api_server.rs\<close> owns the listeners, admits and drains traffic
  and hands the public socket to the server framework; \<open>path_ownership.rs\<close> creates and removes the
  files and sockets the process owns; \<open>shutdown.rs\<close> leads the process to its end.

  \<^bold>\<open>How the model is written.\<close> A struct is a record, an enum a datatype, a \<open>BTreeMap\<close> an
  association list with ascending keys, a \<open>String\<close> its byte sequence, a counter a word of its width.
  Fallible functions return \<open>result\<close>. Code that talks to the kernel records every call with its
  answer; the answers are arbitrary, so theorems about it hold under every failure and every change by
  other processes between two calls. Other stateful code passes its state; code that other tasks
  interleave with is a step relation whose steps are the atomic accesses of the source. Third-party
  packages (URL parsing, JSON text, date text, HTTP and TLS, the kernel) are arguments of the
  definitions; what a theorem needs of them is a hypothesis of that theorem, and its witness
  instantiates them with concrete functions.

  \<^bold>\<open>Theories.\<close>

  \<^item> \<open>Prelude\<close>, \<open>Rust_Strings\<close>, \<open>Unary_Text\<close>, \<open>Percent_Coding\<close>, \<open>Headers\<close>, \<open>Url_Library\<close>:
    results, ordered maps, strings, UTF-8, numbers, percent coding, header maps and the interface of
    the URL package.
  \<^item> \<open>Route\<close> (\<open>route.rs\<close>): normal form of route keys, route data and their JSON.
  \<^item> \<open>Store\<close> (\<open>store/mod.rs\<close>): the six operations of a backend and the contract that a backend keeps,
    as a locale. \<open>Memory_Store\<close>, \<open>Redis_Store\<close> with \<open>Redis_Contract\<close>, and \<open>Sidecar_Store\<close> with
    \<open>Sidecar_Contract\<close> and \<open>Sidecar_Safety\<close> model the three backends and interpret the contract.
    The Redis server and the sidecar answer from scripts that include other clients' writes, lost
    replies and time-outs.
  \<^item> \<open>Route_Table\<close>: ordered routes, the segment trie and resolution; resolution finds the longest
    stored prefix, the latest write among equal ones.
  \<^item> \<open>Mutation_Tracker\<close>: admission, seals, the ring of diagnostics, draining with its wake-ups.
  \<^item> \<open>Route_Registry\<close>, \<open>Registry_Tasks\<close>, \<open>Registry_Safety\<close>: publication by compare-and-swap, the owned
    mutations, and the step relation of concurrent mutation tasks; the snapshot agrees with the
    backend, an uncertain backend result stops the registry, a drained registry is quiet.
  \<^item> \<open>Activity_Writer\<close> (\<open>activity.rs\<close>): coalescing per route, the worker, flushing to a watermark.
  \<^item> \<open>Metrics\<close>, \<open>Metrics_Page\<close> (\<open>metrics.rs\<close>): counters, the sliding window of the summaries, quantile ranks
    in double precision and the rendered page, which can always be produced.
  \<^item> \<open>Api\<close>, \<open>Api_Safety\<close> (\<open>api.rs\<close>): token extraction, the router and its handlers; unauthorised
    requests change and reveal nothing, a created route can be read back, requests refine registry
    steps.
  \<^item> \<open>Config\<close> (\<open>config.rs\<close>): what validation accepts is well-formed.
  \<^item> \<open>Upstream\<close>, \<open>Upstream_Safety\<close> (\<open>upstream.rs\<close>): targets, hop-by-hop headers, forwarded headers,
    redirect rewriting.
  \<^item> \<open>Resolver\<close>, \<open>Errors\<close>, \<open>Errors_Safety\<close> (\<open>errors.rs\<close>): the address cache of the error target, the
    bounded client, the chunked decoder, error files and pages.
  \<^item> \<open>Traffic\<close> (\<open>api_server.rs\<close>, \<open>TrafficLifecycle\<close>), \<open>Proxy\<close>, \<open>Proxy_Safety\<close> (\<open>proxy.rs\<close>): admission,
    every proxy callback, and how a refused request is answered exactly once.
  \<^item> \<open>Rust_Paths\<close>, \<open>Kernel_Calls\<close>: paths, the calls a process makes and a logic for the record of calls.
  \<^item> \<open>Path_Ownership\<close>, \<open>Path_Safety\<close>, \<open>Boundary_Safety\<close> (\<open>path_ownership.rs\<close>, Linux): authenticated chains of
    directories, private directories, owned entries and cleanup through a quarantine; cleanup touches
    only what is owned, and files are created only below vetted directories.
  \<^item> \<open>Listeners\<close>, \<open>Listeners_Safety\<close> (\<open>api_server.rs\<close>): Unix sockets, which get their public name only
    after they were verified, path checks, redirects, the stop of accepting and the handshake bound.
  \<^item> \<open>Public_Service\<close>, \<open>Public_Safety\<close> (\<open>api_server.rs\<close>): the public service, which reports readiness only
    when the configured path leads to its socket and otherwise signals a failed start.
  \<^item> \<open>Tls_Policy\<close> (\<open>api_server.rs\<close>, \<open>errors.rs\<close>): which acceptor and client policy a configuration asks for.
  \<^item> \<open>Shutdown\<close>, \<open>Shutdown_Safety\<close> (\<open>shutdown.rs\<close>): the process-number file and the coordinator, which
    finishes within the grace period.

  \<^bold>\<open>Bounds.\<close> No definition uses fuel. Loops recurse over their input, over the script of a peer, or
  over the finite list of interfering events; compare-and-swap loops recurse over the publications of
  other threads and end when nobody else publishes. The attempts to find an unused private name are the
  eight of the source.

  \<^bold>\<open>Not modelled.\<close> The parsing of the command line (the \<open>clap\<close> package) and the wiring in \<open>main.rs\<close>;
  logging and \<open>Debug\<close> output; the closing of descriptors; path ownership on other platforms than Linux;
  binding TCP sockets, the HTTP server loop, the TLS protocol and the HTTP connector, which are calls into
  packages; the cancellation of the public service in the middle of a wait; and the server framework
  under \<open>src/vendor\<close>. \<open>utils.rs\<close>, \<open>mgmt_api.rs\<close> and \<open>redis_utils.rs\<close> are not part of the compiled program.
\<close>

end
